(* ===== verification/Fine_Prelude.thy ===== *)
theory Fine_Prelude
  imports Main "HOL-Library.Char_ord" "HOL-Library.Multiset"
begin

text \<open>
  What every component of the development shares: the lemma collections, the
  error-or-value results that stand for C++ exceptions, the decimal text that
  \<^verbatim>\<open>std::to_string\<close> and \<^verbatim>\<open>operator<<\<close> print for unsigned integers, and the
  generic facts on lists that the component theories use.
\<close>

section \<open>Lemma collections\<close>

named_theorems wp_rule \<open>verification-condition rules of the parsers\<close>
named_theorems meas_simps \<open>facts about the input a parser state has left\<close>

section \<open>Results: an exception is the left value of a sum\<close>

definition bindE :: "'e + 'a \<Rightarrow> ('a \<Rightarrow> 'e + 'b) \<Rightarrow> 'e + 'b" where
  "bindE m f = (case m of Inl e \<Rightarrow> Inl e | Inr x \<Rightarrow> f x)"

lemma bindE_simps [simp]:
  "bindE (Inl e) f = Inl e"
  "bindE (Inr x) f = f x"
  by (simp_all add: bindE_def)

lemma bindE_Inr_conv: "bindE m f = Inr y \<longleftrightarrow> (\<exists>x. m = Inr x \<and> f x = Inr y)"
  by (cases m) auto

lemma bindE_cong [fundef_cong]:
  "m = m' \<Longrightarrow> (\<And>x. m' = Inr x \<Longrightarrow> f x = g x) \<Longrightarrow> bindE m f = bindE m' g"
  by (cases m') auto

text \<open>A loop that collects results and stops at the first exception.\<close>

primrec mapE :: "('a \<Rightarrow> 'e + 'b) \<Rightarrow> 'a list \<Rightarrow> 'e + 'b list" where
  "mapE f [] = Inr []"
| "mapE f (x # xs) = bindE (f x) (\<lambda>y. bindE (mapE f xs) (\<lambda>ys. Inr (y # ys)))"

lemma mapE_cong [fundef_cong]:
  assumes "xs = ys" "\<And>x. x \<in> set ys \<Longrightarrow> f x = g x"
  shows "mapE f xs = mapE g ys"
proof -
  have "(\<And>x. x \<in> set ys \<Longrightarrow> f x = g x) \<Longrightarrow> mapE f ys = mapE g ys" by (induction ys) simp_all
  with assms show ?thesis by simp
qed

lemma mapE_Inr_conv: "mapE f xs = Inr ys \<longleftrightarrow> list_all2 (\<lambda>x y. f x = Inr y) xs ys"
  by (induction xs arbitrary: ys) (auto simp: bindE_Inr_conv list_all2_Cons1)

section \<open>Decimal text\<close>

definition digit_char :: "nat \<Rightarrow> char" where
  "digit_char d = char_of (48 + d)"

text \<open>\<open>nat_to_string\<close> is what \<^verbatim>\<open>std::to_string\<close> prints for an unsigned value.\<close>

fun nat_to_string :: "nat \<Rightarrow> string" where
  "nat_to_string n =
     (if n < 10 then [digit_char n] else nat_to_string (n div 10) @ [digit_char (n mod 10)])"

declare nat_to_string.simps [simp del]

definition is_digit :: "char \<Rightarrow> bool" where
  "is_digit c \<longleftrightarrow> CHR ''0'' \<le> c \<and> c \<le> CHR ''9''"

definition digit_value :: "char \<Rightarrow> nat" where
  "digit_value c = of_char c - 48"

text \<open>\<open>string_to_nat\<close> is the value \<^verbatim>\<open>std::stoul\<close> reads from a text of decimal digits.\<close>

definition string_to_nat :: "string \<Rightarrow> nat" where
  "string_to_nat s = foldl (\<lambda>n c. 10 * n + digit_value c) 0 s"

lemma is_digit_digit_char: "d < 10 \<Longrightarrow> is_digit (digit_char d)"
  by (simp add: is_digit_def digit_char_def less_eq_char_def)

lemma digit_value_digit_char: "d < 10 \<Longrightarrow> digit_value (digit_char d) = d"
  by (simp add: digit_value_def digit_char_def)

lemma nat_to_string_not_Nil [simp]: "nat_to_string n \<noteq> []"
  by (subst nat_to_string.simps) simp

lemma nat_to_string_digits: "c \<in> set (nat_to_string n) \<Longrightarrow> is_digit c"
proof (induction n rule: nat_to_string.induct)
  case (1 n)
  then show ?case
    by (subst (asm) nat_to_string.simps) (auto split: if_splits intro: is_digit_digit_char)
qed

lemma string_to_nat_snoc: "string_to_nat (s @ [c]) = 10 * string_to_nat s + digit_value c"
  by (simp add: string_to_nat_def)

lemma string_to_nat_to_string: "string_to_nat (nat_to_string n) = n"
proof (induction n rule: nat_to_string.induct)
  case (1 n)
  show ?case
  proof (cases "n < 10")
    case True
    then show ?thesis
      by (subst nat_to_string.simps) (simp add: string_to_nat_def digit_value_digit_char)
  next
    case False
    with 1 show ?thesis
      by (subst nat_to_string.simps) (simp add: string_to_nat_snoc digit_value_digit_char)
  qed
qed

lemma nat_to_string_inject [simp]: "nat_to_string m = nat_to_string n \<longleftrightarrow> m = n"
  by (metis string_to_nat_to_string)

section \<open>Lists\<close>

text \<open>A list whose elements are pairwise different and lie in the interval from \<open>lo\<close>
  up to but not including \<open>hi\<close>: the shape of the identities a counter hands out.\<close>

definition fresh_ids :: "nat \<Rightarrow> nat \<Rightarrow> nat list \<Rightarrow> bool" where
  "fresh_ids lo hi xs \<longleftrightarrow> lo \<le> hi \<and> distinct xs \<and> set xs \<subseteq> {lo..<hi}"

lemma fresh_ids_Nil [simp]: "fresh_ids lo hi [] \<longleftrightarrow> lo \<le> hi"
  by (simp add: fresh_ids_def)

lemma fresh_ids_le: "fresh_ids lo hi xs \<Longrightarrow> lo \<le> hi"
  by (simp add: fresh_ids_def)

lemma fresh_ids_mono: "fresh_ids lo hi xs \<Longrightarrow> lo' \<le> lo \<Longrightarrow> hi \<le> hi' \<Longrightarrow> fresh_ids lo' hi' xs"
  by (auto simp: fresh_ids_def)

lemma fresh_ids_append:
  "fresh_ids lo mid xs \<Longrightarrow> fresh_ids mid hi ys \<Longrightarrow> fresh_ids lo hi (xs @ ys)"
  by (fastforce simp: fresh_ids_def)

lemma fresh_ids_snoc: "fresh_ids lo hi xs \<Longrightarrow> fresh_ids lo (Suc hi) (xs @ [hi])"
  by (auto simp: fresh_ids_def)

lemma fresh_ids_single [simp]: "fresh_ids lo hi [i] \<longleftrightarrow> lo \<le> i \<and> i < hi"
  by (auto simp: fresh_ids_def)

text \<open>The identities of two parts that are built one after the other.\<close>

lemma fresh_ids_chain:
  "fresh_ids a b xs \<Longrightarrow> fresh_ids b hi ys \<Longrightarrow> lo \<le> a \<Longrightarrow> fresh_ids lo hi (xs @ ys)"
  by (fastforce simp: fresh_ids_def)

lemma fresh_ids_chain_snoc: "fresh_ids a b xs \<Longrightarrow> lo \<le> a \<Longrightarrow> fresh_ids lo (Suc b) (xs @ [b])"
  by (auto simp: fresh_ids_def)

lemma fresh_ids_mset: "fresh_ids lo hi xs \<Longrightarrow> mset ys = mset xs \<Longrightarrow> fresh_ids lo hi ys"
  unfolding fresh_ids_def by (metis mset_eq_imp_distinct_iff mset_eq_setD)

lemma concat_map_Nil [simp]: "concat (map (\<lambda>_. []) xs) = []"
  by simp

lemma fresh_ids_Cons: "fresh_ids lo hi xs \<Longrightarrow> fresh_ids lo (Suc hi) (hi # xs)"
  by (auto simp: fresh_ids_def)

section \<open>Hexadecimal text\<close>

definition hex_digit :: "nat \<Rightarrow> char" where
  "hex_digit n = ''0123456789abcdef'' ! n"

text \<open>\<^verbatim>\<open>std::hex << std::setw(width) << std::setfill('0')\<close> for a value below \<open>16 ^ width\<close>.\<close>

primrec hex_text :: "nat \<Rightarrow> nat \<Rightarrow> string" where
  "hex_text 0 n = []"
| "hex_text (Suc width) n = hex_text width (n div 16) @ [hex_digit (n mod 16)]"

lemma hex_text_length [simp]: "length (hex_text width n) = width"
  by (induction width arbitrary: n) simp_all

lemma hex_digit_in: "n < 16 \<Longrightarrow> hex_digit n \<in> set ''0123456789abcdef''"
  unfolding hex_digit_def by (intro nth_mem) simp

lemma hex_digit_inj: "m < 16 \<Longrightarrow> n < 16 \<Longrightarrow> hex_digit m = hex_digit n \<Longrightarrow> m = n"
  unfolding hex_digit_def by (subst (asm) nth_eq_iff_index_eq) simp_all

lemma hex_text_set: "set (hex_text width n) \<subseteq> set ''0123456789abcdef''"
proof (induction width arbitrary: n)
  case (Suc width)
  with hex_digit_in [of "n mod 16"] show ?case by simp
qed simp

lemma hex_text_inj: "m < 16 ^ width \<Longrightarrow> n < 16 ^ width \<Longrightarrow> hex_text width m = hex_text width n \<Longrightarrow> m = n"
proof (induction width arbitrary: m n)
  case (Suc width)
  have "m div 16 = n div 16" using Suc by (intro Suc.IH) (auto simp: less_mult_imp_div_less mult.commute)
  moreover have "m mod 16 = n mod 16" using Suc.prems by (intro hex_digit_inj) auto
  ultimately show ?case by (metis div_mult_mod_eq)
qed simp

end
