(* ===== verification/Fine_Syntax.thy ===== *)
theory Fine_Syntax
  imports Fine_Prelude
begin

text \<open>
  The syntax tree of \<^verbatim>\<open>src/src/fine/parser.h\<close>: one record per struct, with the struct's
  fields in their order (a field name carries a prefix of its struct, since record fields
  are global names), one datatype per enumeration, and a one-constructor datatype with
  selectors for the two recursive structs \<^verbatim>\<open>Type\<close> and \<^verbatim>\<open>Expr\<close>.  \<^verbatim>\<open>std::size_t\<close> offsets
  and identities are natural numbers: they count bytes and nodes of a text that is in
  memory, so they never wrap.
\<close>

section \<open>Positions, spans and errors\<close>

record source_position =
  offset :: nat
  line :: nat
  column :: nat

record source_span =
  span_begin :: source_position
  span_end :: source_position

text \<open>The only exception the front end throws is \<^verbatim>\<open>ParseError\<close>.  \<open>OutOfFuel\<close> is not an
  exception of the code: it marks a model run whose fuel was too small, and the theorems
  on totality show that the fuel the entry points pass never runs out.\<close>

datatype parse_error = ParseError source_span string | OutOfFuel

definition default_position :: source_position where
  "default_position = \<lparr>offset = 0, line = 1, column = 1\<rparr>"

definition default_span :: source_span where
  "default_span = \<lparr>span_begin = default_position, span_end = default_position\<rparr>"

section \<open>Types and expressions\<close>

datatype type_kind = ty_named | ty_tuple | ty_table

datatype fine_type =
  Type (ty_kind: type_kind) (ty_span: source_span) (ty_name: string) (ty_arguments: "fine_type list")

datatype expr_kind =
    ek_name | ek_boolean | ek_integer | ek_tuple | ek_call | ek_binary | ek_conditional | ek_hole

datatype binary_op =
    op_equal | op_greater_equal | op_less_equal | op_logical_and | op_logical_or | op_add | op_subtract

datatype expr =
  Expr (ex_kind: expr_kind) (ex_span: source_span) (ex_name: string) (ex_boolean_value: bool)
    (ex_integer_text: string) (ex_binary_op: binary_op) (ex_elements: "expr list") (ex_node_id: nat)

text \<open>A default-initialised \<^verbatim>\<open>Expr\<close>.\<close>

definition default_expr :: expr where
  "default_expr = Expr ek_name default_span [] False [] op_equal [] 0"

section \<open>Declarations\<close>

record enum_field =
  ef_span :: source_span
  ef_name :: string
  ef_type :: fine_type

record enum_case =
  ec_span :: source_span
  ec_name :: string
  ec_fields :: "enum_field list"

record enum_decl =
  ed_span :: source_span
  ed_name :: string
  ed_cases :: "enum_case list"
  ed_node_id :: nat

record table_entry =
  te_span :: source_span
  te_key :: expr
  te_value :: expr

record table_literal =
  tl_span :: source_span
  tl_default_value :: expr
  tl_entries :: "table_entry list"

record let_decl =
  ld_span :: source_span
  ld_name :: string
  ld_type :: fine_type
  ld_value :: table_literal
  ld_node_id :: nat

record model_decl =
  md_span :: source_span
  md_name :: string
  md_type :: fine_type
  md_value :: "table_literal option"
  md_node_id :: nat

record named_argument =
  na_span :: source_span
  na_name :: string
  na_value :: expr

record solve_decl =
  sd_span :: source_span
  sd_name :: string
  sd_takes :: "named_argument list"
  sd_gives :: expr
  sd_node_id :: nat

record parameter =
  pa_span :: source_span
  pa_name :: string
  pa_type :: fine_type

record view_decl =
  vd_span :: source_span
  vd_name :: string
  vd_parameters :: "parameter list"
  vd_carrier :: fine_type
  vd_requirements :: "expr list"
  vd_witness :: "expr option"
  vd_node_id :: nat

record arbitrary_premise =
  ap_span :: source_span
  ap_binder :: string
  ap_view_name :: string
  ap_view_arguments :: "expr list"
  ap_premises :: "expr list"
  ap_node_id :: nat

record predicate_constructor =
  pc_span :: source_span
  pc_name :: string
  pc_parameters :: "parameter list"
  pc_premises :: "expr list"
  pc_arbitrary_premises :: "arbitrary_premise list"
  pc_result :: expr

record predicate_decl =
  pd_span :: source_span
  pd_name :: string
  pd_indices :: "parameter list"
  pd_constructors :: "predicate_constructor list"
  pd_node_id :: nat

record match_binding =
  mb_span :: source_span
  mb_name :: string

record match_arm =
  ma_span :: source_span
  ma_constructor :: string
  ma_bindings :: "match_binding list"
  ma_value :: expr

record function_decl =
  fd_span :: source_span
  fd_name :: string
  fd_parameters :: "parameter list"
  fd_result_type :: fine_type
  fd_scrutinee :: expr
  fd_arms :: "match_arm list"
  fd_node_id :: nat

record synth_decl =
  yd_span :: source_span
  yd_name :: string
  yd_parameters :: "parameter list"
  yd_result_type :: fine_type
  yd_scrutinee :: "expr option"
  yd_arms :: "match_arm list"
  yd_ensures :: "expr list"
  yd_node_id :: nat

record check_decl =
  cd_span :: source_span
  cd_reusable :: bool
  cd_name :: string
  cd_parameters :: "parameter list"
  cd_induction_parameter :: "string option"
  cd_induction_span :: "source_span option"
  cd_predicate_induction :: "expr option"
  cd_assumes :: "expr list"
  cd_ensures :: "expr list"
  cd_node_id :: nat

record counterexample_entry =
  ce_span :: source_span
  ce_name :: string
  ce_type :: fine_type
  ce_value :: expr

record counterexample_decl =
  xd_span :: source_span
  xd_name :: string
  xd_entries :: "counterexample_entry list"
  xd_node_id :: nat

datatype fine_declaration =
    EnumDecl enum_decl
  | LetDecl let_decl
  | ModelDecl model_decl
  | SolveDecl solve_decl
  | ViewDecl view_decl
  | PredicateDecl predicate_decl
  | FunctionDecl function_decl
  | SynthDecl synth_decl
  | CheckDecl check_decl
  | CounterexampleDecl counterexample_decl

record document =
  doc_span :: source_span
  doc_declarations :: "fine_declaration list"

end
