(* ===== verification/Fine_Lexer.thy ===== *)
theory Fine_Lexer
  imports Fine_Syntax
begin

text \<open>
  The lexer of \<^verbatim>\<open>src/src/fine/parser.cpp\<close>.  The C++ object keeps the whole source text and an
  offset into it; the model keeps the offset and the text from the offset on
  (\<open>lx_rest\<close>), and \<open>lexer_inv\<close> says that the two agree.
\<close>

section \<open>Tokens\<close>

datatype token_kind =
    tk_eof
  | tk_identifier
  | tk_integer
  | tk_enum_kw
  | tk_let_kw
  | tk_model_kw
  | tk_proof_kw
  | tk_predicate_kw
  | tk_solve_kw
  | tk_view_kw
  | tk_constructor_kw
  | tk_arbitrary_kw
  | tk_over_kw
  | tk_requires_kw
  | tk_witness_kw
  | tk_function_kw
  | tk_synth_kw
  | tk_check_kw
  | tk_counterexample_kw
  | tk_match_kw
  | tk_inducts_kw
  | tk_assumes_kw
  | tk_ensures_kw
  | tk_if_kw
  | tk_else_kw
  | tk_takes_kw
  | tk_gives_kw
  | tk_table_kw
  | tk_true_kw
  | tk_false_kw
  | tk_left_brace
  | tk_right_brace
  | tk_left_paren
  | tk_right_paren
  | tk_colon
  | tk_comma
  | tk_semicolon
  | tk_equal
  | tk_fat_arrow
  | tk_equal_equal
  | tk_greater_equal
  | tk_less_equal
  | tk_logical_and
  | tk_logical_or
  | tk_plus
  | tk_minus
  | tk_question

record token =
  tok_kind :: token_kind
  tok_span :: source_span
  tok_text :: string

definition joined :: "source_span \<Rightarrow> source_span \<Rightarrow> source_span" where
  "joined a b = \<lparr>span_begin = span_begin a, span_end = span_end b\<rparr>"

primrec spelling :: "token_kind \<Rightarrow> string" where
  "spelling tk_eof = ''end of file''"
| "spelling tk_identifier = ''an identifier''"
| "spelling tk_integer = ''an integer''"
| "spelling tk_enum_kw = ''`enum`''"
| "spelling tk_let_kw = ''`let`''"
| "spelling tk_model_kw = ''`model`''"
| "spelling tk_proof_kw = ''`proof`''"
| "spelling tk_predicate_kw = ''`predicate`''"
| "spelling tk_solve_kw = ''`solve`''"
| "spelling tk_view_kw = ''`view`''"
| "spelling tk_constructor_kw = ''`constructor`''"
| "spelling tk_arbitrary_kw = ''`arbitrary`''"
| "spelling tk_over_kw = ''`over`''"
| "spelling tk_requires_kw = ''`requires`''"
| "spelling tk_witness_kw = ''`witness`''"
| "spelling tk_function_kw = ''`function`''"
| "spelling tk_synth_kw = ''`synth`''"
| "spelling tk_check_kw = ''`check`''"
| "spelling tk_counterexample_kw = ''`counterexample`''"
| "spelling tk_match_kw = ''`match`''"
| "spelling tk_inducts_kw = ''`inducts`''"
| "spelling tk_assumes_kw = ''`assumes`''"
| "spelling tk_ensures_kw = ''`ensures`''"
| "spelling tk_if_kw = ''`if`''"
| "spelling tk_else_kw = ''`else`''"
| "spelling tk_takes_kw = ''`takes`''"
| "spelling tk_gives_kw = ''`gives`''"
| "spelling tk_table_kw = ''`table`''"
| "spelling tk_true_kw = ''`true`''"
| "spelling tk_false_kw = ''`false`''"
| "spelling tk_left_brace = ''`{`''"
| "spelling tk_right_brace = ''`}`''"
| "spelling tk_left_paren = ''`(`''"
| "spelling tk_right_paren = ''`)`''"
| "spelling tk_colon = ''`:`''"
| "spelling tk_comma = ''`,`''"
| "spelling tk_semicolon = ''`;`''"
| "spelling tk_equal = ''`=`''"
| "spelling tk_fat_arrow = ''`=>`''"
| "spelling tk_equal_equal = ''`==`''"
| "spelling tk_greater_equal = ''`>=`''"
| "spelling tk_less_equal = ''`<=`''"
| "spelling tk_logical_and = ''`&&`''"
| "spelling tk_logical_or = ''`||`''"
| "spelling tk_plus = ''`+`''"
| "spelling tk_minus = ''`-`''"
| "spelling tk_question = ''`?`''"

definition keyword :: "string \<Rightarrow> token_kind" where
  "keyword text =
     (if text = ''enum'' then tk_enum_kw
      else if text = ''let'' then tk_let_kw
      else if text = ''model'' then tk_model_kw
      else if text = ''proof'' then tk_proof_kw
      else if text = ''predicate'' then tk_predicate_kw
      else if text = ''solve'' then tk_solve_kw
      else if text = ''view'' then tk_view_kw
      else if text = ''constructor'' then tk_constructor_kw
      else if text = ''arbitrary'' then tk_arbitrary_kw
      else if text = ''over'' then tk_over_kw
      else if text = ''requires'' then tk_requires_kw
      else if text = ''witness'' then tk_witness_kw
      else if text = ''function'' then tk_function_kw
      else if text = ''synth'' then tk_synth_kw
      else if text = ''check'' then tk_check_kw
      else if text = ''counterexample'' then tk_counterexample_kw
      else if text = ''match'' then tk_match_kw
      else if text = ''inducts'' then tk_inducts_kw
      else if text = ''assumes'' then tk_assumes_kw
      else if text = ''ensures'' then tk_ensures_kw
      else if text = ''if'' then tk_if_kw
      else if text = ''else'' then tk_else_kw
      else if text = ''takes'' then tk_takes_kw
      else if text = ''gives'' then tk_gives_kw
      else if text = ''table'' then tk_table_kw
      else if text = ''true'' then tk_true_kw
      else if text = ''false'' then tk_false_kw
      else tk_identifier)"

section \<open>Scanning\<close>

record lexer =
  lx_rest :: string
  lx_offset :: nat
  lx_line :: nat
  lx_column :: nat

definition mk_lexer :: "string \<Rightarrow> lexer" where
  "mk_lexer source = \<lparr>lx_rest = source, lx_offset = 0, lx_line = 1, lx_column = 1\<rparr>"

definition at_end :: "lexer \<Rightarrow> bool" where
  "at_end lx \<longleftrightarrow> lx_rest lx = []"

definition peek :: "nat \<Rightarrow> lexer \<Rightarrow> char" where
  "peek ahead lx = (if ahead < length (lx_rest lx) then lx_rest lx ! ahead else CHR 0x00)"

definition position :: "lexer \<Rightarrow> source_position" where
  "position lx = \<lparr>offset = lx_offset lx, line = lx_line lx, column = lx_column lx\<rparr>"

text \<open>\<open>advance\<close> is only called when the text has a character left.\<close>

definition advance :: "lexer \<Rightarrow> lexer" where
  "advance lx =
     (case lx_rest lx of
        [] \<Rightarrow> lx
      | c # cs \<Rightarrow>
          (if c = CHR 0x0A
           then \<lparr>lx_rest = cs, lx_offset = Suc (lx_offset lx), lx_line = Suc (lx_line lx), lx_column = 1\<rparr>
           else \<lparr>lx_rest = cs, lx_offset = Suc (lx_offset lx), lx_line = lx_line lx, lx_column = Suc (lx_column lx)\<rparr>))"

text \<open>The loop \<^verbatim>\<open>while (!at_end() && p(peek())) advance();\<close> runs \<open>advance\<close> once for every
  character of the longest prefix of the remaining text that satisfies \<open>p\<close>.\<close>

definition advance_while :: "(char \<Rightarrow> bool) \<Rightarrow> lexer \<Rightarrow> lexer" where
  "advance_while p lx = (advance ^^ length (takeWhile p (lx_rest lx))) lx"

definition is_name_start :: "char \<Rightarrow> bool" where
  "is_name_start c \<longleftrightarrow>
     (CHR ''a'' \<le> c \<and> c \<le> CHR ''z'') \<or> (CHR ''A'' \<le> c \<and> c \<le> CHR ''Z'') \<or> c = CHR ''_''"

definition is_name_continue :: "char \<Rightarrow> bool" where
  "is_name_continue c \<longleftrightarrow> is_name_start c \<or> CHR ''0'' \<le> c \<and> c \<le> CHR ''9''"

definition is_space :: "char \<Rightarrow> bool" where
  "is_space c \<longleftrightarrow> c = CHR '' '' \<or> c = CHR 0x09 \<or> c = CHR 0x0D \<or> c = CHR 0x0A"

lemma rest_advance [simp]: "lx_rest (advance lx) = tl (lx_rest lx)"
  by (auto simp: advance_def split: list.split)

lemma rest_advance_funpow: "lx_rest ((advance ^^ n) lx) = drop n (lx_rest lx)"
  by (induction n arbitrary: lx) (auto simp: funpow_swap1 drop_Suc)

lemma rest_advance_while [simp]: "lx_rest (advance_while p lx) = dropWhile p (lx_rest lx)"
  by (simp add: advance_while_def rest_advance_funpow dropWhile_eq_drop)

function skip_space_and_comments :: "lexer \<Rightarrow> lexer" where
  "skip_space_and_comments lx =
     (let lx = advance_while is_space lx in
      if peek 0 lx \<noteq> CHR ''/'' \<or> peek 1 lx \<noteq> CHR ''/'' then lx
      else skip_space_and_comments (advance_while (\<lambda>c. c \<noteq> CHR 0x0A) lx))"
  by pat_completeness auto
termination
proof (relation "measure (\<lambda>lx. length (lx_rest lx))", goal_cases)
  case (2 lx lx')
  let ?r = "dropWhile is_space (lx_rest lx)"
  from 2 have r: "lx_rest lx' = ?r" and s: "peek 0 lx' = CHR ''/''" by auto
  then obtain cs where cs: "?r = CHR ''/'' # cs"
    by (cases ?r) (auto simp: peek_def)
  then have "length (dropWhile (\<lambda>c. c \<noteq> CHR 0x0A) ?r) \<le> length cs"
    by (simp add: length_dropWhile_le)
  also have "\<dots> < length ?r" by (simp add: cs)
  also have "\<dots> \<le> length (lx_rest lx)" by (simp add: length_dropWhile_le)
  finally show ?case by (simp add: r)
qed simp

declare skip_space_and_comments.simps [simp del]

definition unexpected_character :: "char \<Rightarrow> string" where
  "unexpected_character c = ''unexpected character `'' @ [c] @ ''`''"

text \<open>The two-character operators, by their first and second character.\<close>

definition two_char_kind :: "char \<Rightarrow> char \<Rightarrow> token_kind option" where
  "two_char_kind c d =
     (if c = CHR ''='' \<and> d = CHR ''='' \<or> c = CHR ''='' \<and> d = CHR ''>'' \<or>
         c = CHR ''>'' \<and> d = CHR ''='' \<or> c = CHR ''<'' \<and> d = CHR ''='' \<or>
         c = CHR ''&'' \<and> d = CHR ''&'' \<or> c = CHR ''|'' \<and> d = CHR ''|''
      then Some (if c = CHR ''='' then (if d = CHR ''>'' then tk_fat_arrow else tk_equal_equal)
                 else if c = CHR ''>'' then tk_greater_equal
                 else if c = CHR ''<'' then tk_less_equal
                 else if c = CHR ''&'' then tk_logical_and
                 else tk_logical_or)
      else None)"

definition one_char_kind :: "char \<Rightarrow> token_kind option" where
  "one_char_kind c =
     (if c = CHR ''{'' then Some tk_left_brace
      else if c = CHR ''}'' then Some tk_right_brace
      else if c = CHR ''('' then Some tk_left_paren
      else if c = CHR '')'' then Some tk_right_paren
      else if c = CHR '':'' then Some tk_colon
      else if c = CHR '','' then Some tk_comma
      else if c = CHR '';'' then Some tk_semicolon
      else if c = CHR ''='' then Some tk_equal
      else if c = CHR ''+'' then Some tk_plus
      else if c = CHR ''-'' then Some tk_minus
      else if c = CHR ''?'' then Some tk_question
      else None)"

definition next_token :: "lexer \<Rightarrow> parse_error + token \<times> lexer" where
  "next_token lx0 =
     (let lx = skip_space_and_comments lx0;
          start = position lx;
          token_to = (\<lambda>kind lx'. \<lparr>tok_kind = kind,
             tok_span = \<lparr>span_begin = start, span_end = position lx'\<rparr>,
             tok_text = take (lx_offset lx' - lx_offset lx) (lx_rest lx)\<rparr>)
      in if at_end lx
         then Inr (\<lparr>tok_kind = tk_eof, tok_span = \<lparr>span_begin = start, span_end = start\<rparr>, tok_text = []\<rparr>, lx)
         else let c = peek 0 lx in
           if is_name_start c
           then let lx' = advance_while is_name_continue (advance lx);
                    text = take (lx_offset lx' - lx_offset lx) (lx_rest lx)
                in Inr (token_to (keyword text) lx', lx')
           else if CHR ''0'' \<le> c \<and> c \<le> CHR ''9''
           then let lx' = advance_while (\<lambda>d. CHR ''0'' \<le> d \<and> d \<le> CHR ''9'') (advance lx)
                in Inr (token_to tk_integer lx', lx')
           else case two_char_kind c (peek 1 lx) of
                  Some kind \<Rightarrow> let lx' = advance (advance lx) in Inr (token_to kind lx', lx')
                | None \<Rightarrow>
                    let lx' = advance lx in
                    case one_char_kind c of
                      Some kind \<Rightarrow> Inr (token_to kind lx', lx')
                    | None \<Rightarrow> Inl (ParseError \<lparr>span_begin = start, span_end = position lx'\<rparr>
                                 (unexpected_character c)))"

end
