(* ===== verification/Fine_Parser.thy ===== *)
theory Fine_Parser
  imports Fine_Lexer
begin

text \<open>
  The recursive-descent parser of \<^verbatim>\<open>src/src/fine/parser.cpp\<close>.  A method of the C++ class is a
  function from the parser's state to either the \<^verbatim>\<open>ParseError\<close> it throws or its result and
  the next state; \<open>bindP\<close> is the sequencing of two calls.  Every method that calls itself
  through \<^verbatim>\<open>expr()\<close> or \<^verbatim>\<open>type()\<close>, and every loop, takes fuel.  The entry points pass more fuel
  than the text has characters, and theory \<open>Fine_Parser_Props\<close> shows that this is enough for
  every text.
\<close>

section \<open>Parser state\<close>

record parser_state =
  ps_lexer :: lexer
  ps_current :: token
  ps_next_node_id :: nat

type_synonym 'a parser = "parser_state \<Rightarrow> parse_error + 'a \<times> parser_state"

definition returnP :: "'a \<Rightarrow> 'a parser" where
  "returnP x s = Inr (x, s)"

definition bindP :: "'a parser \<Rightarrow> ('a \<Rightarrow> 'b parser) \<Rightarrow> 'b parser" where
  "bindP p f s = (case p s of Inl e \<Rightarrow> Inl e | Inr (x, s') \<Rightarrow> f x s')"

definition out_of_fuel :: "'a parser" where
  "out_of_fuel s = Inl OutOfFuel"

definition current_kind :: "token_kind parser" where
  "current_kind s = Inr (tok_kind (ps_current s), s)"

definition current_token :: "token parser" where
  "current_token s = Inr (ps_current s, s)"

definition throw_error :: "source_span \<Rightarrow> string \<Rightarrow> 'a parser" where
  "throw_error span message s = Inl (ParseError span message)"

text \<open>\<^verbatim>\<open>next_node_id_++\<close>\<close>

definition take_node_id :: "nat parser" where
  "take_node_id s = Inr (ps_next_node_id s, s\<lparr>ps_next_node_id := Suc (ps_next_node_id s)\<rparr>)"

definition identified :: "expr \<Rightarrow> expr parser" where
  "identified result s =
     (case result of Expr k sp nm b it bop es _ \<Rightarrow>
        Inr (Expr k sp nm b it bop es (ps_next_node_id s),
             s\<lparr>ps_next_node_id := Suc (ps_next_node_id s)\<rparr>))"

definition parser_advance :: "unit parser" where
  "parser_advance s =
     (case next_token (ps_lexer s) of
        Inl e \<Rightarrow> Inl e
      | Inr (token, lx) \<Rightarrow> Inr ((), s\<lparr>ps_current := token, ps_lexer := lx\<rparr>))"

definition parse_fail :: "string \<Rightarrow> 'a parser" where
  "parse_fail message s =
     Inl (ParseError (tok_span (ps_current s))
       (if tok_kind (ps_current s) = tk_eof then message @ ''; found end of file''
        else message @ ''; found `'' @ tok_text (ps_current s) @ ''`''))"

definition expected_message :: "token_kind \<Rightarrow> string \<Rightarrow> string" where
  "expected_message kind context_text =
     ''expected '' @ spelling kind @ (if context_text \<noteq> [] then '' '' @ context_text else [])"

definition take_token :: "token_kind \<Rightarrow> string \<Rightarrow> token parser" where
  "take_token kind context_text s =
     (if tok_kind (ps_current s) \<noteq> kind then parse_fail (expected_message kind context_text) s
      else bindP parser_advance (\<lambda>_. returnP (ps_current s)) s)"

definition accept :: "token_kind \<Rightarrow> bool parser" where
  "accept kind s =
     (if tok_kind (ps_current s) \<noteq> kind then Inr (False, s)
      else bindP parser_advance (\<lambda>_. returnP True) s)"

section \<open>The two loop shapes of the class\<close>

text \<open>\<^verbatim>\<open>while (current_.kind != close) items.push_back(body());\<close>\<close>

primrec loop_until :: "nat \<Rightarrow> token_kind \<Rightarrow> 'a parser \<Rightarrow> 'a list parser" where
  "loop_until 0 close body = out_of_fuel"
| "loop_until (Suc n) close body =
     bindP current_kind (\<lambda>k.
       if k = close then returnP []
       else bindP body (\<lambda>x. bindP (loop_until n close body) (\<lambda>xs. returnP (x # xs))))"

text \<open>The tail of a comma-separated loop body:
  \<^verbatim>\<open>if (!accept(TokenKind::comma) && current_.kind != close) fail(message);\<close>\<close>

definition comma_or :: "token_kind \<Rightarrow> string \<Rightarrow> 'a parser \<Rightarrow> 'a parser" where
  "comma_or close message item =
     bindP item (\<lambda>x.
     bindP (accept tk_comma) (\<lambda>found.
     bindP current_kind (\<lambda>k.
       if \<not> found \<and> k \<noteq> close then parse_fail message else returnP x)))"

text \<open>A loop body that ends in a mandatory token.\<close>

definition terminated :: "token_kind \<Rightarrow> string \<Rightarrow> 'a parser \<Rightarrow> 'a parser" where
  "terminated kind context_text item =
     bindP item (\<lambda>x. bindP (take_token kind context_text) (\<lambda>_. returnP x))"

section \<open>Types\<close>

text \<open>\<^verbatim>\<open>while (accept(comma)) { if (current_.kind == right_paren) break; push_back(item()); }\<close>\<close>

primrec more_elements :: "nat \<Rightarrow> 'a parser \<Rightarrow> 'a list parser" where
  "more_elements 0 item = out_of_fuel"
| "more_elements (Suc n) item =
     bindP (accept tk_comma) (\<lambda>found.
       if \<not> found then returnP []
       else bindP current_kind (\<lambda>k.
         if k = tk_right_paren then returnP []
         else bindP item (\<lambda>x. bindP (more_elements n item) (\<lambda>xs. returnP (x # xs)))))"

primrec parse_type :: "nat \<Rightarrow> fine_type parser" where
  "parse_type 0 = out_of_fuel"
| "parse_type (Suc n) =
     bindP current_kind (\<lambda>k.
       if k = tk_left_paren
       then bindP (take_token tk_left_paren []) (\<lambda>first.
            bindP (parse_type n) (\<lambda>a.
            bindP (take_token tk_comma ''between tuple type elements'') (\<lambda>_.
            bindP (parse_type n) (\<lambda>b.
            bindP (more_elements n (parse_type n)) (\<lambda>more.
            bindP (take_token tk_right_paren ''to close the tuple type'') (\<lambda>close.
            returnP (Type ty_tuple (joined (tok_span first) (tok_span close)) [] (a # b # more))))))))
       else
         bindP (take_token tk_identifier ''as a type'') (\<lambda>name.
         bindP current_kind (\<lambda>k'.
           if tok_text name \<noteq> ''Table'' \<or> k' \<noteq> tk_left_paren
           then returnP (Type ty_named (tok_span name) (tok_text name) [])
           else
             bindP (take_token tk_left_paren []) (\<lambda>_.
             bindP (parse_type n) (\<lambda>key.
             bindP (take_token tk_comma ''between the table key and value types'') (\<lambda>_.
             bindP (parse_type n) (\<lambda>val.
             bindP (take_token tk_right_paren ''to close the table type'') (\<lambda>close.
             returnP (Type ty_table (joined (tok_span name) (tok_span close)) [] [key, val])))))))))"

section \<open>Expressions\<close>

definition binary :: "binary_op \<Rightarrow> expr \<Rightarrow> expr \<Rightarrow> expr parser" where
  "binary bop left right =
     identified (Expr ek_binary (joined (ex_span left) (ex_span right)) [] False [] bop [left, right] 0)"

text \<open>The left-associative operator loops: \<open>ops\<close> lists the operators of one level in the
  order in which the loop tries them.\<close>

fun accept_op :: "(token_kind \<times> binary_op) list \<Rightarrow> binary_op option parser" where
  "accept_op [] = returnP None"
| "accept_op ((kind, bop) # ops) =
     bindP (accept kind) (\<lambda>found. if found then returnP (Some bop) else accept_op ops)"

primrec operator_loop :: "nat \<Rightarrow> (token_kind \<times> binary_op) list \<Rightarrow> expr parser \<Rightarrow> expr \<Rightarrow> expr parser" where
  "operator_loop 0 ops operand result = out_of_fuel"
| "operator_loop (Suc n) ops operand result =
     bindP (accept_op ops) (\<lambda>found.
       case found of
         None \<Rightarrow> returnP result
       | Some bop \<Rightarrow>
           bindP operand (\<lambda>right.
           bindP (binary bop result right) (\<lambda>result'.
           operator_loop n ops operand result')))"

definition operator_level :: "nat \<Rightarrow> (token_kind \<times> binary_op) list \<Rightarrow> expr parser \<Rightarrow> expr parser" where
  "operator_level n ops operand = bindP operand (operator_loop n ops operand)"

definition additive :: "nat \<Rightarrow> expr parser \<Rightarrow> expr parser" where
  "additive n primary = operator_level n [(tk_plus, op_add), (tk_minus, op_subtract)] primary"

definition relational :: "nat \<Rightarrow> expr parser \<Rightarrow> expr parser" where
  "relational n primary =
     operator_level n [(tk_greater_equal, op_greater_equal), (tk_less_equal, op_less_equal)] (additive n primary)"

definition equality :: "nat \<Rightarrow> expr parser \<Rightarrow> expr parser" where
  "equality n primary = operator_level n [(tk_equal_equal, op_equal)] (relational n primary)"

definition logical_and :: "nat \<Rightarrow> expr parser \<Rightarrow> expr parser" where
  "logical_and n primary = operator_level n [(tk_logical_and, op_logical_and)] (equality n primary)"

definition logical_or :: "nat \<Rightarrow> expr parser \<Rightarrow> expr parser" where
  "logical_or n primary = operator_level n [(tk_logical_or, op_logical_or)] (logical_and n primary)"

text \<open>\<open>primary n rec\<close> is the method \<^verbatim>\<open>primary()\<close> with \<open>rec\<close> for its calls of \<^verbatim>\<open>expr()\<close>.\<close>

definition primary :: "nat \<Rightarrow> expr parser \<Rightarrow> expr parser" where
  "primary n rec =
     bindP current_kind (\<lambda>k.
     if k = tk_question
     then bindP (take_token tk_question []) (\<lambda>first.
          bindP (take_token tk_identifier ''as the hole name'') (\<lambda>name.
          identified (Expr ek_hole (joined (tok_span first) (tok_span name)) (tok_text name) False [] op_equal [] 0)))
     else if k = tk_identifier
     then bindP (take_token tk_identifier []) (\<lambda>name.
          bindP (accept tk_left_paren) (\<lambda>call.
          if call
          then bindP (loop_until n tk_right_paren
                       (comma_or tk_right_paren ''expected `,` or `)` after a call argument'' rec)) (\<lambda>args.
               bindP (take_token tk_right_paren ''to close the constructor call'') (\<lambda>close.
               identified (Expr ek_call (joined (tok_span name) (tok_span close)) (tok_text name) False [] op_equal args 0)))
          else identified (Expr ek_name (tok_span name) (tok_text name) False [] op_equal [] 0)))
     else if k = tk_true_kw \<or> k = tk_false_kw
     then bindP current_token (\<lambda>value.
          bindP parser_advance (\<lambda>_.
          identified (Expr ek_boolean (tok_span value) [] (tok_kind value = tk_true_kw) [] op_equal [] 0)))
     else if k = tk_integer
     then bindP (take_token tk_integer []) (\<lambda>value.
          identified (Expr ek_integer (tok_span value) [] False (tok_text value) op_equal [] 0))
     else if k = tk_minus
     then bindP (take_token tk_minus []) (\<lambda>first.
          bindP (take_token tk_integer ''after unary `-`'') (\<lambda>value.
          identified (Expr ek_integer (joined (tok_span first) (tok_span value)) [] False
                        (''-'' @ tok_text value) op_equal [] 0)))
     else if k = tk_if_kw
     then bindP (take_token tk_if_kw []) (\<lambda>first.
          bindP rec (\<lambda>condition.
          bindP (take_token tk_left_brace ''before the true branch'') (\<lambda>_.
          bindP rec (\<lambda>yes.
          bindP (take_token tk_right_brace ''after the true branch'') (\<lambda>_.
          bindP (take_token tk_else_kw ''after the true branch'') (\<lambda>_.
          bindP (take_token tk_left_brace ''before the false branch'') (\<lambda>_.
          bindP rec (\<lambda>no.
          bindP (take_token tk_right_brace ''after the false branch'') (\<lambda>close.
          identified (Expr ek_conditional (joined (tok_span first) (tok_span close)) [] False [] op_equal
                        [condition, yes, no] 0))))))))))
     else if k = tk_left_paren
     then bindP (take_token tk_left_paren []) (\<lambda>first.
          bindP rec (\<lambda>first_element.
          bindP (accept tk_comma) (\<lambda>comma.
          if \<not> comma
          then bindP (take_token tk_right_paren ''to close the grouped expression'') (\<lambda>_. returnP first_element)
          else bindP rec (\<lambda>second.
               bindP (more_elements n rec) (\<lambda>more.
               bindP (take_token tk_right_paren ''to close the tuple'') (\<lambda>close.
               identified (Expr ek_tuple (joined (tok_span first) (tok_span close)) [] False [] op_equal
                             (first_element # second # more) 0)))))))
     else parse_fail ''expected a name, call, integer, Boolean, tuple, conditional, or hole expression'')"

primrec parse_expr :: "nat \<Rightarrow> expr parser" where
  "parse_expr 0 = out_of_fuel"
| "parse_expr (Suc n) = logical_or n (primary n (parse_expr n))"

text \<open>The same equations with the state as an argument: with these as code equations a method is
  only unfolded once it is run.\<close>

lemmas parser_code [code] =
  loop_until.simps [THEN fun_cong] comma_or_def [THEN fun_cong] terminated_def [THEN fun_cong]
  more_elements.simps [THEN fun_cong] parse_type.simps [THEN fun_cong] binary_def [THEN fun_cong]
  accept_op.simps [THEN fun_cong] operator_loop.simps [THEN fun_cong] operator_level_def [THEN fun_cong]
  additive_def [THEN fun_cong] relational_def [THEN fun_cong] equality_def [THEN fun_cong]
  logical_and_def [THEN fun_cong] logical_or_def [THEN fun_cong] primary_def [THEN fun_cong]
  parse_expr.simps [THEN fun_cong]

end
