(* ===== verification/Fine_Decl_Parser.thy ===== *)
theory Fine_Decl_Parser
  imports Fine_Parser
begin

text \<open>
  The declaration methods of the parser class of \<^verbatim>\<open>src/src/fine/parser.cpp\<close> and its two entry
  points \<^verbatim>\<open>parse\<close> and \<^verbatim>\<open>parse_expression\<close>.  Each definition takes the fuel that its loops and
  its calls of \<open>parse_type\<close> and \<open>parse_expr\<close> use.
\<close>

section \<open>Shared clauses\<close>

definition parameter_parser :: "nat \<Rightarrow> parameter parser" where
  "parameter_parser n =
     bindP (take_token tk_identifier ''as a parameter name'') (\<lambda>name.
     bindP (take_token tk_colon ''after the parameter name'') (\<lambda>_.
     bindP (parse_type n) (\<lambda>parameter_type.
     returnP \<lparr>pa_span = joined (tok_span name) (ty_span parameter_type),
              pa_name = tok_text name, pa_type = parameter_type\<rparr>)))"

definition parameters :: "nat \<Rightarrow> parameter list parser" where
  "parameters n =
     bindP (take_token tk_left_paren []) (\<lambda>_.
     bindP (loop_until n tk_right_paren
       (comma_or tk_right_paren ''expected `,` or `)` after a parameter'' (parameter_parser n))) (\<lambda>result.
     bindP (take_token tk_right_paren []) (\<lambda>_.
     returnP result)))"

definition condition_block :: "nat \<Rightarrow> token_kind \<Rightarrow> string \<Rightarrow> bool \<Rightarrow> expr list parser" where
  "condition_block n kw description allow_empty =
     bindP (take_token kw description) (\<lambda>_.
     bindP (take_token tk_left_brace ''after the clause name'') (\<lambda>_.
     bindP (loop_until n tk_right_brace (terminated tk_semicolon ''after a condition'' (parse_expr n))) (\<lambda>result.
     if \<not> allow_empty \<and> result = [] then parse_fail ''the clause needs at least one condition''
     else bindP (take_token tk_right_brace ''to close the clause'') (\<lambda>_.
          returnP result))))"

definition argument_parser :: "nat \<Rightarrow> named_argument parser" where
  "argument_parser n =
     bindP (take_token tk_identifier ''as a named argument'') (\<lambda>name.
     bindP (take_token tk_colon ''after the argument name'') (\<lambda>_.
     bindP (parse_expr n) (\<lambda>value.
     returnP \<lparr>na_span = joined (tok_span name) (ex_span value),
              na_name = tok_text name, na_value = value\<rparr>)))"

definition arguments :: "nat \<Rightarrow> named_argument list parser" where
  "arguments n =
     bindP (take_token tk_left_paren []) (\<lambda>_.
     bindP (loop_until n tk_right_paren
       (comma_or tk_right_paren ''expected `,` or `)` after a named argument'' (argument_parser n))) (\<lambda>result.
     bindP (take_token tk_right_paren []) (\<lambda>_.
     returnP result)))"

definition table_entry_parser :: "nat \<Rightarrow> table_entry parser" where
  "table_entry_parser n =
     bindP current_kind (\<lambda>k.
     if k = tk_eof then parse_fail ''expected `}` to close the table literal''
     else
       bindP (parse_expr n) (\<lambda>key.
       bindP (take_token tk_colon ''between a table key and value'') (\<lambda>_.
       bindP (parse_expr n) (\<lambda>value.
       returnP \<lparr>te_span = joined (ex_span key) (ex_span value), te_key = key, te_value = value\<rparr>))))"

definition table_literal_parser :: "nat \<Rightarrow> table_literal parser" where
  "table_literal_parser n =
     bindP (take_token tk_table_kw ''as the value of a table binding'') (\<lambda>first.
     bindP (take_token tk_left_paren ''after `table`'') (\<lambda>_.
     bindP (take_token tk_identifier ''for the table option `default`'') (\<lambda>default_name.
     if tok_text default_name \<noteq> ''default''
     then throw_error (tok_span default_name)
            (''expected the table option `default`; found `'' @ tok_text default_name @ ''`'')
     else
       bindP (take_token tk_colon ''after `default`'') (\<lambda>_.
       bindP (parse_expr n) (\<lambda>default_value.
       bindP (take_token tk_right_paren ''after the default value'') (\<lambda>_.
       bindP (take_token tk_left_brace ''to begin the table entries'') (\<lambda>_.
       bindP (loop_until n tk_right_brace
         (comma_or tk_right_brace ''expected `,` or `}` after a table entry'' (table_entry_parser n))) (\<lambda>entries.
       bindP (take_token tk_right_brace []) (\<lambda>close.
       returnP \<lparr>tl_span = joined (tok_span first) (tok_span close),
                tl_default_value = default_value, tl_entries = entries\<rparr>)))))))))"

section \<open>Enums, tables and models\<close>

definition enum_field_parser :: "nat \<Rightarrow> enum_field parser" where
  "enum_field_parser n =
     bindP (take_token tk_identifier ''as a constructor field name'') (\<lambda>field_name.
     bindP (take_token tk_colon ''after the constructor field name'') (\<lambda>_.
     bindP (parse_type n) (\<lambda>field_type.
     returnP \<lparr>ef_span = joined (tok_span field_name) (ty_span field_type),
              ef_name = tok_text field_name, ef_type = field_type\<rparr>)))"

definition enum_case_parser :: "nat \<Rightarrow> enum_case parser" where
  "enum_case_parser n =
     bindP (take_token tk_identifier ''as an enum case'') (\<lambda>item.
     bindP (accept tk_left_paren) (\<lambda>has_fields.
     if has_fields
     then bindP (loop_until n tk_right_paren
            (comma_or tk_right_paren ''expected `,` or `)` after a constructor field'' (enum_field_parser n))) (\<lambda>fields.
          bindP (take_token tk_right_paren ''to close the constructor fields'') (\<lambda>close.
          returnP \<lparr>ec_span = joined (tok_span item) (tok_span close), ec_name = tok_text item, ec_fields = fields\<rparr>))
     else returnP \<lparr>ec_span = tok_span item, ec_name = tok_text item, ec_fields = []\<rparr>))"

text \<open>\<^verbatim>\<open>for (;;) { case; if (!accept(comma)) break; if (current_.kind == right_brace) break; }\<close>\<close>

primrec enum_cases :: "nat \<Rightarrow> nat \<Rightarrow> enum_case list parser" where
  "enum_cases 0 m = out_of_fuel"
| "enum_cases (Suc n) m =
     bindP (enum_case_parser m) (\<lambda>item.
     bindP (accept tk_comma) (\<lambda>comma.
     if \<not> comma then returnP [item]
     else bindP current_kind (\<lambda>k.
       if k = tk_right_brace then returnP [item]
       else bindP (enum_cases n m) (\<lambda>items. returnP (item # items)))))"

definition enum_decl_parser :: "nat \<Rightarrow> enum_decl parser" where
  "enum_decl_parser n =
     bindP (take_token tk_enum_kw []) (\<lambda>first.
     bindP (take_token tk_identifier ''after `enum`'') (\<lambda>name.
     bindP (take_token tk_left_brace ''after the enum name'') (\<lambda>_.
     bindP current_kind (\<lambda>k.
     if k = tk_right_brace then parse_fail ''an enum needs at least one case''
     else
       bindP (enum_cases n n) (\<lambda>cases.
       bindP (take_token tk_right_brace ''to close the enum'') (\<lambda>close.
       returnP \<lparr>ed_span = joined (tok_span first) (tok_span close), ed_name = tok_text name,
                ed_cases = cases, ed_node_id = 0\<rparr>))))))"

definition let_decl_parser :: "nat \<Rightarrow> let_decl parser" where
  "let_decl_parser n =
     bindP (take_token tk_let_kw []) (\<lambda>first.
     bindP (take_token tk_identifier ''after `let`'') (\<lambda>name.
     bindP (take_token tk_colon ''after the binding name'') (\<lambda>_.
     bindP (parse_type n) (\<lambda>annotation.
     if ty_kind annotation \<noteq> ty_table
     then parse_fail ''a `let` in this source slice must have a `Table(key, value)` type''
     else
       bindP (take_token tk_equal ''after the binding type'') (\<lambda>_.
       bindP (table_literal_parser n) (\<lambda>value.
       bindP (take_token tk_semicolon ''after the table literal'') (\<lambda>close.
       returnP \<lparr>ld_span = joined (tok_span first) (tok_span close), ld_name = tok_text name,
                ld_type = annotation, ld_value = value, ld_node_id = 0\<rparr>)))))))"

definition model_decl_parser :: "nat \<Rightarrow> model_decl parser" where
  "model_decl_parser n =
     bindP (take_token tk_model_kw []) (\<lambda>first.
     bindP (take_token tk_identifier ''after `model`'') (\<lambda>name.
     bindP (take_token tk_colon ''after the model-hole name'') (\<lambda>_.
     bindP (parse_type n) (\<lambda>annotation.
     if ty_kind annotation \<noteq> ty_table
     then parse_fail ''a `model` declaration must have an array-shaped `Table(key, value)` type''
     else
       bindP (accept tk_equal) (\<lambda>has_value.
       bindP (if has_value then bindP (table_literal_parser n) (\<lambda>t. returnP (Some t)) else returnP None) (\<lambda>value.
       bindP (take_token tk_semicolon ''after the model declaration'') (\<lambda>close.
       returnP \<lparr>md_span = joined (tok_span first) (tok_span close), md_name = tok_text name,
                md_type = annotation, md_value = value, md_node_id = 0\<rparr>)))))))"

definition solve_decl_parser :: "nat \<Rightarrow> solve_decl parser" where
  "solve_decl_parser n =
     bindP (take_token tk_solve_kw []) (\<lambda>first.
     bindP (take_token tk_identifier ''after `solve`'') (\<lambda>name.
     bindP (take_token tk_left_brace ''after the solve name'') (\<lambda>_.
     bindP (take_token tk_takes_kw ''as the first solve clause'') (\<lambda>_.
     bindP (arguments n) (\<lambda>takes.
     bindP (take_token tk_semicolon ''after `takes(...)`'') (\<lambda>_.
     bindP (take_token tk_gives_kw ''after the `takes` clause'') (\<lambda>_.
     bindP (take_token tk_left_paren ''after `gives`'') (\<lambda>_.
     bindP (parse_expr n) (\<lambda>gives.
     bindP (take_token tk_right_paren ''after the result expression'') (\<lambda>_.
     bindP (take_token tk_semicolon ''after `gives(...)`'') (\<lambda>_.
     bindP (take_token tk_right_brace ''to close the solve declaration'') (\<lambda>close.
     returnP \<lparr>sd_span = joined (tok_span first) (tok_span close), sd_name = tok_text name,
              sd_takes = takes, sd_gives = gives, sd_node_id = 0\<rparr>))))))))))))"

section \<open>Views and predicates\<close>

definition view_decl_parser :: "nat \<Rightarrow> view_decl parser" where
  "view_decl_parser n =
     bindP (take_token tk_view_kw []) (\<lambda>first.
     bindP (take_token tk_identifier ''after `view`'') (\<lambda>name.
     bindP (parameters n) (\<lambda>params.
     bindP (take_token tk_over_kw ''after the view parameters'') (\<lambda>_.
     bindP (parse_type n) (\<lambda>carrier.
     bindP (take_token tk_left_brace ''after the view carrier'') (\<lambda>_.
     bindP (condition_block n tk_requires_kw ''as the view proposition'' False) (\<lambda>requirements.
     bindP (accept tk_witness_kw) (\<lambda>has_witness.
     bindP (if has_witness
            then bindP (parse_expr n) (\<lambda>e.
                 bindP (take_token tk_semicolon ''after the view witness'') (\<lambda>_. returnP (Some e)))
            else returnP None) (\<lambda>witness.
     bindP (take_token tk_right_brace ''to close the view declaration'') (\<lambda>close.
     returnP \<lparr>vd_span = joined (tok_span first) (tok_span close), vd_name = tok_text name,
              vd_parameters = params, vd_carrier = carrier, vd_requirements = requirements,
              vd_witness = witness, vd_node_id = 0\<rparr>))))))))))"

definition arbitrary_field_parser :: "nat \<Rightarrow> arbitrary_premise parser" where
  "arbitrary_field_parser n =
     bindP (take_token tk_arbitrary_kw []) (\<lambda>arbitrary.
     bindP (take_token tk_identifier ''as the arbitrary-fresh name'') (\<lambda>binder.
     bindP (take_token tk_colon ''after the arbitrary-fresh name'') (\<lambda>_.
     bindP (take_token tk_identifier ''as a constrained view'') (\<lambda>view.
     bindP (take_token tk_left_paren ''after the constrained-view name'') (\<lambda>_.
     bindP (loop_until n tk_right_paren
       (comma_or tk_right_paren ''expected `,` or `)` after a constrained-view argument'' (parse_expr n))) (\<lambda>args.
     bindP (take_token tk_right_paren ''to close the constrained-view arguments'') (\<lambda>_.
     bindP (take_token tk_left_brace ''before the arbitrary-fresh premises'') (\<lambda>_.
     bindP (loop_until n tk_right_brace
       (terminated tk_semicolon ''after an arbitrary-fresh premise'' (parse_expr n))) (\<lambda>scoped_premises.
     bindP (take_token tk_right_brace ''to close the arbitrary-fresh premise'') (\<lambda>close_arbitrary.
     if scoped_premises = [] then parse_fail ''an arbitrary-fresh field needs at least one recursive premise''
     else
       bindP take_node_id (\<lambda>node_id.
       returnP \<lparr>ap_span = joined (tok_span arbitrary) (tok_span close_arbitrary), ap_binder = tok_text binder,
                ap_view_name = tok_text view, ap_view_arguments = args,
                ap_premises = scoped_premises, ap_node_id = node_id\<rparr>)))))))))))"

text \<open>One round of the loop over a constructor's \<^verbatim>\<open>takes\<close> clause: an ordinary premise or an
  arbitrary-fresh field.\<close>

definition constructor_premise :: "nat \<Rightarrow> (expr + arbitrary_premise) parser" where
  "constructor_premise n =
     bindP current_kind (\<lambda>k.
     if k \<noteq> tk_arbitrary_kw
     then bindP (terminated tk_semicolon ''after a predicate-constructor premise'' (parse_expr n)) (\<lambda>e. returnP (Inl e))
     else bindP (arbitrary_field_parser n) (\<lambda>field. returnP (Inr field)))"

primrec premises_of :: "(expr + arbitrary_premise) list \<Rightarrow> expr list" where
  "premises_of [] = []"
| "premises_of (x # xs) = (case x of Inl e \<Rightarrow> e # premises_of xs | Inr _ \<Rightarrow> premises_of xs)"

primrec fields_of :: "(expr + arbitrary_premise) list \<Rightarrow> arbitrary_premise list" where
  "fields_of [] = []"
| "fields_of (x # xs) = (case x of Inl _ \<Rightarrow> fields_of xs | Inr field \<Rightarrow> field # fields_of xs)"

definition predicate_constructor_parser :: "nat \<Rightarrow> predicate_constructor parser" where
  "predicate_constructor_parser n =
     bindP (take_token tk_constructor_kw ''in a predicate'') (\<lambda>constructor.
     bindP (take_token tk_identifier ''after `constructor`'') (\<lambda>constructor_name.
     bindP (parameters n) (\<lambda>params.
     bindP (take_token tk_left_brace ''after the constructor parameters'') (\<lambda>_.
     bindP (take_token tk_takes_kw ''as the first constructor clause'') (\<lambda>_.
     bindP (take_token tk_left_brace ''after `takes`'') (\<lambda>_.
     bindP (loop_until n tk_right_brace (constructor_premise n)) (\<lambda>premises.
     bindP (take_token tk_right_brace ''to close `takes`'') (\<lambda>_.
     bindP (take_token tk_gives_kw ''after `takes`'') (\<lambda>_.
     bindP (parse_expr n) (\<lambda>result.
     bindP (take_token tk_semicolon ''after the constructor result'') (\<lambda>_.
     bindP (take_token tk_right_brace ''to close the constructor'') (\<lambda>close_constructor.
     returnP \<lparr>pc_span = joined (tok_span constructor) (tok_span close_constructor),
              pc_name = tok_text constructor_name, pc_parameters = params,
              pc_premises = premises_of premises, pc_arbitrary_premises = fields_of premises,
              pc_result = result\<rparr>))))))))))))"

definition predicate_decl_parser :: "nat \<Rightarrow> predicate_decl parser" where
  "predicate_decl_parser n =
     bindP (take_token tk_predicate_kw []) (\<lambda>first.
     bindP (take_token tk_identifier ''after `predicate`'') (\<lambda>name.
     bindP (parameters n) (\<lambda>indices.
     if indices = [] then parse_fail ''a predicate needs at least one index''
     else
       bindP (take_token tk_left_brace ''after the predicate indices'') (\<lambda>_.
       bindP (loop_until n tk_right_brace (predicate_constructor_parser n)) (\<lambda>constructors.
       if constructors = [] then parse_fail ''a predicate needs at least one constructor''
       else
         bindP (take_token tk_right_brace ''to close the predicate'') (\<lambda>close.
         returnP \<lparr>pd_span = joined (tok_span first) (tok_span close), pd_name = tok_text name,
                  pd_indices = indices, pd_constructors = constructors, pd_node_id = 0\<rparr>))))))"

section \<open>Functions and synthesis\<close>

definition match_binding_parser :: "match_binding parser" where
  "match_binding_parser =
     bindP (take_token tk_identifier ''as a pattern binding'') (\<lambda>binding.
     returnP \<lparr>mb_span = tok_span binding, mb_name = tok_text binding\<rparr>)"

text \<open>The arm loop's body, the same in \<^verbatim>\<open>function_decl\<close> and \<^verbatim>\<open>synth_decl\<close>.\<close>

definition match_arm_parser :: "nat \<Rightarrow> match_arm parser" where
  "match_arm_parser n =
     bindP (take_token tk_identifier ''as a match constructor'') (\<lambda>constructor.
     bindP (accept tk_left_paren) (\<lambda>has_bindings.
     bindP (if has_bindings
            then bindP (loop_until n tk_right_paren
                   (comma_or tk_right_paren ''expected `,` or `)` after a pattern binding'' match_binding_parser)) (\<lambda>bs.
                 bindP (take_token tk_right_paren ''to close the pattern'') (\<lambda>close.
                 returnP (bs, joined (tok_span constructor) (tok_span close))))
            else returnP ([], tok_span constructor)) (\<lambda>(bindings, pattern_span).
     bindP (take_token tk_fat_arrow ''after the match pattern'') (\<lambda>_.
     bindP (parse_expr n) (\<lambda>value.
     returnP \<lparr>ma_span = joined pattern_span (ex_span value), ma_constructor = tok_text constructor,
              ma_bindings = bindings, ma_value = value\<rparr>)))))"

definition match_arms :: "nat \<Rightarrow> match_arm list parser" where
  "match_arms n =
     loop_until n tk_right_brace
       (comma_or tk_right_brace ''expected `,` or `}` after a match arm'' (match_arm_parser n))"

definition function_decl_parser :: "nat \<Rightarrow> function_decl parser" where
  "function_decl_parser n =
     bindP (take_token tk_function_kw []) (\<lambda>first.
     bindP (take_token tk_identifier ''after `function`'') (\<lambda>name.
     bindP (parameters n) (\<lambda>inputs.
     bindP (take_token tk_colon ''before the function result type'') (\<lambda>_.
     bindP (parse_type n) (\<lambda>result_type.
     bindP (take_token tk_left_brace ''before the function body'') (\<lambda>_.
     bindP (take_token tk_match_kw ''as the function body'') (\<lambda>_.
     bindP (parse_expr n) (\<lambda>scrutinee.
     bindP (take_token tk_left_brace ''after the matched expression'') (\<lambda>_.
     bindP (match_arms n) (\<lambda>arms.
     if arms = [] then parse_fail ''a function match needs at least one arm''
     else
       bindP (take_token tk_right_brace ''to close the match'') (\<lambda>_.
       bindP (take_token tk_right_brace ''to close the function'') (\<lambda>close.
       returnP \<lparr>fd_span = joined (tok_span first) (tok_span close), fd_name = tok_text name,
                fd_parameters = inputs, fd_result_type = result_type, fd_scrutinee = scrutinee,
                fd_arms = arms, fd_node_id = 0\<rparr>))))))))))))"

definition synth_match_parser :: "nat \<Rightarrow> (expr option \<times> match_arm list) parser" where
  "synth_match_parser n =
     bindP current_kind (\<lambda>k.
     if k \<noteq> tk_match_kw then returnP (None, [])
     else
       bindP (take_token tk_match_kw []) (\<lambda>_.
       bindP (parse_expr n) (\<lambda>scrutinee.
       bindP (take_token tk_left_brace ''after the matched expression'') (\<lambda>_.
       bindP (match_arms n) (\<lambda>arms.
       if arms = [] then parse_fail ''a synthesis match needs at least one arm''
       else bindP (take_token tk_right_brace ''to close the synthesis match'') (\<lambda>_.
            returnP (Some scrutinee, arms)))))))"

definition synth_decl_parser :: "nat \<Rightarrow> synth_decl parser" where
  "synth_decl_parser n =
     bindP (take_token tk_synth_kw []) (\<lambda>first.
     bindP (take_token tk_identifier ''after `synth`'') (\<lambda>name.
     bindP (parameters n) (\<lambda>params.
     bindP (take_token tk_colon ''before the synthesized result type'') (\<lambda>_.
     bindP (parse_type n) (\<lambda>result_type.
     bindP (take_token tk_left_brace ''before the synthesis specification'') (\<lambda>_.
     bindP (synth_match_parser n) (\<lambda>(scrutinee, arms).
     bindP (take_token tk_ensures_kw ''as the synthesis specification'') (\<lambda>_.
     bindP (take_token tk_left_brace ''after `ensures`'') (\<lambda>_.
     bindP (loop_until n tk_right_brace
       (terminated tk_semicolon ''after an ensured condition'' (parse_expr n))) (\<lambda>ensures.
     if ensures = [] then parse_fail ''a synthesis declaration needs at least one condition''
     else
       bindP (take_token tk_right_brace ''to close `ensures`'') (\<lambda>_.
       bindP (take_token tk_right_brace ''to close the synthesis declaration'') (\<lambda>close.
       returnP \<lparr>yd_span = joined (tok_span first) (tok_span close), yd_name = tok_text name,
                yd_parameters = params, yd_result_type = result_type, yd_scrutinee = scrutinee,
                yd_arms = arms, yd_ensures = ensures, yd_node_id = 0\<rparr>))))))))))))"

section \<open>Checks, proofs and counterexamples\<close>

definition inducts_clause ::
  "nat \<Rightarrow> (string option \<times> source_span option \<times> expr option) parser" where
  "inducts_clause n =
     bindP current_kind (\<lambda>k.
     if k \<noteq> tk_inducts_kw then returnP (None, None, None)
     else
       bindP (take_token tk_inducts_kw []) (\<lambda>first_inducts.
       bindP (take_token tk_left_paren ''after `inducts`'') (\<lambda>_.
       bindP (parse_expr n) (\<lambda>target.
       bindP (take_token tk_right_paren ''after the induction parameter'') (\<lambda>close_inducts.
       bindP (take_token tk_semicolon ''after `inducts(...)`'') (\<lambda>_.
       let induction_span = joined (tok_span first_inducts) (tok_span close_inducts) in
       if ex_kind target = ek_name then returnP (Some (ex_name target), Some induction_span, None)
       else if ex_kind target = ek_call then returnP (None, Some induction_span, Some target)
       else throw_error induction_span ''`inducts` needs a parameter name or direct predicate call''))))))"

definition check_decl_after :: "nat \<Rightarrow> token \<Rightarrow> bool \<Rightarrow> string \<Rightarrow> check_decl parser" where
  "check_decl_after n first reusable kw =
     bindP (take_token tk_identifier (''after `'' @ kw @ ''`'')) (\<lambda>name.
     bindP (parameters n) (\<lambda>inputs.
     bindP (take_token tk_left_brace (''before the '' @ kw @ '' specification'')) (\<lambda>_.
     bindP (inducts_clause n) (\<lambda>(induction_parameter, induction_span, predicate_induction).
     bindP (condition_block n tk_assumes_kw ''as the first check clause'' True) (\<lambda>assumed.
     bindP (condition_block n tk_ensures_kw ''after `assumes`'' False) (\<lambda>ensures.
     bindP (take_token tk_right_brace ''to close the check declaration'') (\<lambda>close.
     returnP \<lparr>cd_span = joined (tok_span first) (tok_span close), cd_reusable = reusable,
              cd_name = tok_text name, cd_parameters = inputs,
              cd_induction_parameter = induction_parameter, cd_induction_span = induction_span,
              cd_predicate_induction = predicate_induction, cd_assumes = assumed,
              cd_ensures = ensures, cd_node_id = 0\<rparr>)))))))"

definition check_decl_parser :: "nat \<Rightarrow> bool \<Rightarrow> check_decl parser" where
  "check_decl_parser n reusable =
     bindP (take_token tk_check_kw []) (\<lambda>first. check_decl_after n first reusable ''check'')"

definition proof_decl_parser :: "nat \<Rightarrow> check_decl parser" where
  "proof_decl_parser n =
     bindP (take_token tk_proof_kw []) (\<lambda>first. check_decl_after n first True ''proof'')"

definition counterexample_entry_parser :: "nat \<Rightarrow> counterexample_entry parser" where
  "counterexample_entry_parser n =
     bindP (take_token tk_identifier ''as an assignment name'') (\<lambda>entry_name.
     bindP (take_token tk_colon ''after the assignment name'') (\<lambda>_.
     bindP (parse_type n) (\<lambda>entry_type.
     bindP (take_token tk_equal ''after the assignment type'') (\<lambda>_.
     bindP (parse_expr n) (\<lambda>entry_value.
     bindP (take_token tk_semicolon ''after the assignment'') (\<lambda>close.
     returnP \<lparr>ce_span = joined (tok_span entry_name) (tok_span close), ce_name = tok_text entry_name,
              ce_type = entry_type, ce_value = entry_value\<rparr>))))))"

definition counterexample_decl_parser :: "nat \<Rightarrow> counterexample_decl parser" where
  "counterexample_decl_parser n =
     bindP (take_token tk_counterexample_kw []) (\<lambda>first.
     bindP (take_token tk_identifier ''after `counterexample`'') (\<lambda>name.
     bindP (take_token tk_left_brace ''before the assignments'') (\<lambda>_.
     bindP (loop_until n tk_right_brace (counterexample_entry_parser n)) (\<lambda>entries.
     bindP (take_token tk_right_brace ''to close the counterexample'') (\<lambda>close.
     returnP \<lparr>xd_span = joined (tok_span first) (tok_span close), xd_name = tok_text name,
              xd_entries = entries, xd_node_id = 0\<rparr>)))))"

section \<open>Documents\<close>

definition mapP :: "('a \<Rightarrow> 'b) \<Rightarrow> 'a parser \<Rightarrow> 'b parser" where
  "mapP f p = bindP p (\<lambda>x. returnP (f x))"

primrec set_node_id :: "nat \<Rightarrow> fine_declaration \<Rightarrow> fine_declaration" where
  "set_node_id i (EnumDecl d) = EnumDecl (d\<lparr>ed_node_id := i\<rparr>)"
| "set_node_id i (LetDecl d) = LetDecl (d\<lparr>ld_node_id := i\<rparr>)"
| "set_node_id i (ModelDecl d) = ModelDecl (d\<lparr>md_node_id := i\<rparr>)"
| "set_node_id i (SolveDecl d) = SolveDecl (d\<lparr>sd_node_id := i\<rparr>)"
| "set_node_id i (ViewDecl d) = ViewDecl (d\<lparr>vd_node_id := i\<rparr>)"
| "set_node_id i (PredicateDecl d) = PredicateDecl (d\<lparr>pd_node_id := i\<rparr>)"
| "set_node_id i (FunctionDecl d) = FunctionDecl (d\<lparr>fd_node_id := i\<rparr>)"
| "set_node_id i (SynthDecl d) = SynthDecl (d\<lparr>yd_node_id := i\<rparr>)"
| "set_node_id i (CheckDecl d) = CheckDecl (d\<lparr>cd_node_id := i\<rparr>)"
| "set_node_id i (CounterexampleDecl d) = CounterexampleDecl (d\<lparr>xd_node_id := i\<rparr>)"

definition declaration_parser :: "nat \<Rightarrow> fine_declaration parser" where
  "declaration_parser n =
     bindP current_kind (\<lambda>k.
     bindP
       (if k = tk_enum_kw then mapP EnumDecl (enum_decl_parser n)
        else if k = tk_let_kw then mapP LetDecl (let_decl_parser n)
        else if k = tk_model_kw then mapP ModelDecl (model_decl_parser n)
        else if k = tk_proof_kw then mapP CheckDecl (proof_decl_parser n)
        else if k = tk_predicate_kw then mapP PredicateDecl (predicate_decl_parser n)
        else if k = tk_solve_kw then mapP SolveDecl (solve_decl_parser n)
        else if k = tk_view_kw then mapP ViewDecl (view_decl_parser n)
        else if k = tk_function_kw then mapP FunctionDecl (function_decl_parser n)
        else if k = tk_synth_kw then mapP SynthDecl (synth_decl_parser n)
        else if k = tk_check_kw then mapP CheckDecl (check_decl_parser n False)
        else if k = tk_counterexample_kw then mapP CounterexampleDecl (counterexample_decl_parser n)
        else parse_fail ''expected a Fine declaration'') (\<lambda>decl.
     bindP take_node_id (\<lambda>node_id. returnP (set_node_id node_id decl))))"

definition document_parser :: "nat \<Rightarrow> document parser" where
  "document_parser n =
     bindP current_token (\<lambda>first.
     bindP (loop_until n tk_eof (declaration_parser n)) (\<lambda>declarations.
     bindP current_token (\<lambda>final.
     returnP \<lparr>doc_span = \<lparr>span_begin = span_begin (tok_span first), span_end = span_end (tok_span final)\<rparr>,
              doc_declarations = declarations\<rparr>)))"

definition expression_document :: "nat \<Rightarrow> expr parser" where
  "expression_document n =
     bindP (parse_expr n) (\<lambda>result.
     bindP (take_token tk_eof ''after the expression'') (\<lambda>_. returnP result))"

definition default_token :: token where
  "default_token = \<lparr>tok_kind = tk_eof, tok_span = default_span, tok_text = []\<rparr>"

text \<open>The constructor of the class reads the first token; \<open>mk_parser\<close> is the state before it.\<close>

definition mk_parser :: "string \<Rightarrow> parser_state" where
  "mk_parser source = \<lparr>ps_lexer = mk_lexer source, ps_current = default_token, ps_next_node_id = 0\<rparr>"

definition parse_fuel :: "string \<Rightarrow> nat" where
  "parse_fuel source = length source + 2"

text \<open>\<^verbatim>\<open>ParseError::format\<close>: the first line of the message, the source line in which the span
  begins, and a caret under the column of the span's begin followed by one tilde for every further
  byte of the span.\<close>

definition line_at :: "nat \<Rightarrow> string \<Rightarrow> string" where
  "line_at i source =
     rev (takeWhile (\<lambda>c. c \<noteq> CHR 0x0A) (rev (take i source))) @
     takeWhile (\<lambda>c. c \<noteq> CHR 0x0A) (drop i source)"

definition format_parse_error :: "source_span \<Rightarrow> string \<Rightarrow> string \<Rightarrow> string \<Rightarrow> string" where
  "format_parse_error span message filename source =
     (let start = span_begin span;
          width = max 1 (offset (span_end span) - offset start)
      in filename @ '':'' @ nat_to_string (line start) @ '':'' @ nat_to_string (column start) @
         '': error: '' @ message @ [CHR 0x0A] @
         line_at (offset start) source @ [CHR 0x0A] @
         replicate (column start - 1) (CHR '' '') @ ''^'' @
         (if width > 1 then replicate (width - 1) (CHR ''~'') else []))"

definition parse :: "string \<Rightarrow> parse_error + document" where
  "parse source =
     (case bindP parser_advance (\<lambda>_. document_parser (parse_fuel source)) (mk_parser source) of
        Inl e \<Rightarrow> Inl e | Inr (result, _) \<Rightarrow> Inr result)"

definition parse_expression :: "string \<Rightarrow> parse_error + expr" where
  "parse_expression source =
     (case bindP parser_advance (\<lambda>_. expression_document (parse_fuel source)) (mk_parser source) of
        Inl e \<Rightarrow> Inl e | Inr (result, _) \<Rightarrow> Inr result)"

lemmas decl_parser_code [code] =
  enum_cases.simps [THEN fun_cong] parameters_def [THEN fun_cong] condition_block_def [THEN fun_cong]
  arguments_def [THEN fun_cong] parameter_parser_def [THEN fun_cong]
  argument_parser_def [THEN fun_cong] table_entry_parser_def [THEN fun_cong]
  table_literal_parser_def [THEN fun_cong] enum_field_parser_def [THEN fun_cong]
  enum_case_parser_def [THEN fun_cong] enum_decl_parser_def [THEN fun_cong]
  let_decl_parser_def [THEN fun_cong] model_decl_parser_def [THEN fun_cong]
  solve_decl_parser_def [THEN fun_cong] view_decl_parser_def [THEN fun_cong]
  arbitrary_field_parser_def [THEN fun_cong] constructor_premise_def [THEN fun_cong]
  predicate_constructor_parser_def [THEN fun_cong] predicate_decl_parser_def [THEN fun_cong]
  match_binding_parser_def [THEN fun_cong] match_arm_parser_def [THEN fun_cong]
  match_arms_def [THEN fun_cong] function_decl_parser_def [THEN fun_cong]
  synth_match_parser_def [THEN fun_cong] synth_decl_parser_def [THEN fun_cong]
  inducts_clause_def [THEN fun_cong] check_decl_after_def [THEN fun_cong]
  check_decl_parser_def [THEN fun_cong] proof_decl_parser_def [THEN fun_cong]
  counterexample_entry_parser_def [THEN fun_cong] counterexample_decl_parser_def [THEN fun_cong]
  mapP_def [THEN fun_cong] declaration_parser_def [THEN fun_cong] document_parser_def [THEN fun_cong]
  expression_document_def [THEN fun_cong]

end
