(* ===== verification/Fine_Lexer_Props.thy ===== *)
theory Fine_Lexer_Props
  imports Fine_Lexer
begin

text \<open>
  What the lexer promises to the parser: it keeps its offset, line and column in step with the
  source text (\<open>lexer_inv\<close>), every token it returns is a non-empty piece of that text with
  exact positions (\<open>token_ok\<close>), an identifier or integer token holds a lexeme of its kind,
  and the position of an error lies in the text.
\<close>

section \<open>Positions of a text\<close>

definition newline :: char where
  "newline = CHR 0x0A"

text \<open>The line and column of a byte, by the text before it.\<close>

definition pos_ok :: "string \<Rightarrow> source_position \<Rightarrow> bool" where
  "pos_ok src p \<longleftrightarrow>
     offset p \<le> length src \<and>
     line p = Suc (count_list (take (offset p) src) newline) \<and>
     column p = Suc (length (takeWhile (\<lambda>c. c \<noteq> newline) (rev (take (offset p) src))))"

definition span_in :: "string \<Rightarrow> nat \<Rightarrow> nat \<Rightarrow> source_span \<Rightarrow> bool" where
  "span_in src lo hi sp \<longleftrightarrow>
     pos_ok src (span_begin sp) \<and> pos_ok src (span_end sp) \<and>
     lo \<le> offset (span_begin sp) \<and> offset (span_begin sp) \<le> offset (span_end sp) \<and> offset (span_end sp) \<le> hi"

definition span_ok :: "string \<Rightarrow> source_span \<Rightarrow> bool" where
  "span_ok src sp \<longleftrightarrow> span_in src 0 (length src) sp"

definition span_text :: "string \<Rightarrow> source_span \<Rightarrow> string" where
  "span_text src sp =
     take (offset (span_end sp) - offset (span_begin sp)) (drop (offset (span_begin sp)) src)"

definition error_ok :: "string \<Rightarrow> parse_error \<Rightarrow> bool" where
  "error_ok src e = (case e of ParseError sp _ \<Rightarrow> span_ok src sp | OutOfFuel \<Rightarrow> False)"

definition lexer_inv :: "string \<Rightarrow> lexer \<Rightarrow> bool" where
  "lexer_inv src lx \<longleftrightarrow> lx_rest lx = drop (lx_offset lx) src \<and> pos_ok src (position lx)"

section \<open>Lexemes\<close>

definition name_lexeme :: "string \<Rightarrow> bool" where
  "name_lexeme t \<longleftrightarrow> t \<noteq> [] \<and> is_name_start (hd t) \<and> list_all is_name_continue t"

definition identifier_lexeme :: "string \<Rightarrow> bool" where
  "identifier_lexeme t \<longleftrightarrow> name_lexeme t \<and> keyword t = tk_identifier"

definition integer_lexeme :: "string \<Rightarrow> bool" where
  "integer_lexeme t \<longleftrightarrow> t \<noteq> [] \<and> list_all is_digit t"

definition token_ok :: "string \<Rightarrow> token \<Rightarrow> bool" where
  "token_ok src tok \<longleftrightarrow>
     span_ok src (tok_span tok) \<and>
     tok_text tok = span_text src (tok_span tok) \<and>
     (if tok_kind tok = tk_eof then offset (span_begin (tok_span tok)) = length src
      else offset (span_begin (tok_span tok)) < offset (span_end (tok_span tok))) \<and>
     (tok_kind tok = tk_identifier \<longrightarrow> identifier_lexeme (tok_text tok)) \<and>
     (tok_kind tok = tk_integer \<longrightarrow> integer_lexeme (tok_text tok))"

section \<open>Scanning keeps the invariant\<close>

lemma position_simps [simp]:
  "offset (position lx) = lx_offset lx"
  "line (position lx) = lx_line lx"
  "column (position lx) = lx_column lx"
  by (simp_all add: position_def)

lemma lexer_inv_bound: "lexer_inv src lx \<Longrightarrow> lx_offset lx \<le> length src"
  by (simp add: lexer_inv_def pos_ok_def)

lemma lexer_inv_pos: "lexer_inv src lx \<Longrightarrow> pos_ok src (position lx)"
  by (simp add: lexer_inv_def)

lemma lexer_inv_mk_lexer: "lexer_inv src (mk_lexer src)"
  by (simp add: lexer_inv_def mk_lexer_def pos_ok_def)

lemma advance_Nil: "lx_rest lx = [] \<Longrightarrow> advance lx = lx"
  by (simp add: advance_def)

lemma offset_advance: "lx_rest lx \<noteq> [] \<Longrightarrow> lx_offset (advance lx) = Suc (lx_offset lx)"
  by (auto simp: advance_def split: list.split)

lemma advance_Cons:
  "lx_rest lx = c # cs \<Longrightarrow>
     advance lx = (if c = newline
       then \<lparr>lx_rest = cs, lx_offset = Suc (lx_offset lx), lx_line = Suc (lx_line lx), lx_column = 1\<rparr>
       else \<lparr>lx_rest = cs, lx_offset = Suc (lx_offset lx), lx_line = lx_line lx, lx_column = Suc (lx_column lx)\<rparr>)"
  by (simp add: advance_def newline_def)

lemma take_Suc_drop: "drop n xs = c # cs \<Longrightarrow> take (Suc n) xs = take n xs @ [c]"
  by (metis drop_eq_Nil list.distinct(1) linorder_not_le nth_via_drop take_Suc_conv_app_nth)

lemma lexer_inv_advance:
  assumes "lexer_inv src lx"
  shows "lexer_inv src (advance lx)"
proof (cases "lx_rest lx")
  case Nil
  then show ?thesis using assms by (simp add: advance_Nil)
next
  case (Cons c cs)
  with assms have d: "drop (lx_offset lx) src = c # cs" by (simp add: lexer_inv_def)
  then have "lx_offset lx < length src" "cs = drop (Suc (lx_offset lx)) src"
    by (metis drop_eq_Nil linorder_not_le list.distinct(1)) (metis d drop_Suc list.sel(3) tl_drop)
  with assms take_Suc_drop [OF d] show ?thesis
    unfolding advance_Cons [OF Cons] by (simp add: lexer_inv_def pos_ok_def)
qed

lemma lexer_inv_funpow: "lexer_inv src lx \<Longrightarrow> lexer_inv src ((advance ^^ n) lx)"
  by (induction n) (auto intro: lexer_inv_advance)

lemma offset_funpow: "n \<le> length (lx_rest lx) \<Longrightarrow> lx_offset ((advance ^^ n) lx) = lx_offset lx + n"
proof (induction n)
  case (Suc n)
  then have "lx_rest ((advance ^^ n) lx) \<noteq> []" by (simp add: rest_advance_funpow)
  with Suc show ?case by (simp add: offset_advance)
qed simp

lemma lexer_inv_advance_while: "lexer_inv src lx \<Longrightarrow> lexer_inv src (advance_while p lx)"
  by (simp add: advance_while_def lexer_inv_funpow)

lemma offset_advance_while:
  "lx_offset (advance_while p lx) = lx_offset lx + length (takeWhile p (lx_rest lx))"
  by (simp add: advance_while_def offset_funpow length_takeWhile_le)

lemma skip_space_inv:
  "lexer_inv src lx \<Longrightarrow>
     lexer_inv src (skip_space_and_comments lx) \<and> lx_offset lx \<le> lx_offset (skip_space_and_comments lx)"
proof (induction lx rule: skip_space_and_comments.induct)
  case (1 lx)
  let ?l = "advance_while is_space lx"
  have l: "lexer_inv src ?l" "lx_offset lx \<le> lx_offset ?l"
    using 1 by (auto simp: lexer_inv_advance_while offset_advance_while)
  show ?case
  proof (cases "peek 0 ?l \<noteq> CHR ''/'' \<or> peek 1 ?l \<noteq> CHR ''/''")
    case True
    with l show ?thesis by (subst (1 2) skip_space_and_comments.simps) (simp add: Let_def)
  next
    case False
    with 1(1) [of ?l] l show ?thesis
      by (subst (1 2) skip_space_and_comments.simps)
        (simp add: Let_def lexer_inv_advance_while offset_advance_while)
  qed
qed

section \<open>Tokens\<close>

lemma keyword_not_eof: "keyword t \<noteq> tk_eof" "keyword t \<noteq> tk_integer"
  by (simp_all add: keyword_def)

lemma operator_kinds:
  "two_char_kind c d = Some k \<Longrightarrow> k \<noteq> tk_eof \<and> k \<noteq> tk_identifier \<and> k \<noteq> tk_integer"
  "one_char_kind c = Some k \<Longrightarrow> k \<noteq> tk_eof \<and> k \<noteq> tk_identifier \<and> k \<noteq> tk_integer"
  by (auto simp: two_char_kind_def one_char_kind_def split: if_splits)

lemma two_char_second: "two_char_kind c d = Some k \<Longrightarrow> d \<noteq> CHR 0x00"
  by (auto simp: two_char_kind_def split: if_splits)

text \<open>The piece of text a run of \<open>advance_while\<close> after the first character covers.\<close>

lemma scanned_text:
  assumes "lx_rest lx = c # cs" and "lx' = advance_while p (advance lx)"
  shows "take (lx_offset lx' - lx_offset lx) (lx_rest lx) = c # takeWhile p cs"
    and "lx_offset lx < lx_offset lx'"
proof -
  have "lx_offset lx' = Suc (lx_offset lx + length (takeWhile p cs))"
    using assms by (simp add: offset_advance_while offset_advance)
  then show "take (lx_offset lx' - lx_offset lx) (lx_rest lx) = c # takeWhile p cs"
    and "lx_offset lx < lx_offset lx'"
    by (simp_all add: assms takeWhile_eq_take [symmetric])
qed

lemma name_start_continue: "is_name_start c \<Longrightarrow> is_name_continue c"
  by (simp add: is_name_continue_def)

lemma list_all_takeWhile: "list_all p (takeWhile p xs)"
  by (auto simp: list_all_iff dest: set_takeWhileD)

definition next_token_post :: "string \<Rightarrow> lexer \<Rightarrow> parse_error + token \<times> lexer \<Rightarrow> bool" where
  "next_token_post src lx r =
     (case r of
        Inl e \<Rightarrow> error_ok src e
      | Inr (tok, lx') \<Rightarrow>
          lexer_inv src lx' \<and> token_ok src tok \<and>
          lx_offset lx \<le> offset (span_begin (tok_span tok)) \<and>
          offset (span_end (tok_span tok)) = lx_offset lx')"

text \<open>The branches of \<open>next_token\<close>, with \<open>lx\<close> the state after the white space.\<close>

definition token_between :: "token_kind \<Rightarrow> lexer \<Rightarrow> lexer \<Rightarrow> token" where
  "token_between k lx lx' =
     \<lparr>tok_kind = k, tok_span = \<lparr>span_begin = position lx, span_end = position lx'\<rparr>,
      tok_text = take (lx_offset lx' - lx_offset lx) (lx_rest lx)\<rparr>"

lemmas next_token_branch = next_token_def Let_def peek_def at_end_def is_digit_def [symmetric] token_between_def

lemma next_token_eof:
  "skip_space_and_comments lx0 = lx \<Longrightarrow> lx_rest lx = [] \<Longrightarrow> next_token lx0 = Inr (token_between tk_eof lx lx, lx)"
  by (simp add: next_token_branch)

lemma next_token_name:
  "skip_space_and_comments lx0 = lx \<Longrightarrow> lx_rest lx = c # cs \<Longrightarrow> is_name_start c \<Longrightarrow>
   lx' = advance_while is_name_continue (advance lx) \<Longrightarrow>
     next_token lx0 = Inr (token_between (keyword (c # takeWhile is_name_continue cs)) lx lx', lx')"
  using scanned_text [of lx c cs lx' is_name_continue] by (simp add: next_token_branch)

lemma next_token_integer:
  "skip_space_and_comments lx0 = lx \<Longrightarrow> lx_rest lx = c # cs \<Longrightarrow> \<not> is_name_start c \<Longrightarrow> is_digit c \<Longrightarrow>
   lx' = advance_while is_digit (advance lx) \<Longrightarrow> next_token lx0 = Inr (token_between tk_integer lx lx', lx')"
  by (simp add: next_token_branch)

lemma next_token_two:
  "skip_space_and_comments lx0 = lx \<Longrightarrow> lx_rest lx = c # cs \<Longrightarrow> \<not> is_name_start c \<Longrightarrow> \<not> is_digit c \<Longrightarrow>
   two_char_kind c (peek 1 lx) = Some k \<Longrightarrow> lx' = advance (advance lx) \<Longrightarrow>
     next_token lx0 = Inr (token_between k lx lx', lx')"
  by (simp add: next_token_branch)

lemma next_token_one:
  "skip_space_and_comments lx0 = lx \<Longrightarrow> lx_rest lx = c # cs \<Longrightarrow> \<not> is_name_start c \<Longrightarrow> \<not> is_digit c \<Longrightarrow>
   two_char_kind c (peek 1 lx) = None \<Longrightarrow> lx' = advance lx \<Longrightarrow>
     next_token lx0 =
       (case one_char_kind c of
          Some k \<Rightarrow> Inr (token_between k lx lx', lx')
        | None \<Rightarrow> Inl (ParseError \<lparr>span_begin = position lx, span_end = position lx'\<rparr> (unexpected_character c)))"
  by (simp add: next_token_branch split: option.split)

lemma token_between_ok:
  assumes "lexer_inv src lx" "lexer_inv src lx'" "lx_offset lx < lx_offset lx'" "k \<noteq> tk_eof"
    and "k = tk_identifier \<Longrightarrow> identifier_lexeme (take (lx_offset lx' - lx_offset lx) (lx_rest lx))"
    and "k = tk_integer \<Longrightarrow> integer_lexeme (take (lx_offset lx' - lx_offset lx) (lx_rest lx))"
    and "lx_offset lx0 \<le> lx_offset lx"
  shows "next_token_post src lx0 (Inr (token_between k lx lx', lx'))"
  using assms lexer_inv_bound [OF assms(1)] lexer_inv_bound [OF assms(2)]
  by (simp add: next_token_post_def token_between_def token_ok_def span_ok_def span_in_def span_text_def lexer_inv_def)

lemma next_token_spec:
  assumes "lexer_inv src lx0"
  shows "next_token_post src lx0 (next_token lx0)"
proof -
  define lx where "lx = skip_space_and_comments lx0"
  have skip: "skip_space_and_comments lx0 = lx" by (simp add: lx_def)
  have lx: "lexer_inv src lx" and le: "lx_offset lx0 \<le> lx_offset lx"
    using skip_space_inv [OF assms] by (auto simp: lx_def)
  note ok = token_between_ok [OF lx _ _ _ _ _ le]
  show ?thesis
  proof (cases "lx_rest lx")
    case Nil
    then have "lx_offset lx = length src" using lx by (simp add: lexer_inv_def pos_ok_def)
    with lx le show ?thesis unfolding next_token_eof [OF skip Nil]
      by (simp add: next_token_post_def token_between_def token_ok_def span_ok_def span_in_def span_text_def
          lexer_inv_def)
  next
    case (Cons c cs)
    note inv1 = lexer_inv_advance [OF lx]
    have off1: "lx_offset (advance lx) = Suc (lx_offset lx)" using Cons by (simp add: offset_advance)
    consider (name) "is_name_start c" | (digits) "\<not> is_name_start c" "is_digit c"
      | (two) k where "\<not> is_name_start c" "\<not> is_digit c" "two_char_kind c (peek 1 lx) = Some k"
      | (one) "\<not> is_name_start c" "\<not> is_digit c" "two_char_kind c (peek 1 lx) = None"
      by (cases "two_char_kind c (peek 1 lx)") auto
    then show ?thesis
    proof cases
      case name
      note scan = scanned_text [OF Cons refl, of is_name_continue]
      have "name_lexeme (c # takeWhile is_name_continue cs)"
        using name by (simp add: name_lexeme_def name_start_continue list_all_takeWhile)
      then show ?thesis unfolding next_token_name [OF skip Cons name refl]
        by (intro ok lexer_inv_advance_while inv1) (simp_all add: scan keyword_not_eof identifier_lexeme_def)
    next
      case digits
      note scan = scanned_text [OF Cons refl, of is_digit]
      have "integer_lexeme (c # takeWhile is_digit cs)"
        using digits by (simp add: integer_lexeme_def list_all_takeWhile)
      then show ?thesis unfolding next_token_integer [OF skip Cons digits refl]
        by (intro ok lexer_inv_advance_while inv1) (simp_all add: scan)
    next
      case two
      then have "lx_rest (advance lx) \<noteq> []"
        using two_char_second [OF two(3)] Cons by (auto simp: peek_def split: if_splits)
      then have "lx_offset (advance (advance lx)) = Suc (Suc (lx_offset lx))"
        by (simp add: offset_advance off1)
      with operator_kinds(1) [OF two(3)] show ?thesis unfolding next_token_two [OF skip Cons two refl]
        by (intro ok lexer_inv_advance inv1) simp_all
    next
      case one
      show ?thesis
      proof (cases "one_char_kind c")
        case None
        have "span_ok src \<lparr>span_begin = position lx, span_end = position (advance lx)\<rparr>"
          using lexer_inv_bound [OF inv1] lexer_inv_pos [OF inv1] lexer_inv_pos [OF lx]
          by (simp add: span_ok_def span_in_def off1)
        then show ?thesis
          by (simp add: next_token_one [OF skip Cons one refl] None next_token_post_def error_ok_def)
      next
        case (Some k)
        have "next_token_post src lx0 (Inr (token_between k lx (advance lx), advance lx))"
          using operator_kinds(2) [OF Some] by (intro ok inv1) (simp_all add: off1)
        then show ?thesis by (simp add: next_token_one [OF skip Cons one refl] Some)
      qed
    qed
  qed
qed

end
