(* ===== verification/Fine_Parser_Props.thy ===== *)
theory Fine_Parser_Props
  imports Fine_Parser Fine_Lexer_Props
begin

text \<open>
  What the expression and type parsers promise.  \<open>vc src p Q s\<close> says that \<open>p\<close>, run in a state that
  satisfies the parser's invariant for the text \<open>src\<close>, either throws an error whose span lies in
  the text (in particular it does not run out of fuel) or returns a value and a state that satisfy
  \<open>Q\<close>.  The locale \<open>item_parser\<close> is the contract of a method that parses one item: it consumes
  at least one token, gives the nodes it builds identities that were not in use, and returns a
  well-formed item whose span lies between the tokens it started and stopped at.  The loops of the
  class are verified once against that contract.
\<close>

section \<open>Well-formed syntax\<close>

primrec expr_ids :: "expr \<Rightarrow> nat list" where
  "expr_ids (Expr k sp nm b it bop es i) = concat (map expr_ids es) @ [i]"

definition within :: "source_span \<Rightarrow> source_span \<Rightarrow> bool" where
  "within outer inner \<longleftrightarrow>
     offset (span_begin outer) \<le> offset (span_begin inner) \<and> offset (span_end inner) \<le> offset (span_end outer)"

definition number_lexeme :: "string \<Rightarrow> bool" where
  "number_lexeme t \<longleftrightarrow> integer_lexeme t \<or> t \<noteq> [] \<and> hd t = CHR ''-'' \<and> integer_lexeme (tl t)"

text \<open>The fields each kind of expression uses; every other field has its default value.\<close>

definition expr_shape :: "expr_kind \<Rightarrow> string \<Rightarrow> bool \<Rightarrow> string \<Rightarrow> binary_op \<Rightarrow> 'a list \<Rightarrow> bool" where
  "expr_shape k nm b it bop es \<longleftrightarrow>
     (if k = ek_name \<or> k = ek_call \<or> k = ek_hole then identifier_lexeme nm else nm = []) \<and>
     (if k = ek_integer then number_lexeme it else it = []) \<and>
     (k \<noteq> ek_boolean \<longrightarrow> \<not> b) \<and>
     (k \<noteq> ek_binary \<longrightarrow> bop = op_equal) \<and>
     (case k of
        ek_tuple \<Rightarrow> 2 \<le> length es
      | ek_call \<Rightarrow> True
      | ek_binary \<Rightarrow> length es = 2
      | ek_conditional \<Rightarrow> length es = 3
      | _ \<Rightarrow> es = [])"

fun wf_expr :: "string \<Rightarrow> expr \<Rightarrow> bool" where
  "wf_expr src (Expr k sp nm b it bop es i) \<longleftrightarrow>
     span_ok src sp \<and> expr_shape k nm b it bop es \<and>
     (\<forall>e\<in>set es. wf_expr src e \<and> within sp (ex_span e))"

fun wf_type :: "string \<Rightarrow> fine_type \<Rightarrow> bool" where
  "wf_type src (Type k sp nm args) \<longleftrightarrow>
     span_ok src sp \<and>
     (case k of
        ty_named \<Rightarrow> identifier_lexeme nm \<and> args = []
      | ty_tuple \<Rightarrow> nm = [] \<and> 2 \<le> length args
      | ty_table \<Rightarrow> nm = [] \<and> length args = 2) \<and>
     (\<forall>a\<in>set args. wf_type src a \<and> within sp (ty_span a))"

section \<open>Verification conditions\<close>

definition cur :: "parser_state \<Rightarrow> nat" where
  "cur s = offset (span_begin (tok_span (ps_current s)))"

definition pinv :: "string \<Rightarrow> parser_state \<Rightarrow> bool" where
  "pinv src s \<longleftrightarrow>
     lexer_inv src (ps_lexer s) \<and> token_ok src (ps_current s) \<and>
     offset (span_end (tok_span (ps_current s))) = lx_offset (ps_lexer s)"

definition vc :: "string \<Rightarrow> 'a parser \<Rightarrow> ('a \<Rightarrow> parser_state \<Rightarrow> bool) \<Rightarrow> parser_state \<Rightarrow> bool" where
  "vc src p Q s \<longleftrightarrow>
     (pinv src s \<longrightarrow> (case p s of Inl e \<Rightarrow> error_ok src e | Inr (x, s') \<Rightarrow> pinv src s' \<and> Q x s'))"

definition token_post :: "string \<Rightarrow> token_kind \<Rightarrow> parser_state \<Rightarrow> token \<Rightarrow> parser_state \<Rightarrow> bool" where
  "token_post src k s tok s' \<longleftrightarrow>
     (k = tk_identifier \<longrightarrow> identifier_lexeme (tok_text tok)) \<and>
     (k = tk_integer \<longrightarrow> integer_lexeme (tok_text tok)) \<and>
     span_ok src (tok_span tok) \<and> span_in src (cur s) (cur s') (tok_span tok) \<and>
     (k \<noteq> tk_eof \<longrightarrow> cur s < cur s') \<and> ps_next_node_id s' = ps_next_node_id s"

definition item_post ::
  "string \<Rightarrow> ('a \<Rightarrow> source_span) \<Rightarrow> ('a \<Rightarrow> nat list) \<Rightarrow> ('a \<Rightarrow> bool) \<Rightarrow>
   parser_state \<Rightarrow> 'a \<Rightarrow> parser_state \<Rightarrow> bool" where
  "item_post src sp ids good s x s' \<longleftrightarrow>
     cur s < cur s' \<and> span_in src (cur s) (cur s') (sp x) \<and>
     fresh_ids (ps_next_node_id s) (ps_next_node_id s') (ids x) \<and> good x"

definition items_post ::
  "string \<Rightarrow> ('a \<Rightarrow> source_span) \<Rightarrow> ('a \<Rightarrow> nat list) \<Rightarrow> ('a \<Rightarrow> bool) \<Rightarrow>
   parser_state \<Rightarrow> 'a list \<Rightarrow> parser_state \<Rightarrow> bool" where
  "items_post src sp ids good s xs s' \<longleftrightarrow>
     cur s \<le> cur s' \<and> (\<forall>x\<in>set xs. span_in src (cur s) (cur s') (sp x) \<and> good x) \<and>
     fresh_ids (ps_next_node_id s) (ps_next_node_id s') (concat (map ids xs))"

lemma pinv_cur: "pinv src s \<Longrightarrow> cur s \<le> length src"
  by (auto simp: pinv_def token_ok_def span_ok_def span_in_def cur_def)

lemma span_in_mono: "span_in src lo hi sp \<Longrightarrow> lo' \<le> lo \<Longrightarrow> hi \<le> hi' \<Longrightarrow> span_in src lo' hi' sp"
  by (auto simp: span_in_def)

lemma span_in_ok: "span_in src lo hi sp \<Longrightarrow> span_ok src sp"
  by (auto simp: span_in_def span_ok_def pos_ok_def)

lemma span_ok_iff:
  "span_ok src sp \<longleftrightarrow>
     pos_ok src (span_begin sp) \<and> pos_ok src (span_end sp) \<and> offset (span_begin sp) \<le> offset (span_end sp)"
  by (auto simp: span_ok_def span_in_def pos_ok_def)

text \<open>What the closing goals of a verification condition are about: the order of the offsets of
  tokens and items.\<close>

lemmas posts = item_post_def items_post_def token_post_def

lemma joined_joined [simp]: "joined (joined a b) c = joined a c"
  by (simp add: joined_def)

lemma span_in_joined:
  "span_in src l1 h1 a \<Longrightarrow> span_in src l2 h2 b \<Longrightarrow> lo \<le> l1 \<Longrightarrow> h1 \<le> l2 \<Longrightarrow> h2 \<le> hi \<Longrightarrow>
   span_in src lo hi (joined a b)"
  by (auto simp: span_in_def joined_def)

lemma span_ok_joined:
  "span_in src l1 h1 a \<Longrightarrow> span_in src l2 h2 b \<Longrightarrow> h1 \<le> l2 \<Longrightarrow> span_ok src (joined a b)"
  by (auto simp: span_in_def joined_def span_ok_iff)

lemma within_joined:
  "span_in src l1 h1 a \<Longrightarrow> span_in src l2 h2 b \<Longrightarrow> span_in src l3 h3 c \<Longrightarrow> h1 \<le> l3 \<Longrightarrow> h3 \<le> l2 \<Longrightarrow>
   within (joined a b) c"
  by (auto simp: span_in_def joined_def within_def)

lemma within_joined_ends:
  "span_in src l1 h1 a \<Longrightarrow> span_in src l2 h2 b \<Longrightarrow> h1 \<le> l2 \<Longrightarrow> within (joined a b) a"
  "span_in src l1 h1 a \<Longrightarrow> span_in src l2 h2 b \<Longrightarrow> h1 \<le> l2 \<Longrightarrow> within (joined a b) b"
  by (auto simp: span_in_def joined_def within_def)

lemmas span_intros = span_in_joined span_ok_joined within_joined within_joined_ends
lemmas fresh_intros = fresh_ids_chain fresh_ids_chain_snoc

lemma vc_mono: "vc src p Q s \<Longrightarrow> (\<And>x s'. pinv src s' \<Longrightarrow> Q x s' \<Longrightarrow> R x s') \<Longrightarrow> vc src p R s"
  by (auto simp: vc_def split: sum.splits prod.splits)

lemma vc_bind [wp_rule]: "vc src p (\<lambda>x. vc src (f x) Q) s \<Longrightarrow> vc src (bindP p f) Q s"
  by (auto simp: vc_def bindP_def split: sum.splits prod.splits)

lemma vc_return [wp_rule]: "Q x s \<Longrightarrow> vc src (returnP x) Q s"
  by (simp add: vc_def returnP_def)

lemma vc_if [wp_rule]:
  "(b \<Longrightarrow> vc src p Q s) \<Longrightarrow> (\<not> b \<Longrightarrow> vc src q Q s) \<Longrightarrow> vc src (if b then p else q) Q s"
  by simp

lemma vc_Let [wp_rule]: "vc src (f x) Q s \<Longrightarrow> vc src (Let x f) Q s"
  by simp

lemma vc_prod [wp_rule]: "(\<And>a b. x = (a, b) \<Longrightarrow> vc src (f a b) Q s) \<Longrightarrow> vc src (case x of (a, b) \<Rightarrow> f a b) Q s"
  by (cases x) simp

lemma vc_out_of_fuel: "length src < cur s \<Longrightarrow> vc src out_of_fuel Q s"
  using pinv_cur by (fastforce simp: vc_def)

lemma vc_current_kind [wp_rule]: "Q (tok_kind (ps_current s)) s \<Longrightarrow> vc src current_kind Q s"
  by (simp add: vc_def current_kind_def)

lemma vc_current_token [wp_rule]:
  "(token_ok src (ps_current s) \<Longrightarrow> Q (ps_current s) s) \<Longrightarrow> vc src current_token Q s"
  by (simp add: vc_def current_token_def pinv_def)

lemma vc_fail [wp_rule]: "vc src (parse_fail m) Q s"
  by (simp add: vc_def parse_fail_def error_ok_def pinv_def token_ok_def)

lemma vc_throw [wp_rule]: "span_ok src sp \<Longrightarrow> vc src (throw_error sp m) Q s"
  by (simp add: vc_def throw_error_def error_ok_def)

lemma vc_take_node_id [wp_rule]:
  "(\<And>s'. cur s' = cur s \<Longrightarrow> ps_next_node_id s' = Suc (ps_next_node_id s) \<Longrightarrow> Q (ps_next_node_id s) s') \<Longrightarrow>
   vc src take_node_id Q s"
  by (simp add: vc_def take_node_id_def pinv_def cur_def)

lemma vc_identified [wp_rule]:
  "(\<And>s'. cur s' = cur s \<Longrightarrow> ps_next_node_id s' = Suc (ps_next_node_id s) \<Longrightarrow>
      Q (Expr k sp nm b it bop es (ps_next_node_id s)) s') \<Longrightarrow>
   vc src (identified (Expr k sp nm b it bop es i)) Q s"
  by (simp add: vc_def identified_def pinv_def cur_def)

text \<open>Reading the next token, from any state whose lexer satisfies its invariant.\<close>

lemma parser_advance_ok:
  assumes "lexer_inv src (ps_lexer s)"
  shows "case parser_advance s of
           Inl e \<Rightarrow> error_ok src e
         | Inr (_, s') \<Rightarrow> pinv src s' \<and> lx_offset (ps_lexer s) \<le> cur s' \<and> ps_next_node_id s' = ps_next_node_id s"
  using next_token_spec [OF assms]
  by (auto simp: parser_advance_def next_token_post_def pinv_def cur_def split: sum.splits prod.splits)

lemma vc_advance:
  "(\<And>s'. token_post src (tok_kind (ps_current s)) s (ps_current s) s' \<Longrightarrow> Q () s') \<Longrightarrow> vc src parser_advance Q s"
  unfolding vc_def
proof (intro impI)
  assume Q: "\<And>s'. token_post src (tok_kind (ps_current s)) s (ps_current s) s' \<Longrightarrow> Q () s'" and s: "pinv src s"
  have "token_post src (tok_kind (ps_current s)) s (ps_current s) s'"
    if "lx_offset (ps_lexer s) \<le> cur s'" "ps_next_node_id s' = ps_next_node_id s" for s'
    using s that by (auto simp: token_post_def pinv_def token_ok_def span_ok_def span_in_def cur_def)
  with Q parser_advance_ok [of src s] s
  show "case parser_advance s of Inl e \<Rightarrow> error_ok src e | Inr (x, s') \<Rightarrow> pinv src s' \<and> Q x s'"
    by (auto simp: pinv_def split: sum.splits)
qed

lemma vc_take [wp_rule]:
  "(\<And>tok s'. token_post src k s tok s' \<Longrightarrow> Q tok s') \<Longrightarrow> vc src (take_token k c) Q s"
proof (cases "tok_kind (ps_current s) = k")
  case True
  assume Q: "\<And>tok s'. token_post src k s tok s' \<Longrightarrow> Q tok s'"
  have "vc src (bindP parser_advance (\<lambda>_. returnP (ps_current s))) Q s"
    by (intro vc_bind vc_advance vc_return Q) (simp add: True)
  with True show ?thesis by (simp add: vc_def take_token_def)
next
  case False
  have "vc src (parse_fail (expected_message k c)) Q s" by (rule vc_fail)
  with False show ?thesis by (simp add: vc_def take_token_def)
qed

lemma vc_accept:
  "k \<noteq> tk_eof \<Longrightarrow>
   (\<And>s'. cur s < cur s' \<Longrightarrow> ps_next_node_id s' = ps_next_node_id s \<Longrightarrow> Q True s') \<Longrightarrow>
   (tok_kind (ps_current s) \<noteq> k \<Longrightarrow> Q False s) \<Longrightarrow> vc src (accept k) Q s"
proof (cases "tok_kind (ps_current s) = k")
  case True
  assume k: "k \<noteq> tk_eof" and Q: "\<And>s'. cur s < cur s' \<Longrightarrow> ps_next_node_id s' = ps_next_node_id s \<Longrightarrow> Q True s'"
  have "vc src (bindP parser_advance (\<lambda>_. returnP True)) Q s"
    using k by (intro vc_bind vc_advance vc_return Q) (auto simp: True token_post_def)
  with True show ?thesis by (simp add: vc_def accept_def)
qed (simp add: vc_def accept_def)

lemmas vc_accept_sym [wp_rule] = vc_accept [of tk_comma, simplified] vc_accept [of tk_left_paren, simplified]
  vc_accept [of tk_equal, simplified] vc_accept [of tk_witness_kw, simplified]

section \<open>The contract of an item parser\<close>

locale item_parser =
  fixes src :: string and n :: nat and p :: "'a parser" and sp :: "'a \<Rightarrow> source_span"
    and ids :: "'a \<Rightarrow> nat list" and good :: "'a \<Rightarrow> bool"
  assumes item_spec: "length src < n + cur s \<Longrightarrow> vc src p (item_post src sp ids good s) s"
begin

lemma item:
  "length src < n + cur s \<Longrightarrow> (\<And>x s'. item_post src sp ids good s x s' \<Longrightarrow> Q x s') \<Longrightarrow> vc src p Q s"
  by (rule vc_mono [OF item_spec])

lemma items_Cons:
  "item_post src sp ids good s x s1 \<Longrightarrow> items_post src sp ids good s1 xs s' \<Longrightarrow>
   items_post src sp ids good s (x # xs) s'"
  by (auto simp: item_post_def items_post_def intro: fresh_ids_append span_in_mono)

lemma loop:
  assumes "length src < n + cur s" "length src < m + cur s"
    and "\<And>xs s'. items_post src sp ids good s xs s' \<Longrightarrow> Q xs s'"
  shows "vc src (loop_until m close p) Q s"
  using assms
proof (induction m arbitrary: s Q)
  case 0
  then show ?case by (simp add: vc_out_of_fuel)
next
  case (Suc m)
  show ?case unfolding loop_until.simps
  proof (intro wp_rule item Suc.prems(1))
    show "Q [] s" by (rule Suc.prems(3)) (simp add: items_post_def)
    fix x s1 assume x: "item_post src sp ids good s x s1"
    then have lt: "length src < n + cur s1" "length src < m + cur s1"
      using Suc.prems by (auto simp: item_post_def)
    show "vc src (loop_until m close p) (\<lambda>xs. vc src (returnP (x # xs)) Q) s1"
      by (intro Suc.IH [OF lt] wp_rule Suc.prems(3) items_Cons [OF x])
  qed
qed

lemma more:
  assumes "length src < n + cur s" "length src < m + cur s"
    and "\<And>xs s'. items_post src sp ids good s xs s' \<Longrightarrow> Q xs s'"
  shows "vc src (more_elements m p) Q s"
  using assms
proof (induction m arbitrary: s Q)
  case 0
  then show ?case by (simp add: vc_out_of_fuel)
next
  case (Suc m)
  show ?case unfolding more_elements.simps
  proof (intro wp_rule item, simp_all)
    show "Q [] s" by (rule Suc.prems(3)) (simp add: items_post_def)
    fix s0 assume s0: "cur s < cur s0" "ps_next_node_id s0 = ps_next_node_id s"
    then show "Q [] s0" by (intro Suc.prems(3)) (simp add: items_post_def)
    show "length src < n + cur s0" using s0 Suc.prems(1) by simp
    fix x s1 assume x: "item_post src sp ids good s0 x s1"
    then have lt: "length src < n + cur s1" "length src < m + cur s1"
      using Suc.prems s0 by (auto simp: item_post_def)
    have "item_post src sp ids good s x s1"
      using x s0 by (auto simp: item_post_def intro: span_in_mono)
    then show "vc src (more_elements m p) (\<lambda>xs. vc src (returnP (x # xs)) Q) s1"
      by (intro Suc.IH [OF lt] wp_rule Suc.prems(3) items_Cons)
  qed
qed

lemma comma: "item_parser src n (comma_or close msg p) sp ids good"
proof
  fix s assume "length src < n + cur s"
  then show "vc src (comma_or close msg p) (item_post src sp ids good s) s"
    unfolding comma_or_def
    by (intro wp_rule item) (auto simp: item_post_def intro: span_in_mono)
qed

lemma ended: "k \<noteq> tk_eof \<Longrightarrow> item_parser src n (terminated k c p) sp ids good"
proof
  fix s assume "length src < n + cur s" "k \<noteq> tk_eof"
  then show "vc src (terminated k c p) (item_post src sp ids good s) s"
    unfolding terminated_def
    by (intro wp_rule item) (auto simp: item_post_def token_post_def intro: span_in_mono)
qed

lemmas comma_loop = item_parser.loop [OF comma]
lemmas ended_loop = item_parser.loop [OF ended]

end

text \<open>A list of items between two tokens that are not part of it.\<close>

lemma items_post_widen:
  "items_post src sp ids good s1 xs s2 \<Longrightarrow> cur s \<le> cur s1 \<Longrightarrow> cur s2 \<le> cur s' \<Longrightarrow>
   ps_next_node_id s1 = ps_next_node_id s \<Longrightarrow> ps_next_node_id s' = ps_next_node_id s2 \<Longrightarrow>
   items_post src sp ids good s xs s'"
  by (auto simp: items_post_def intro: span_in_mono)

lemma items_post_cur: "items_post src sp ids good s xs s' \<Longrightarrow> cur s \<le> cur s'"
  by (simp add: items_post_def)

section \<open>Types\<close>

lemma parse_type_item: "item_parser src n (parse_type n) ty_span (\<lambda>_. []) (wf_type src)"
proof (induction n)
  case 0
  show ?case by unfold_locales (simp add: vc_out_of_fuel)
next
  case (Suc n)
  note rules = item_parser.item [OF Suc] item_parser.more [OF Suc]
  show ?case
  proof
    fix s assume s: "length src < Suc n + cur s"
    show "vc src (parse_type (Suc n)) (item_post src ty_span (\<lambda>_. []) (wf_type src) s) s"
      unfolding parse_type.simps
      by (intro wp_rule rules) (use s in \<open>auto simp: posts intro: span_intros\<close>)
  qed
qed

section \<open>Expressions\<close>

abbreviation expr_parser :: "string \<Rightarrow> nat \<Rightarrow> expr parser \<Rightarrow> bool" where
  "expr_parser src n p \<equiv> item_parser src n p ex_span expr_ids (wf_expr src)"

lemma primary_item:
  assumes "expr_parser src n rec"
  shows "expr_parser src (Suc n) (primary n rec)"
proof
  fix s assume s: "length src < Suc n + cur s"
  note rules = item_parser.item [OF assms] item_parser.more [OF assms] item_parser.comma_loop [OF assms]
  show "vc src (primary n rec) (item_post src ex_span expr_ids (wf_expr src) s) s"
    unfolding primary_def
    by (intro wp_rule vc_advance rules)
      (use s in \<open>auto simp: posts expr_shape_def number_lexeme_def intro: span_intros fresh_intros\<close>,
       simp add: span_in_def)
qed

lemma vc_accept_op:
  "tk_eof \<notin> fst ` set ops \<Longrightarrow>
   (\<And>bop s'. cur s < cur s' \<Longrightarrow> ps_next_node_id s' = ps_next_node_id s \<Longrightarrow> Q (Some bop) s') \<Longrightarrow>
   Q None s \<Longrightarrow> vc src (accept_op ops) Q s"
  by (induction ops rule: accept_op.induct) (auto intro!: wp_rule vc_accept)

text \<open>What the operator loops keep of the expression built so far: it started at \<open>lo\<close>, ended before
  the current token, and used identities from \<open>a\<close> on.\<close>

definition result_ok :: "string \<Rightarrow> nat \<Rightarrow> nat \<Rightarrow> expr \<Rightarrow> parser_state \<Rightarrow> bool" where
  "result_ok src lo a r s \<longleftrightarrow>
     lo < cur s \<and> span_in src lo (cur s) (ex_span r) \<and> wf_expr src r \<and> fresh_ids a (ps_next_node_id s) (expr_ids r)"

lemma binary_vc:
  assumes "result_ok src lo a r s" "cur s < cur s'" "ps_next_node_id s' = ps_next_node_id s"
    and "item_post src ex_span expr_ids (wf_expr src) s' x t"
    and Q: "\<And>y t'. cur t' = cur t \<Longrightarrow> result_ok src lo a y t' \<Longrightarrow> Q y t'"
  shows "vc src (binary bop r x) Q t"
  unfolding binary_def
  by (intro wp_rule Q)
    (use assms(1-4) in \<open>auto simp: result_ok_def posts expr_shape_def intro: span_intros fresh_intros\<close>)

lemma operator_loop_vc:
  assumes operand: "expr_parser src (Suc n) operand" and ops: "tk_eof \<notin> fst ` set ops"
  shows "length src < n + cur s \<Longrightarrow> length src < m + cur s \<Longrightarrow> result_ok src lo a r s \<Longrightarrow>
     vc src (operator_loop m ops operand r) (result_ok src lo a) s"
proof (induction m arbitrary: s r)
  case 0
  then show ?case by (simp add: vc_out_of_fuel)
next
  case (Suc m)
  show ?case unfolding operator_loop.simps
  proof (intro wp_rule vc_accept_op ops, goal_cases)
    case (1 bop s')
    have "length src < Suc n + cur s'" using 1 Suc.prems by simp
    moreover have "vc src (operator_loop m ops operand y) (result_ok src lo a) t'"
      if "item_post src ex_span expr_ids (wf_expr src) s' x t" "cur t' = cur t" "result_ok src lo a y t'" for x t y t'
      using that 1 Suc.prems by (intro Suc.IH) (auto simp: item_post_def)
    ultimately show ?case
      by (auto intro!: wp_rule item_parser.item [OF operand] binary_vc [OF Suc.prems(3) 1])
  next
    case 2
    show ?case using Suc.prems(3) by (auto intro: wp_rule)
  qed
qed

lemma operator_level_item:
  assumes operand: "expr_parser src (Suc n) operand" and ops: "tk_eof \<notin> fst ` set ops"
  shows "expr_parser src (Suc n) (operator_level n ops operand)"
proof
  fix s assume s: "length src < Suc n + cur s"
  have "vc src (operator_loop n ops operand x) (item_post src ex_span expr_ids (wf_expr src) s) s'"
    if x: "item_post src ex_span expr_ids (wf_expr src) s x s'" for x s'
  proof (rule vc_mono)
    show "vc src (operator_loop n ops operand x) (result_ok src (cur s) (ps_next_node_id s)) s'"
      using x s by (intro operator_loop_vc [OF assms]) (auto simp: item_post_def result_ok_def)
  qed (auto simp: item_post_def result_ok_def)
  then show "vc src (operator_level n ops operand) (item_post src ex_span expr_ids (wf_expr src) s) s"
    unfolding operator_level_def by (intro wp_rule item_parser.item [OF operand] s)
qed

lemma parse_expr_item: "expr_parser src n (parse_expr n)"
proof (induction n)
  case 0
  show ?case by unfold_locales (simp add: vc_out_of_fuel)
next
  case (Suc n)
  then show ?case
    unfolding parse_expr.simps logical_or_def logical_and_def equality_def relational_def additive_def
    by (intro operator_level_item primary_item) auto
qed

interpretation fine_type: item_parser src n "parse_type n" ty_span "\<lambda>_. []" "wf_type src" for src n
  by (rule parse_type_item)

interpretation fine_expr: item_parser src n "parse_expr n" ex_span expr_ids "wf_expr src" for src n
  by (rule parse_expr_item)

end
