(* ===== verification/Fine_Decl_Props.thy ===== *)
theory Fine_Decl_Props
  imports Fine_Decl_Parser Fine_Parser_Props
begin

text \<open>
  What a well-formed document is (the fields each declaration needs are there, names are
  identifiers, and the span of every part lies inside the span of the whole), which identities its
  nodes carry, and the contracts of the clauses that declarations are built from: parameters,
  arguments, tables, conditions, match arms and predicate constructors.
\<close>

section \<open>Well-formed declarations\<close>

definition part_ok :: "('a \<Rightarrow> source_span) \<Rightarrow> ('a \<Rightarrow> bool) \<Rightarrow> source_span \<Rightarrow> 'a list \<Rightarrow> bool" where
  "part_ok sp ok outer xs \<longleftrightarrow> (\<forall>x\<in>set xs. within outer (sp x) \<and> ok x)"

abbreviation exprs_ok :: "string \<Rightarrow> source_span \<Rightarrow> expr list \<Rightarrow> bool" where
  "exprs_ok src \<equiv> part_ok ex_span (wf_expr src)"

abbreviation types_ok :: "string \<Rightarrow> source_span \<Rightarrow> fine_type list \<Rightarrow> bool" where
  "types_ok src \<equiv> part_ok ty_span (wf_type src)"

definition parameter_ok :: "string \<Rightarrow> parameter \<Rightarrow> bool" where
  "parameter_ok src x \<longleftrightarrow>
     span_ok src (pa_span x) \<and> identifier_lexeme (pa_name x) \<and> types_ok src (pa_span x) [pa_type x]"

definition argument_ok :: "string \<Rightarrow> named_argument \<Rightarrow> bool" where
  "argument_ok src x \<longleftrightarrow>
     span_ok src (na_span x) \<and> identifier_lexeme (na_name x) \<and> exprs_ok src (na_span x) [na_value x]"

definition field_ok :: "string \<Rightarrow> enum_field \<Rightarrow> bool" where
  "field_ok src x \<longleftrightarrow>
     span_ok src (ef_span x) \<and> identifier_lexeme (ef_name x) \<and> types_ok src (ef_span x) [ef_type x]"

definition case_ok :: "string \<Rightarrow> enum_case \<Rightarrow> bool" where
  "case_ok src x \<longleftrightarrow>
     span_ok src (ec_span x) \<and> identifier_lexeme (ec_name x) \<and>
     part_ok ef_span (field_ok src) (ec_span x) (ec_fields x)"

definition entry_ok :: "string \<Rightarrow> table_entry \<Rightarrow> bool" where
  "entry_ok src x \<longleftrightarrow> span_ok src (te_span x) \<and> exprs_ok src (te_span x) [te_key x, te_value x]"

definition table_ok :: "string \<Rightarrow> table_literal \<Rightarrow> bool" where
  "table_ok src x \<longleftrightarrow>
     span_ok src (tl_span x) \<and> exprs_ok src (tl_span x) [tl_default_value x] \<and>
     part_ok te_span (entry_ok src) (tl_span x) (tl_entries x)"

definition arbitrary_ok :: "string \<Rightarrow> arbitrary_premise \<Rightarrow> bool" where
  "arbitrary_ok src x \<longleftrightarrow>
     span_ok src (ap_span x) \<and> identifier_lexeme (ap_binder x) \<and> identifier_lexeme (ap_view_name x) \<and>
     exprs_ok src (ap_span x) (ap_view_arguments x @ ap_premises x) \<and> ap_premises x \<noteq> []"

definition constructor_ok :: "string \<Rightarrow> predicate_constructor \<Rightarrow> bool" where
  "constructor_ok src x \<longleftrightarrow>
     span_ok src (pc_span x) \<and> identifier_lexeme (pc_name x) \<and>
     part_ok pa_span (parameter_ok src) (pc_span x) (pc_parameters x) \<and>
     exprs_ok src (pc_span x) (pc_premises x @ [pc_result x]) \<and>
     part_ok ap_span (arbitrary_ok src) (pc_span x) (pc_arbitrary_premises x)"

definition binding_ok :: "string \<Rightarrow> match_binding \<Rightarrow> bool" where
  "binding_ok src x \<longleftrightarrow> span_ok src (mb_span x) \<and> identifier_lexeme (mb_name x)"

definition arm_ok :: "string \<Rightarrow> match_arm \<Rightarrow> bool" where
  "arm_ok src x \<longleftrightarrow>
     span_ok src (ma_span x) \<and> identifier_lexeme (ma_constructor x) \<and>
     part_ok mb_span (binding_ok src) (ma_span x) (ma_bindings x) \<and> exprs_ok src (ma_span x) [ma_value x]"

definition assignment_ok :: "string \<Rightarrow> counterexample_entry \<Rightarrow> bool" where
  "assignment_ok src x \<longleftrightarrow>
     span_ok src (ce_span x) \<and> identifier_lexeme (ce_name x) \<and>
     types_ok src (ce_span x) [ce_type x] \<and> exprs_ok src (ce_span x) [ce_value x]"

primrec decl_span :: "fine_declaration \<Rightarrow> source_span" where
  "decl_span (EnumDecl d) = ed_span d"
| "decl_span (LetDecl d) = ld_span d"
| "decl_span (ModelDecl d) = md_span d"
| "decl_span (SolveDecl d) = sd_span d"
| "decl_span (ViewDecl d) = vd_span d"
| "decl_span (PredicateDecl d) = pd_span d"
| "decl_span (FunctionDecl d) = fd_span d"
| "decl_span (SynthDecl d) = yd_span d"
| "decl_span (CheckDecl d) = cd_span d"
| "decl_span (CounterexampleDecl d) = xd_span d"

primrec decl_name :: "fine_declaration \<Rightarrow> string" where
  "decl_name (EnumDecl d) = ed_name d"
| "decl_name (LetDecl d) = ld_name d"
| "decl_name (ModelDecl d) = md_name d"
| "decl_name (SolveDecl d) = sd_name d"
| "decl_name (ViewDecl d) = vd_name d"
| "decl_name (PredicateDecl d) = pd_name d"
| "decl_name (FunctionDecl d) = fd_name d"
| "decl_name (SynthDecl d) = yd_name d"
| "decl_name (CheckDecl d) = cd_name d"
| "decl_name (CounterexampleDecl d) = xd_name d"

text \<open>The parts of a declaration, and what its kind asks of them.\<close>

definition induction_ok ::
  "string \<Rightarrow> source_span \<Rightarrow> string option \<Rightarrow> source_span option \<Rightarrow> expr option \<Rightarrow> bool" where
  "induction_ok src outer name sp target \<longleftrightarrow>
     (case sp of
        None \<Rightarrow> name = None \<and> target = None
      | Some isp \<Rightarrow> span_ok src isp \<and> within outer isp \<and>
          (case name of None \<Rightarrow> target \<noteq> None | Some x \<Rightarrow> identifier_lexeme x \<and> target = None)) \<and>
     (case target of None \<Rightarrow> True | Some e \<Rightarrow> ex_kind e = ek_call)"

primrec decl_parts_ok :: "string \<Rightarrow> source_span \<Rightarrow> fine_declaration \<Rightarrow> bool" where
  "decl_parts_ok src sp (EnumDecl d) \<longleftrightarrow> ed_cases d \<noteq> [] \<and> part_ok ec_span (case_ok src) sp (ed_cases d)"
| "decl_parts_ok src sp (LetDecl d) \<longleftrightarrow>
     ty_kind (ld_type d) = ty_table \<and> types_ok src sp [ld_type d] \<and> part_ok tl_span (table_ok src) sp [ld_value d]"
| "decl_parts_ok src sp (ModelDecl d) \<longleftrightarrow>
     ty_kind (md_type d) = ty_table \<and> types_ok src sp [md_type d] \<and>
     part_ok tl_span (table_ok src) sp (case md_value d of None \<Rightarrow> [] | Some t \<Rightarrow> [t])"
| "decl_parts_ok src sp (SolveDecl d) \<longleftrightarrow>
     part_ok na_span (argument_ok src) sp (sd_takes d) \<and> exprs_ok src sp [sd_gives d]"
| "decl_parts_ok src sp (ViewDecl d) \<longleftrightarrow>
     part_ok pa_span (parameter_ok src) sp (vd_parameters d) \<and> types_ok src sp [vd_carrier d] \<and>
     vd_requirements d \<noteq> [] \<and> exprs_ok src sp (vd_requirements d) \<and>
     exprs_ok src sp (case vd_witness d of None \<Rightarrow> [] | Some e \<Rightarrow> [e])"
| "decl_parts_ok src sp (PredicateDecl d) \<longleftrightarrow>
     pd_indices d \<noteq> [] \<and> part_ok pa_span (parameter_ok src) sp (pd_indices d) \<and>
     pd_constructors d \<noteq> [] \<and> part_ok pc_span (constructor_ok src) sp (pd_constructors d)"
| "decl_parts_ok src sp (FunctionDecl d) \<longleftrightarrow>
     part_ok pa_span (parameter_ok src) sp (fd_parameters d) \<and> types_ok src sp [fd_result_type d] \<and>
     exprs_ok src sp [fd_scrutinee d] \<and> fd_arms d \<noteq> [] \<and> part_ok ma_span (arm_ok src) sp (fd_arms d)"
| "decl_parts_ok src sp (SynthDecl d) \<longleftrightarrow>
     part_ok pa_span (parameter_ok src) sp (yd_parameters d) \<and> types_ok src sp [yd_result_type d] \<and>
     exprs_ok src sp (case yd_scrutinee d of None \<Rightarrow> [] | Some e \<Rightarrow> [e]) \<and>
     (yd_scrutinee d = None \<longleftrightarrow> yd_arms d = []) \<and> part_ok ma_span (arm_ok src) sp (yd_arms d) \<and>
     yd_ensures d \<noteq> [] \<and> exprs_ok src sp (yd_ensures d)"
| "decl_parts_ok src sp (CheckDecl d) \<longleftrightarrow>
     part_ok pa_span (parameter_ok src) sp (cd_parameters d) \<and>
     induction_ok src sp (cd_induction_parameter d) (cd_induction_span d) (cd_predicate_induction d) \<and>
     exprs_ok src sp (case cd_predicate_induction d of None \<Rightarrow> [] | Some e \<Rightarrow> [e]) \<and>
     exprs_ok src sp (cd_assumes d @ cd_ensures d) \<and> cd_ensures d \<noteq> []"
| "decl_parts_ok src sp (CounterexampleDecl d) \<longleftrightarrow> part_ok ce_span (assignment_ok src) sp (xd_entries d)"

definition declaration_ok :: "string \<Rightarrow> fine_declaration \<Rightarrow> bool" where
  "declaration_ok src d \<longleftrightarrow>
     span_ok src (decl_span d) \<and> identifier_lexeme (decl_name d) \<and> decl_parts_ok src (decl_span d) d"

section \<open>The identities in a declaration\<close>

definition entry_ids :: "table_entry \<Rightarrow> nat list" where
  "entry_ids x = expr_ids (te_key x) @ expr_ids (te_value x)"

definition table_ids :: "table_literal \<Rightarrow> nat list" where
  "table_ids x = expr_ids (tl_default_value x) @ concat (map entry_ids (tl_entries x))"

definition arbitrary_ids :: "arbitrary_premise \<Rightarrow> nat list" where
  "arbitrary_ids x =
     concat (map expr_ids (ap_view_arguments x)) @ concat (map expr_ids (ap_premises x)) @ [ap_node_id x]"

definition constructor_ids :: "predicate_constructor \<Rightarrow> nat list" where
  "constructor_ids x =
     (concat (map expr_ids (pc_premises x)) @ concat (map arbitrary_ids (pc_arbitrary_premises x))) @
     expr_ids (pc_result x)"

primrec decl_inner_ids :: "fine_declaration \<Rightarrow> nat list" where
  "decl_inner_ids (EnumDecl d) = []"
| "decl_inner_ids (LetDecl d) = table_ids (ld_value d)"
| "decl_inner_ids (ModelDecl d) = (case md_value d of None \<Rightarrow> [] | Some t \<Rightarrow> table_ids t)"
| "decl_inner_ids (SolveDecl d) = concat (map (expr_ids \<circ> na_value) (sd_takes d)) @ expr_ids (sd_gives d)"
| "decl_inner_ids (ViewDecl d) =
     concat (map expr_ids (vd_requirements d)) @ (case vd_witness d of None \<Rightarrow> [] | Some e \<Rightarrow> expr_ids e)"
| "decl_inner_ids (PredicateDecl d) = concat (map constructor_ids (pd_constructors d))"
| "decl_inner_ids (FunctionDecl d) = expr_ids (fd_scrutinee d) @ concat (map (expr_ids \<circ> ma_value) (fd_arms d))"
| "decl_inner_ids (SynthDecl d) =
     ((case yd_scrutinee d of None \<Rightarrow> [] | Some e \<Rightarrow> expr_ids e) @ concat (map (expr_ids \<circ> ma_value) (yd_arms d))) @
     concat (map expr_ids (yd_ensures d))"
| "decl_inner_ids (CheckDecl d) =
     (case cd_predicate_induction d of None \<Rightarrow> [] | Some e \<Rightarrow> expr_ids e) @
     concat (map expr_ids (cd_assumes d)) @ concat (map expr_ids (cd_ensures d))"
| "decl_inner_ids (CounterexampleDecl d) = concat (map (expr_ids \<circ> ce_value) (xd_entries d))"

primrec decl_node_id :: "fine_declaration \<Rightarrow> nat" where
  "decl_node_id (EnumDecl d) = ed_node_id d"
| "decl_node_id (LetDecl d) = ld_node_id d"
| "decl_node_id (ModelDecl d) = md_node_id d"
| "decl_node_id (SolveDecl d) = sd_node_id d"
| "decl_node_id (ViewDecl d) = vd_node_id d"
| "decl_node_id (PredicateDecl d) = pd_node_id d"
| "decl_node_id (FunctionDecl d) = fd_node_id d"
| "decl_node_id (SynthDecl d) = yd_node_id d"
| "decl_node_id (CheckDecl d) = cd_node_id d"
| "decl_node_id (CounterexampleDecl d) = xd_node_id d"

definition decl_ids :: "fine_declaration \<Rightarrow> nat list" where
  "decl_ids d = decl_inner_ids d @ [decl_node_id d]"

definition document_ids :: "document \<Rightarrow> nat list" where
  "document_ids doc = concat (map decl_ids (doc_declarations doc))"

definition document_ok :: "string \<Rightarrow> document \<Rightarrow> bool" where
  "document_ok src doc \<longleftrightarrow>
     span_ok src (doc_span doc) \<and> part_ok decl_span (declaration_ok src) (doc_span doc) (doc_declarations doc)"

section \<open>Clauses\<close>

lemmas decl_posts = posts part_ok_def

lemma parameter_item: "item_parser src n (parameter_parser n) pa_span (\<lambda>_. []) (parameter_ok src)"
proof
  fix s assume s: "length src < n + cur s"
  show "vc src (parameter_parser n) (item_post src pa_span (\<lambda>_. []) (parameter_ok src) s) s"
    unfolding parameter_parser_def
    by (intro wp_rule fine_type.item) (use s in \<open>auto simp: decl_posts parameter_ok_def intro: span_intros fresh_intros\<close>)
qed

lemma argument_item: "item_parser src n (argument_parser n) na_span (expr_ids \<circ> na_value) (argument_ok src)"
proof
  fix s assume s: "length src < n + cur s"
  show "vc src (argument_parser n) (item_post src na_span (expr_ids \<circ> na_value) (argument_ok src) s) s"
    unfolding argument_parser_def
    by (intro wp_rule fine_expr.item) (use s in \<open>auto simp: decl_posts argument_ok_def intro: span_intros fresh_intros\<close>)
qed

lemma field_item: "item_parser src n (enum_field_parser n) ef_span (\<lambda>_. []) (field_ok src)"
proof
  fix s assume s: "length src < n + cur s"
  show "vc src (enum_field_parser n) (item_post src ef_span (\<lambda>_. []) (field_ok src) s) s"
    unfolding enum_field_parser_def
    by (intro wp_rule fine_type.item) (use s in \<open>auto simp: decl_posts field_ok_def intro: span_intros fresh_intros\<close>)
qed

lemma case_item: "item_parser src n (enum_case_parser n) ec_span (\<lambda>_. []) (case_ok src)"
proof
  fix s assume s: "length src < n + cur s"
  show "vc src (enum_case_parser n) (item_post src ec_span (\<lambda>_. []) (case_ok src) s) s"
    unfolding enum_case_parser_def
    by (intro wp_rule item_parser.comma_loop [OF field_item]) (use s in \<open>auto simp: decl_posts case_ok_def intro: span_intros fresh_intros\<close>)
qed

lemma entry_item: "item_parser src n (table_entry_parser n) te_span entry_ids (entry_ok src)"
proof
  fix s assume s: "length src < n + cur s"
  show "vc src (table_entry_parser n) (item_post src te_span entry_ids (entry_ok src) s) s"
    unfolding table_entry_parser_def
    by (intro wp_rule fine_expr.item)
      (use s in \<open>auto simp: decl_posts entry_ok_def entry_ids_def intro: span_intros fresh_intros\<close>)
qed

lemma table_item: "item_parser src n (table_literal_parser n) tl_span table_ids (table_ok src)"
proof
  fix s assume s: "length src < n + cur s"
  show "vc src (table_literal_parser n) (item_post src tl_span table_ids (table_ok src) s) s"
    unfolding table_literal_parser_def
    by (intro wp_rule fine_expr.item item_parser.comma_loop [OF entry_item])
      (use s in \<open>auto simp: decl_posts table_ok_def table_ids_def intro: span_intros fresh_intros\<close>)
qed

lemma assignment_item:
  "item_parser src n (counterexample_entry_parser n) ce_span (expr_ids \<circ> ce_value) (assignment_ok src)"
proof
  fix s assume s: "length src < n + cur s"
  show "vc src (counterexample_entry_parser n) (item_post src ce_span (expr_ids \<circ> ce_value) (assignment_ok src) s) s"
    unfolding counterexample_entry_parser_def
    by (intro wp_rule fine_type.item fine_expr.item)
      (use s in \<open>auto simp: decl_posts assignment_ok_def intro: span_intros elim: fresh_ids_mono\<close>)
qed

lemma binding_item: "item_parser src n match_binding_parser mb_span (\<lambda>_. []) (binding_ok src)"
proof
  fix s assume s: "length src < n + cur s"
  show "vc src match_binding_parser (item_post src mb_span (\<lambda>_. []) (binding_ok src) s) s"
    unfolding match_binding_parser_def
    by (intro wp_rule) (use s in \<open>auto simp: decl_posts binding_ok_def intro: span_intros fresh_intros\<close>)
qed

lemma arm_item: "item_parser src n (match_arm_parser n) ma_span (expr_ids \<circ> ma_value) (arm_ok src)"
proof
  fix s assume s: "length src < n + cur s"
  show "vc src (match_arm_parser n) (item_post src ma_span (expr_ids \<circ> ma_value) (arm_ok src) s) s"
    unfolding match_arm_parser_def
    by (intro wp_rule fine_expr.item item_parser.comma_loop [OF binding_item [of src n]])
      (use s in \<open>auto simp: decl_posts arm_ok_def intro: span_intros elim: fresh_ids_mono\<close>)
qed

lemma arbitrary_item: "item_parser src n (arbitrary_field_parser n) ap_span arbitrary_ids (arbitrary_ok src)"
proof
  fix s assume s: "length src < n + cur s"
  show "vc src (arbitrary_field_parser n) (item_post src ap_span arbitrary_ids (arbitrary_ok src) s) s"
    unfolding arbitrary_field_parser_def
    by (intro wp_rule fine_expr.comma_loop fine_expr.ended_loop)
      (use s in \<open>auto simp: decl_posts arbitrary_ok_def arbitrary_ids_def intro: span_intros fresh_intros\<close>)
qed

definition premise_span :: "expr + arbitrary_premise \<Rightarrow> source_span" where
  "premise_span x = (case x of Inl e \<Rightarrow> ex_span e | Inr f \<Rightarrow> ap_span f)"

definition premise_ids :: "expr + arbitrary_premise \<Rightarrow> nat list" where
  "premise_ids x = (case x of Inl e \<Rightarrow> expr_ids e | Inr f \<Rightarrow> arbitrary_ids f)"

definition premise_ok :: "string \<Rightarrow> expr + arbitrary_premise \<Rightarrow> bool" where
  "premise_ok src x = (case x of Inl e \<Rightarrow> wf_expr src e | Inr f \<Rightarrow> arbitrary_ok src f)"

lemmas premise_defs = premise_span_def premise_ids_def premise_ok_def

lemma premise_item: "item_parser src n (constructor_premise n) premise_span premise_ids (premise_ok src)"
proof
  fix s assume s: "length src < n + cur s"
  show "vc src (constructor_premise n) (item_post src premise_span premise_ids (premise_ok src) s) s"
    unfolding constructor_premise_def
    by (intro wp_rule item_parser.item [OF fine_expr.ended] item_parser.item [OF arbitrary_item])
      (use s in \<open>auto simp: item_post_def premise_defs\<close>)
qed

lemma set_premises_of: "set (premises_of xs) = {e. Inl e \<in> set xs}"
  by (induction xs) (auto split: sum.split)

lemma set_fields_of: "set (fields_of xs) = {f. Inr f \<in> set xs}"
  by (induction xs) (auto split: sum.split)

lemma premise_ids_split:
  "mset (concat (map expr_ids (premises_of xs)) @ concat (map arbitrary_ids (fields_of xs))) =
   mset (concat (map premise_ids xs))"
  by (induction xs) (auto simp: premise_ids_def split: sum.split)

lemma premises_fresh:
  "fresh_ids lo hi (concat (map premise_ids xs)) \<Longrightarrow>
   fresh_ids lo hi (concat (map expr_ids (premises_of xs)) @ concat (map arbitrary_ids (fields_of xs)))"
  using premise_ids_split by (rule fresh_ids_mset [rotated])

lemma premises_parts:
  assumes "\<forall>x\<in>set xs. span_in src lo hi (premise_span x) \<and> premise_ok src x"
  shows "\<forall>e\<in>set (premises_of xs). span_in src lo hi (ex_span e) \<and> wf_expr src e"
    and "\<forall>f\<in>set (fields_of xs). span_in src lo hi (ap_span f) \<and> arbitrary_ok src f"
  using assms by (fastforce simp: premise_defs set_premises_of set_fields_of)+

lemma premises_loop_vc:
  assumes "length src < n + cur s"
    and "\<And>xs s'. cur s \<le> cur s' \<Longrightarrow>
      \<forall>e\<in>set (premises_of xs). span_in src (cur s) (cur s') (ex_span e) \<and> wf_expr src e \<Longrightarrow>
      \<forall>f\<in>set (fields_of xs). span_in src (cur s) (cur s') (ap_span f) \<and> arbitrary_ok src f \<Longrightarrow>
      fresh_ids (ps_next_node_id s) (ps_next_node_id s')
        (concat (map expr_ids (premises_of xs)) @ concat (map arbitrary_ids (fields_of xs))) \<Longrightarrow> Q xs s'"
  shows "vc src (loop_until n close (constructor_premise n)) Q s"
  by (rule item_parser.loop [OF premise_item assms(1) assms(1)])
    (auto simp: items_post_def intro!: assms(2) premises_fresh premises_parts)

lemma parameters_vc [wp_rule]:
  assumes "length src < n + cur s"
    and "\<And>xs s'. cur s < cur s' \<Longrightarrow> items_post src pa_span (\<lambda>_. []) (parameter_ok src) s xs s' \<Longrightarrow> Q xs s'"
  shows "vc src (parameters n) Q s"
  unfolding parameters_def
  by (intro wp_rule item_parser.comma_loop [OF parameter_item] assms(2))
    (use assms(1) in \<open>auto simp: token_post_def dest: items_post_cur elim: items_post_widen\<close>)

lemma arguments_vc [wp_rule]:
  assumes "length src < n + cur s"
    and "\<And>xs s'. cur s < cur s' \<Longrightarrow> items_post src na_span (expr_ids \<circ> na_value) (argument_ok src) s xs s' \<Longrightarrow> Q xs s'"
  shows "vc src (arguments n) Q s"
  unfolding arguments_def
  by (intro wp_rule item_parser.comma_loop [OF argument_item] assms(2))
    (use assms(1) in \<open>auto simp: token_post_def dest: items_post_cur elim: items_post_widen\<close>)

lemma condition_block_vc:
  assumes "length src < n + cur s" "k \<noteq> tk_eof"
    and "\<And>xs s'. cur s < cur s' \<Longrightarrow> (\<not> allow_empty \<Longrightarrow> xs \<noteq> []) \<Longrightarrow>
      items_post src ex_span expr_ids (wf_expr src) s xs s' \<Longrightarrow> Q xs s'"
  shows "vc src (condition_block n k c allow_empty) Q s"
  unfolding condition_block_def
  by (intro wp_rule fine_expr.ended_loop assms(3)) (use assms(1,2) in \<open>auto simp: token_post_def dest: items_post_cur elim: items_post_widen\<close>)

lemma match_arms_vc [wp_rule]:
  assumes "length src < n + cur s"
    and "\<And>xs s'. items_post src ma_span (expr_ids \<circ> ma_value) (arm_ok src) s xs s' \<Longrightarrow> Q xs s'"
  shows "vc src (match_arms n) Q s"
  unfolding match_arms_def
  by (rule item_parser.comma_loop [OF arm_item assms(1) assms(1) assms(2)])

lemma constructor_item: "item_parser src n (predicate_constructor_parser n) pc_span constructor_ids (constructor_ok src)"
proof
  fix s assume s: "length src < n + cur s"
  show "vc src (predicate_constructor_parser n) (item_post src pc_span constructor_ids (constructor_ok src) s) s"
    unfolding predicate_constructor_parser_def
    by (intro wp_rule fine_expr.item premises_loop_vc)
      (use s in \<open>auto simp: decl_posts constructor_ok_def constructor_ids_def simp del: append_assoc
          intro: span_intros fresh_intros\<close>)
qed

end
