(* ===== verification/Fine_Document_Props.thy ===== *)
theory Fine_Document_Props
  imports Fine_Decl_Props
begin

text \<open>
  The contracts of the declaration methods of the parser and what follows for the entry points
  \<open>parse\<close> and \<open>parse_expression\<close>.
\<close>

section \<open>Declarations\<close>

lemma enum_cases_vc:
  assumes "length src < n + cur s" "length src < m + cur s"
    and "\<And>xs s'. cur s < cur s' \<Longrightarrow> xs \<noteq> [] \<Longrightarrow> items_post src ec_span (\<lambda>_. []) (case_ok src) s xs s' \<Longrightarrow> Q xs s'"
  shows "vc src (enum_cases n m) Q s"
  using assms
proof (induction n arbitrary: s Q)
  case 0
  then show ?case by (simp add: vc_out_of_fuel)
next
  case (Suc n)
  have one: "Q [x] s2"
    if "item_post src ec_span (\<lambda>_. []) (case_ok src) s x s1" "cur s1 \<le> cur s2"
      "ps_next_node_id s2 = ps_next_node_id s1" for x s1 s2
    using that by (intro Suc.prems(3)) (auto simp: posts intro: span_in_mono)
  have rest: "vc src (enum_cases n m) (\<lambda>items. vc src (returnP (x # items)) Q) s2"
    if x: "item_post src ec_span (\<lambda>_. []) (case_ok src) s x s1" "cur s1 < cur s2"
      "ps_next_node_id s2 = ps_next_node_id s1" for x s1 s2
    using x Suc.prems(1,2)
    by (intro Suc.IH wp_rule Suc.prems(3)) (auto simp: posts intro: span_in_mono)
  show ?case unfolding enum_cases.simps
    by (intro wp_rule item_parser.item [OF case_item] Suc.prems(2)) (auto intro: one rest)
qed

lemma enum_item:
  "item_parser src n (enum_decl_parser n) ed_span (decl_inner_ids \<circ> EnumDecl) (declaration_ok src \<circ> EnumDecl)"
proof
  fix s assume s: "length src < n + cur s"
  show "vc src (enum_decl_parser n)
    (item_post src ed_span (decl_inner_ids \<circ> EnumDecl) (declaration_ok src \<circ> EnumDecl) s) s"
    unfolding enum_decl_parser_def
    by (intro wp_rule enum_cases_vc)
      (use s in \<open>auto simp: decl_posts declaration_ok_def
          intro: span_intros fresh_intros elim: fresh_ids_mono\<close>)
qed

lemma let_item:
  "item_parser src n (let_decl_parser n) ld_span (decl_inner_ids \<circ> LetDecl) (declaration_ok src \<circ> LetDecl)"
proof
  fix s assume s: "length src < n + cur s"
  show "vc src (let_decl_parser n)
    (item_post src ld_span (decl_inner_ids \<circ> LetDecl) (declaration_ok src \<circ> LetDecl) s) s"
    unfolding let_decl_parser_def
    by (intro wp_rule fine_type.item item_parser.item [OF table_item])
      (use s in \<open>auto simp: decl_posts declaration_ok_def
          intro: span_intros fresh_intros elim: fresh_ids_mono\<close>)
qed

lemma model_item:
  "item_parser src n (model_decl_parser n) md_span (decl_inner_ids \<circ> ModelDecl) (declaration_ok src \<circ> ModelDecl)"
proof
  fix s assume s: "length src < n + cur s"
  show "vc src (model_decl_parser n)
    (item_post src md_span (decl_inner_ids \<circ> ModelDecl) (declaration_ok src \<circ> ModelDecl) s) s"
    unfolding model_decl_parser_def
    by (intro wp_rule fine_type.item item_parser.item [OF table_item])
      (use s in \<open>auto simp: decl_posts declaration_ok_def
          intro: span_intros fresh_intros elim: fresh_ids_mono\<close>)
qed

lemma solve_item:
  "item_parser src n (solve_decl_parser n) sd_span (decl_inner_ids \<circ> SolveDecl) (declaration_ok src \<circ> SolveDecl)"
proof
  fix s assume s: "length src < n + cur s"
  show "vc src (solve_decl_parser n)
    (item_post src sd_span (decl_inner_ids \<circ> SolveDecl) (declaration_ok src \<circ> SolveDecl) s) s"
    unfolding solve_decl_parser_def
    by (intro wp_rule fine_expr.item)
      (use s in \<open>auto simp: decl_posts declaration_ok_def
          intro: span_intros fresh_intros elim: fresh_ids_mono\<close>)
qed

lemma view_item:
  "item_parser src n (view_decl_parser n) vd_span (decl_inner_ids \<circ> ViewDecl) (declaration_ok src \<circ> ViewDecl)"
proof
  fix s assume s: "length src < n + cur s"
  show "vc src (view_decl_parser n)
    (item_post src vd_span (decl_inner_ids \<circ> ViewDecl) (declaration_ok src \<circ> ViewDecl) s) s"
    unfolding view_decl_parser_def
    by (intro wp_rule fine_type.item fine_expr.item condition_block_vc)
      (use s in \<open>auto simp: decl_posts declaration_ok_def
          intro: span_intros fresh_intros elim: fresh_ids_mono\<close>)
qed

lemma predicate_item:
  "item_parser src n (predicate_decl_parser n) pd_span (decl_inner_ids \<circ> PredicateDecl) (declaration_ok src \<circ> PredicateDecl)"
proof
  fix s assume s: "length src < n + cur s"
  show "vc src (predicate_decl_parser n)
    (item_post src pd_span (decl_inner_ids \<circ> PredicateDecl) (declaration_ok src \<circ> PredicateDecl) s) s"
    unfolding predicate_decl_parser_def
    by (intro wp_rule item_parser.loop [OF constructor_item])
      (use s in \<open>auto simp: decl_posts declaration_ok_def
          intro: span_intros fresh_intros elim: fresh_ids_mono\<close>)
qed

lemma function_item:
  "item_parser src n (function_decl_parser n) fd_span (decl_inner_ids \<circ> FunctionDecl) (declaration_ok src \<circ> FunctionDecl)"
proof
  fix s assume s: "length src < n + cur s"
  show "vc src (function_decl_parser n)
    (item_post src fd_span (decl_inner_ids \<circ> FunctionDecl) (declaration_ok src \<circ> FunctionDecl) s) s"
    unfolding function_decl_parser_def
    by (intro wp_rule fine_type.item fine_expr.item)
      (use s in \<open>auto simp: decl_posts declaration_ok_def
          intro: span_intros fresh_intros elim: fresh_ids_mono\<close>)
qed

lemma counterexample_item:
  "item_parser src n (counterexample_decl_parser n) xd_span (decl_inner_ids \<circ> CounterexampleDecl) (declaration_ok src \<circ> CounterexampleDecl)"
proof
  fix s assume s: "length src < n + cur s"
  show "vc src (counterexample_decl_parser n)
    (item_post src xd_span (decl_inner_ids \<circ> CounterexampleDecl) (declaration_ok src \<circ> CounterexampleDecl) s) s"
    unfolding counterexample_decl_parser_def
    by (intro wp_rule item_parser.loop [OF assignment_item])
      (use s in \<open>auto simp: decl_posts declaration_ok_def
          intro: span_intros fresh_intros elim: fresh_ids_mono\<close>)
qed

lemma synth_match_vc:
  assumes s: "length src < n + cur s"
    and Q: "\<And>sc arms s'. cur s \<le> cur s' \<Longrightarrow> (sc = None \<longleftrightarrow> arms = []) \<Longrightarrow>
      \<forall>e\<in>set_option sc. span_in src (cur s) (cur s') (ex_span e) \<and> wf_expr src e \<Longrightarrow>
      \<forall>a\<in>set arms. span_in src (cur s) (cur s') (ma_span a) \<and> arm_ok src a \<Longrightarrow>
      fresh_ids (ps_next_node_id s) (ps_next_node_id s')
        ((case sc of None \<Rightarrow> [] | Some e \<Rightarrow> expr_ids e) @ concat (map (expr_ids \<circ> ma_value) arms)) \<Longrightarrow> Q (sc, arms) s'"
  shows "vc src (synth_match_parser n) Q s"
  unfolding synth_match_parser_def
  by (intro wp_rule fine_expr.item Q) (use s in \<open>auto simp: posts span_in_def intro: fresh_intros\<close>)

lemma synth_item:
  "item_parser src n (synth_decl_parser n) yd_span (decl_inner_ids \<circ> SynthDecl) (declaration_ok src \<circ> SynthDecl)"
proof
  fix s assume s: "length src < n + cur s"
  show "vc src (synth_decl_parser n)
    (item_post src yd_span (decl_inner_ids \<circ> SynthDecl) (declaration_ok src \<circ> SynthDecl) s) s"
    unfolding synth_decl_parser_def
    by (intro wp_rule fine_type.item synth_match_vc fine_expr.ended_loop)
      (use s in \<open>auto simp: decl_posts declaration_ok_def simp del: append_assoc split: option.splits
          intro: span_intros fresh_intros elim: fresh_ids_mono\<close>)
qed

text \<open>An optional \<^verbatim>\<open>inducts\<close> clause between two offsets.\<close>

definition inducts_post :: "string \<Rightarrow> nat \<Rightarrow> nat \<Rightarrow> string option \<Rightarrow> source_span option \<Rightarrow> expr option \<Rightarrow> bool" where
  "inducts_post src lo hi name sp target \<longleftrightarrow>
     (case sp of
        None \<Rightarrow> name = None \<and> target = None
      | Some isp \<Rightarrow> span_in src lo hi isp \<and>
          (case name of None \<Rightarrow> target \<noteq> None | Some x \<Rightarrow> identifier_lexeme x \<and> target = None)) \<and>
     (case target of None \<Rightarrow> True | Some e \<Rightarrow> ex_kind e = ek_call \<and> span_in src lo hi (ex_span e) \<and> wf_expr src e)"

lemma wf_expr_name: "wf_expr src e \<Longrightarrow> ex_kind e = ek_name \<Longrightarrow> identifier_lexeme (ex_name e)"
  by (cases e) (simp add: expr_shape_def)

lemma inducts_vc:
  assumes s: "length src < n + cur s"
    and Q: "\<And>name sp target s'. cur s \<le> cur s' \<Longrightarrow> inducts_post src (cur s) (cur s') name sp target \<Longrightarrow>
      fresh_ids (ps_next_node_id s) (ps_next_node_id s') (case target of None \<Rightarrow> [] | Some e \<Rightarrow> expr_ids e) \<Longrightarrow>
      Q (name, sp, target) s'"
  shows "vc src (inducts_clause n) Q s"
  unfolding inducts_clause_def
  by (intro wp_rule fine_expr.item Q)
    (use s in \<open>auto simp: posts inducts_post_def joined_def span_in_def span_ok_iff wf_expr_name dest: fresh_ids_le\<close>)

lemma inducts_post_ok:
  "inducts_post src l h name sp target \<Longrightarrow> span_in src l1 h1 a \<Longrightarrow> span_in src l2 h2 b \<Longrightarrow> h1 \<le> l \<Longrightarrow> h \<le> l2 \<Longrightarrow>
   induction_ok src (joined a b) name sp target \<and>
   exprs_ok src (joined a b) (case target of None \<Rightarrow> [] | Some e \<Rightarrow> [e])"
  by (auto simp: inducts_post_def induction_ok_def part_ok_def split: option.splits
      intro: within_joined span_in_ok)

lemma check_after_vc:
  assumes s: "length src < n + cur s" and first: "span_in src lo (cur s) (tok_span first)"
    and Q: "\<And>d s'. cd_reusable d = reusable \<Longrightarrow> cur s < cur s' \<Longrightarrow> span_in src lo (cur s') (cd_span d) \<Longrightarrow>
      fresh_ids (ps_next_node_id s) (ps_next_node_id s') (decl_inner_ids (CheckDecl d)) \<Longrightarrow>
      declaration_ok src (CheckDecl d) \<Longrightarrow> Q d s'"
  shows "vc src (check_decl_after n first reusable kw) Q s"
  unfolding check_decl_after_def
  by (intro wp_rule inducts_vc condition_block_vc Q)
    (use s first in \<open>auto simp: decl_posts declaration_ok_def inducts_post_ok [unfolded part_ok_def]
        intro: span_intros fresh_intros elim: fresh_ids_mono\<close>)

lemma check_item:
  "item_parser src n (check_decl_parser n reusable) cd_span (decl_inner_ids \<circ> CheckDecl) (declaration_ok src \<circ> CheckDecl)"
proof
  fix s assume s: "length src < n + cur s"
  show "vc src (check_decl_parser n reusable)
    (item_post src cd_span (decl_inner_ids \<circ> CheckDecl) (declaration_ok src \<circ> CheckDecl) s) s"
    unfolding check_decl_parser_def
    by (intro wp_rule check_after_vc) (use s in \<open>auto simp: posts simp del: decl_inner_ids.simps\<close>)
qed

lemma proof_item:
  "item_parser src n (proof_decl_parser n) cd_span (decl_inner_ids \<circ> CheckDecl) (declaration_ok src \<circ> CheckDecl)"
proof
  fix s assume s: "length src < n + cur s"
  show "vc src (proof_decl_parser n)
    (item_post src cd_span (decl_inner_ids \<circ> CheckDecl) (declaration_ok src \<circ> CheckDecl) s) s"
    unfolding proof_decl_parser_def
    by (intro wp_rule check_after_vc) (use s in \<open>auto simp: posts simp del: decl_inner_ids.simps\<close>)
qed

lemma mapP_decl:
  assumes p: "item_parser src n p sp (decl_inner_ids \<circ> f) (declaration_ok src \<circ> f)" and sp: "decl_span \<circ> f = sp"
    and s: "length src < n + cur s"
    and Q: "\<And>d s'. item_post src decl_span decl_inner_ids (declaration_ok src) s d s' \<Longrightarrow> Q d s'"
  shows "vc src (mapP f p) Q s"
  unfolding mapP_def
  by (intro wp_rule item_parser.item [OF p s] Q) (auto simp: item_post_def sp [symmetric])

lemmas mapP_decls =
  mapP_decl [OF enum_item] mapP_decl [OF let_item] mapP_decl [OF model_item] mapP_decl [OF proof_item]
  mapP_decl [OF predicate_item] mapP_decl [OF solve_item] mapP_decl [OF view_item] mapP_decl [OF function_item]
  mapP_decl [OF synth_item] mapP_decl [OF check_item] mapP_decl [OF counterexample_item]

lemma set_node_id_simps [simp]:
  "decl_span (set_node_id i d) = decl_span d"
  "decl_name (set_node_id i d) = decl_name d"
  "decl_inner_ids (set_node_id i d) = decl_inner_ids d"
  "decl_node_id (set_node_id i d) = i"
  "decl_parts_ok src sp (set_node_id i d) = decl_parts_ok src sp d"
  by (cases d; simp)+

lemma declaration_item: "item_parser src n (declaration_parser n) decl_span decl_ids (declaration_ok src)"
proof
  fix s assume s: "length src < n + cur s"
  show "vc src (declaration_parser n) (item_post src decl_span decl_ids (declaration_ok src) s) s"
    unfolding declaration_parser_def
    by (intro wp_rule mapP_decls)
      (use s in \<open>auto simp: fun_eq_iff item_post_def decl_ids_def declaration_ok_def intro: fresh_ids_snoc\<close>)
qed

interpretation fine_decl: item_parser src n "declaration_parser n" decl_span decl_ids "declaration_ok src" for src n
  by (rule declaration_item)

section \<open>The entry points\<close>

definition document_post :: "string \<Rightarrow> parser_state \<Rightarrow> document \<Rightarrow> parser_state \<Rightarrow> bool" where
  "document_post src s doc s' \<longleftrightarrow>
     document_ok src doc \<and> fresh_ids (ps_next_node_id s) (ps_next_node_id s') (document_ids doc)"

lemma token_bounds:
  "token_ok src tok \<Longrightarrow> pos_ok src (span_begin (tok_span tok)) \<and> pos_ok src (span_end (tok_span tok)) \<and>
     offset (span_begin (tok_span tok)) \<le> offset (span_end (tok_span tok))"
  by (simp add: token_ok_def span_ok_iff)

lemma document_vc:
  assumes "length src < n + cur s"
  shows "vc src (document_parser n) (document_post src s) s"
  unfolding document_parser_def
  by (intro wp_rule fine_decl.loop assms)
    (auto simp: document_post_def document_ok_def document_ids_def items_post_def part_ok_def cur_def span_ok_iff
      span_in_def within_def dest!: token_bounds)

lemma expression_document_vc:
  assumes "length src < n + cur s"
  shows "vc src (expression_document n)
    (\<lambda>e s'. wf_expr src e \<and> fresh_ids (ps_next_node_id s) (ps_next_node_id s') (expr_ids e)) s"
  unfolding expression_document_def
  by (intro wp_rule fine_expr.item assms) (auto simp: posts)

lemma entry_point:
  assumes body: "\<And>s. ps_next_node_id s = 0 \<Longrightarrow> vc src p (\<lambda>x _. good x) s"
  shows "case bindP parser_advance (\<lambda>_. p) (mk_parser src) of Inl e \<Rightarrow> error_ok src e | Inr (x, _) \<Rightarrow> good x"
proof -
  have "lexer_inv src (ps_lexer (mk_parser src))" by (simp add: mk_parser_def lexer_inv_mk_lexer)
  from parser_advance_ok [OF this] body show ?thesis
    by (fastforce simp: bindP_def vc_def mk_parser_def split: sum.splits prod.splits)
qed

lemma parse_post:
  "case parse src of
     Inl e \<Rightarrow> error_ok src e
   | Inr doc \<Rightarrow> document_ok src doc \<and> distinct (document_ids doc)"
proof -
  have "vc src (document_parser (parse_fuel src)) (\<lambda>doc _. document_ok src doc \<and> distinct (document_ids doc)) s" for s
    by (rule vc_mono [OF document_vc]) (auto simp: parse_fuel_def document_post_def fresh_ids_def)
  from entry_point [OF this] show ?thesis
    by (auto simp: parse_def split: sum.splits prod.splits)
qed

lemma parse_expression_post:
  "case parse_expression src of Inl e \<Rightarrow> error_ok src e | Inr e \<Rightarrow> wf_expr src e \<and> distinct (expr_ids e)"
proof -
  have "vc src (expression_document (parse_fuel src)) (\<lambda>e _. wf_expr src e \<and> distinct (expr_ids e)) s" for s
    by (rule vc_mono [OF expression_document_vc]) (auto simp: parse_fuel_def fresh_ids_def)
  from entry_point [OF this] show ?thesis
    by (auto simp: parse_expression_def split: sum.splits prod.splits)
qed

section \<open>Properties\<close>

text \<open>C9: parsing any text ends with a document or with a parse error; the fuel the entry point
  passes is enough for every text.\<close>

theorem parse_total: "parse src \<noteq> Inl OutOfFuel"
  using parse_post [of src] by (auto simp: error_ok_def)

definition sample_source :: string where
  "sample_source = ''check c(x: Int) { assumes { x >= 0; } ensures { x + 1 >= 1; } }''"

lemma sample_parse: "case parse sample_source of Inr doc \<Rightarrow> document_ids doc = [0, 1, 2, 3, 4, 5, 6, 7, 8] | Inl _ \<Rightarrow> False"
  by code_simp

text \<open>C10: a parsed document is well formed. Every span is a stretch of the source with exact lines and
  columns, inside the span of the construct around it; names are identifiers and not keywords; every
  expression and type has the number of children its kind needs; the non-empty lists of the grammar are not empty.\<close>

theorem parse_well_formed:
  assumes "parse src = Inr doc"
  shows "document_ok src doc"
  using parse_post [of src] assms by simp

theorem parse_well_formed_witness:
  "\<exists>doc. parse sample_source = Inr doc \<and> doc_declarations doc \<noteq> [] \<and> document_ok sample_source doc"
proof -
  obtain doc where doc: "parse sample_source = Inr doc" "document_ids doc = [0, 1, 2, 3, 4, 5, 6, 7, 8]"
    using sample_parse by (auto split: sum.splits)
  then have "doc_declarations doc \<noteq> []" by (auto simp: document_ids_def)
  with doc parse_well_formed [OF doc(1)] show ?thesis by blast
qed

text \<open>C11: within one parse, no two nodes of the syntax tree have the same identity.\<close>

theorem parse_ids_distinct:
  assumes "parse src = Inr doc"
  shows "distinct (document_ids doc)"
  using parse_post [of src] assms by simp

theorem parse_ids_distinct_witness:
  "\<exists>doc. parse sample_source = Inr doc \<and> length (document_ids doc) = 9 \<and> distinct (document_ids doc)"
proof -
  obtain doc where doc: "parse sample_source = Inr doc" "document_ids doc = [0, 1, 2, 3, 4, 5, 6, 7, 8]"
    using sample_parse by (auto split: sum.splits)
  with parse_ids_distinct [OF doc(1)] show ?thesis by force
qed

text \<open>C12: the span of a parse error lies in the source, with the line and the column of its offsets.\<close>

theorem parse_error_located:
  assumes "parse src = Inl (ParseError sp message)"
  shows "span_ok src sp"
  using parse_post [of src] assms by (simp add: error_ok_def)

definition broken_source :: string where
  "broken_source = ''check c('' @ [CHR 0x0A] @ ''  42)''"

theorem parse_error_located_witness:
  "\<exists>sp message. parse broken_source = Inl (ParseError sp message) \<and> offset (span_begin sp) = 11 \<and> line (span_begin sp) = 2 \<and> span_ok broken_source sp"
proof -
  have "case parse broken_source of Inl (ParseError sp _) \<Rightarrow> offset (span_begin sp) = 11 \<and> line (span_begin sp) = 2 | _ \<Rightarrow> False"
    by code_simp
  then obtain sp message where e: "parse broken_source = Inl (ParseError sp message)" "offset (span_begin sp) = 11" "line (span_begin sp) = 2"
    by (auto split: sum.splits parse_error.splits)
  with parse_error_located [OF e(1)] show ?thesis by blast
qed

end
