(* ===== verification/Fine_Print.thy ===== *)
theory Fine_Print
  imports Fine_Syntax
begin

text \<open>
  The expression printer of \<^verbatim>\<open>src/src/fine/runtime.cpp\<close>.
\<close>

primrec operator_text :: "binary_op \<Rightarrow> string" where
  "operator_text op_equal = ''==''"
| "operator_text op_greater_equal = ''>=''"
| "operator_text op_less_equal = ''<=''"
| "operator_text op_logical_and = ''&&''"
| "operator_text op_logical_or = ''||''"
| "operator_text op_add = ''+''"
| "operator_text op_subtract = ''-''"

text \<open>\<^verbatim>\<open>if (i) output << ", "; print_expression(output, elements[i]);\<close>\<close>

fun comma_separated :: "string list \<Rightarrow> string" where
  "comma_separated [] = []"
| "comma_separated [t] = t"
| "comma_separated (t # u # ts) = t @ '', '' @ comma_separated (u # ts)"

primrec print_expression :: "expr \<Rightarrow> string" where
  "print_expression (Expr k sp nm b it bop es i) =
     (let texts = map print_expression es in
      case k of
        ek_name \<Rightarrow> nm
      | ek_boolean \<Rightarrow> (if b then ''true'' else ''false'')
      | ek_integer \<Rightarrow> it
      | ek_call \<Rightarrow> nm @ ''('' @ comma_separated texts @ '')''
      | ek_tuple \<Rightarrow> ''('' @ comma_separated texts @ '')''
      | ek_binary \<Rightarrow> ''('' @ texts ! 0 @ '' '' @ operator_text bop @ '' '' @ texts ! 1 @ '')''
      | ek_conditional \<Rightarrow>
          ''if '' @ texts ! 0 @ '' { '' @ texts ! 1 @ '' } else { '' @ texts ! 2 @ '' }''
      | ek_hole \<Rightarrow> ''?'' @ nm)"

end
