(* ===== verification/Fine_Printer.thy ===== *)
theory Fine_Printer
  imports Fine_Document_Props Fine_Print
begin

text \<open>
  The round trip of the expression printer (\<open>Fine_Print\<close>) with the parser: the printed text
  of a well-shaped expression parses to the same expression, up to source spans and node identities.  The proof goes through the list of tokens of the printed text
  (\<open>expr_tokens\<close>), first from the text to the tokens (\<open>lexes\<close>), then from the tokens to the tree.
\<close>

section \<open>Printed expressions\<close>

text \<open>The expressions the printer is used on, and what a comparison of trees ignores.\<close>

primrec printable :: "expr \<Rightarrow> bool" where
  "printable (Expr k sp nm b it bop es i) \<longleftrightarrow> expr_shape k nm b it bop es \<and> list_all (\<lambda>x. x) (map printable es)"

primrec strip :: "expr \<Rightarrow> expr" where
  "strip (Expr k sp nm b it bop es i) = Expr k default_span nm b it bop (map strip es) 0"

section \<open>Tokens of a text\<close>

inductive stream :: "lexer \<Rightarrow> (token_kind \<times> string) list \<Rightarrow> bool" where
  stream_Nil: "next_token lx = Inr (tok, lx') \<Longrightarrow> tok_kind tok = tk_eof \<Longrightarrow> lx_rest lx' = [] \<Longrightarrow> stream lx []"
| stream_Cons: "next_token lx = Inr (tok, lx') \<Longrightarrow> tok_kind tok \<noteq> tk_eof \<Longrightarrow> stream lx' ts \<Longrightarrow>
    stream lx ((tok_kind tok, tok_text tok) # ts)"

inductive_cases stream_NilE: "stream lx []"
inductive_cases stream_ConsE: "stream lx (t # ts)"

definition lexes :: "string \<Rightarrow> (token_kind \<times> string) list \<Rightarrow> bool" where
  "lexes t ts \<longleftrightarrow> (\<forall>lx. lx_rest lx = t \<longrightarrow> stream lx ts)"

definition plain :: "char \<Rightarrow> bool" where
  "plain c \<longleftrightarrow> \<not> is_space c \<and> c \<noteq> CHR ''/''"

lemma skip_plain: "lx_rest lx = c # cs \<Longrightarrow> plain c \<Longrightarrow> skip_space_and_comments lx = lx"
  by (subst skip_space_and_comments.simps) (simp add: plain_def advance_while_def peek_def)

lemma skip_Nil: "lx_rest lx = [] \<Longrightarrow> skip_space_and_comments lx = lx"
  by (subst skip_space_and_comments.simps) (simp add: advance_while_def peek_def)

lemma skip_space:
  assumes "lx_rest lx = c # cs" "is_space c"
  shows "skip_space_and_comments lx = skip_space_and_comments (advance lx)"
proof -
  have "advance_while is_space lx = advance_while is_space (advance lx)"
    using assms by (simp add: advance_while_def funpow_swap1)
  then show ?thesis
    by (subst (1 2) skip_space_and_comments.simps) simp
qed

lemma lexes_Nil: "lexes [] []"
  by (auto simp: lexes_def intro!: stream_Nil next_token_eof [OF skip_Nil] simp: token_between_def)

lemma next_token_space: "lx_rest lx = c # cs \<Longrightarrow> is_space c \<Longrightarrow> next_token lx = next_token (advance lx)"
  by (simp add: next_token_def skip_space)

lemma lexes_space: "lexes t ts \<Longrightarrow> is_space c \<Longrightarrow> lexes (c # t) ts"
  unfolding lexes_def
proof (intro allI impI)
  fix lx :: lexer assume t: "\<forall>lx. lx_rest lx = t \<longrightarrow> stream lx ts" and c: "is_space c" and lx: "lx_rest lx = c # t"
  then have "stream (advance lx) ts" by simp
  then show "stream lx ts"
    by cases (auto simp: next_token_space [OF lx c] intro: stream.intros)
qed

text \<open>One token, then the rest of the text.\<close>

lemma lexes_token:
  assumes "\<And>lx. lx_rest lx = u @ t \<Longrightarrow>
      \<exists>lx'. next_token lx = Inr (token_between k lx lx', lx') \<and> lx_rest lx' = t \<and> lx_offset lx' = lx_offset lx + length u"
    and "k \<noteq> tk_eof" "lexes t ts"
  shows "lexes (u @ t) ((k, u) # ts)"
  unfolding lexes_def
proof (intro allI impI)
  fix lx :: lexer assume lx: "lx_rest lx = u @ t"
  then obtain lx' where n: "next_token lx = Inr (token_between k lx lx', lx')" "lx_rest lx' = t"
    "lx_offset lx' = lx_offset lx + length u" using assms(1) by blast
  have "tok_text (token_between k lx lx') = u" "tok_kind (token_between k lx lx') = k"
    using n lx by (simp_all add: token_between_def)
  with stream_Cons [OF n(1)] assms(2,3) n(2) show "stream lx ((k, u) # ts)"
    by (auto simp: lexes_def)
qed

lemma name_start_plain: "is_name_start c \<Longrightarrow> plain c"
  by (auto simp: plain_def is_space_def is_name_start_def less_eq_char_def)

lemma digit_plain: "is_digit c \<Longrightarrow> plain c \<and> \<not> is_name_start c"
  by (auto simp: plain_def is_space_def is_name_start_def is_digit_def less_eq_char_def)

lemma takeWhile_prefix: "list_all p u \<Longrightarrow> (t = [] \<or> \<not> p (hd t)) \<Longrightarrow> takeWhile p (u @ t) = u \<and> dropWhile p (u @ t) = t"
  by (induction u) (cases t; simp)+

lemma lexes_name:
  assumes u: "name_lexeme u" and sep: "t = [] \<or> \<not> is_name_continue (hd t)" and t: "lexes t ts"
  shows "lexes (u @ t) ((keyword u, u) # ts)"
proof (rule lexes_token)
  fix lx :: lexer assume lx: "lx_rest lx = u @ t"
  from u obtain c cs where c: "u = c # cs" "is_name_start c" "list_all is_name_continue cs"
    by (cases u) (auto simp: name_lexeme_def)
  with lx have r: "lx_rest lx = c # (cs @ t)" by simp
  note tw = takeWhile_prefix [OF c(3) sep]
  let ?lx' = "advance_while is_name_continue (advance lx)"
  have "next_token lx = Inr (token_between (keyword u) lx ?lx', ?lx')"
    using next_token_name [OF skip_plain [OF r name_start_plain [OF c(2)]] r c(2) refl] tw c(1) by simp
  moreover have "lx_rest ?lx' = t" "lx_offset ?lx' = lx_offset lx + length u"
    using r tw c(1) by (simp_all add: offset_advance_while offset_advance)
  ultimately show "\<exists>lx'. next_token lx = Inr (token_between (keyword u) lx lx', lx') \<and> lx_rest lx' = t \<and>
      lx_offset lx' = lx_offset lx + length u" by blast
qed (use t in \<open>simp_all add: keyword_not_eof\<close>)

lemma lexes_integer:
  assumes u: "integer_lexeme u" and sep: "t = [] \<or> \<not> is_digit (hd t)" and t: "lexes t ts"
  shows "lexes (u @ t) ((tk_integer, u) # ts)"
proof (rule lexes_token)
  fix lx :: lexer assume lx: "lx_rest lx = u @ t"
  from u obtain c cs where c: "u = c # cs" "is_digit c" "list_all is_digit cs"
    by (cases u) (auto simp: integer_lexeme_def)
  with lx have r: "lx_rest lx = c # (cs @ t)" by simp
  note tw = takeWhile_prefix [OF c(3) sep] and d = digit_plain [OF c(2)]
  let ?lx' = "advance_while is_digit (advance lx)"
  have "next_token lx = Inr (token_between tk_integer lx ?lx', ?lx')"
    using next_token_integer [OF skip_plain [OF r] r _ c(2) refl] d by simp
  moreover have "lx_rest ?lx' = t" "lx_offset ?lx' = lx_offset lx + length u"
    using r tw c(1) by (simp_all add: offset_advance_while offset_advance)
  ultimately show "\<exists>lx'. next_token lx = Inr (token_between tk_integer lx lx', lx') \<and> lx_rest lx' = t \<and>
      lx_offset lx' = lx_offset lx + length u" by blast
qed (use t in simp_all)

lemma lexes_one:
  assumes c: "one_char_kind c = Some k" "plain c" "\<not> is_name_start c" "\<not> is_digit c"
    and two: "two_char_kind c (case t of [] \<Rightarrow> CHR 0x00 | d # _ \<Rightarrow> d) = None" and t: "lexes t ts"
  shows "lexes (c # t) ((k, [c]) # ts)"
proof -
  have "lexes ([c] @ t) ((k, [c]) # ts)"
  proof (rule lexes_token)
    fix lx :: lexer assume lx: "lx_rest lx = [c] @ t"
    then have r: "lx_rest lx = c # t" by simp
    have "peek 1 lx = (case t of [] \<Rightarrow> CHR 0x00 | d # _ \<Rightarrow> d)" using r by (cases t) (auto simp: peek_def)
    with two have "two_char_kind c (peek 1 lx) = None" by simp
    from next_token_one [OF skip_plain [OF r c(2)] r c(3,4) this refl] r
    show "\<exists>lx'. next_token lx = Inr (token_between k lx lx', lx') \<and> lx_rest lx' = t \<and>
        lx_offset lx' = lx_offset lx + length [c]"
      by (auto simp: c(1) offset_advance)
  qed (use t operator_kinds(2) [OF c(1)] in simp_all)
  then show ?thesis by simp
qed

lemma lexes_two:
  assumes c: "two_char_kind c d = Some k" "plain c" "\<not> is_name_start c" "\<not> is_digit c" and t: "lexes t ts"
  shows "lexes (c # d # t) ((k, [c, d]) # ts)"
proof -
  have "lexes ([c, d] @ t) ((k, [c, d]) # ts)"
  proof (rule lexes_token)
    fix lx :: lexer assume lx: "lx_rest lx = [c, d] @ t"
    then have r: "lx_rest lx = c # d # t" by simp
    have "peek 1 lx = d" using r by (simp add: peek_def)
    with c have "two_char_kind c (peek 1 lx) = Some k" by simp
    from next_token_two [OF skip_plain [OF r c(2)] r c(3,4) this refl] r
    show "\<exists>lx'. next_token lx = Inr (token_between k lx lx', lx') \<and> lx_rest lx' = t \<and>
        lx_offset lx' = lx_offset lx + length [c, d]"
      by (auto simp: offset_advance)
  qed (use t operator_kinds(1) [OF c(1)] in simp_all)
  then show ?thesis by simp
qed

section \<open>The tokens of a printed expression\<close>

primrec op_token :: "binary_op \<Rightarrow> token_kind" where
  "op_token op_equal = tk_equal_equal"
| "op_token op_greater_equal = tk_greater_equal"
| "op_token op_less_equal = tk_less_equal"
| "op_token op_logical_and = tk_logical_and"
| "op_token op_logical_or = tk_logical_or"
| "op_token op_add = tk_plus"
| "op_token op_subtract = tk_minus"

fun comma_tokens :: "(token_kind \<times> string) list list \<Rightarrow> (token_kind \<times> string) list" where
  "comma_tokens [] = []"
| "comma_tokens [t] = t"
| "comma_tokens (t # u # ts) = t @ (tk_comma, '','') # comma_tokens (u # ts)"

definition number_tokens :: "string \<Rightarrow> (token_kind \<times> string) list" where
  "number_tokens t = (if integer_lexeme t then [(tk_integer, t)] else [(tk_minus, ''-''), (tk_integer, tl t)])"

primrec expr_tokens :: "expr \<Rightarrow> (token_kind \<times> string) list" where
  "expr_tokens (Expr k sp nm b it bop es i) =
     (let toks = map expr_tokens es in
      case k of
        ek_name \<Rightarrow> [(tk_identifier, nm)]
      | ek_boolean \<Rightarrow> [if b then (tk_true_kw, ''true'') else (tk_false_kw, ''false'')]
      | ek_integer \<Rightarrow> number_tokens it
      | ek_call \<Rightarrow> [(tk_identifier, nm), (tk_left_paren, ''('')] @ comma_tokens toks @ [(tk_right_paren, '')'')]
      | ek_tuple \<Rightarrow> [(tk_left_paren, ''('')] @ comma_tokens toks @ [(tk_right_paren, '')'')]
      | ek_binary \<Rightarrow>
          [(tk_left_paren, ''('')] @ toks ! 0 @ [(op_token bop, operator_text bop)] @ toks ! 1 @ [(tk_right_paren, '')'')]
      | ek_conditional \<Rightarrow>
          [(tk_if_kw, ''if'')] @ toks ! 0 @ [(tk_left_brace, ''{'')] @ toks ! 1 @
          [(tk_right_brace, ''}''), (tk_else_kw, ''else''), (tk_left_brace, ''{'')] @ toks ! 2 @ [(tk_right_brace, ''}'')]
      | ek_hole \<Rightarrow> [(tk_question, ''?''), (tk_identifier, nm)])"

definition separated :: "string \<Rightarrow> bool" where
  "separated t \<longleftrightarrow> t = [] \<or> \<not> is_name_continue (hd t)"

lemmas char_defs = one_char_kind_def two_char_kind_def plain_def is_space_def is_name_start_def is_digit_def
  is_name_continue_def less_eq_char_def

lemma separated_simps [simp]:
  "separated (CHR ''('' # t)" "separated (CHR '')'' # t)" "separated (CHR '','' # t)" "separated (CHR '' '' # t)"
  "separated []"
  by (simp_all add: separated_def char_defs)

lemma lexes_symbols:
  "lexes t ts \<Longrightarrow> lexes (CHR ''('' # t) ((tk_left_paren, ''('') # ts)"
  "lexes t ts \<Longrightarrow> lexes (CHR '')'' # t) ((tk_right_paren, '')'') # ts)"
  "lexes t ts \<Longrightarrow> lexes (CHR ''{'' # t) ((tk_left_brace, ''{'') # ts)"
  "lexes t ts \<Longrightarrow> lexes (CHR ''}'' # t) ((tk_right_brace, ''}'') # ts)"
  "lexes t ts \<Longrightarrow> lexes (CHR '','' # t) ((tk_comma, '','') # ts)"
  "lexes t ts \<Longrightarrow> lexes (CHR ''?'' # t) ((tk_question, ''?'') # ts)"
  "lexes t ts \<Longrightarrow> lexes (CHR ''-'' # t) ((tk_minus, ''-'') # ts)"
  "lexes t ts \<Longrightarrow> lexes (CHR '' '' # t) ts"
  by (rule lexes_one lexes_space; simp add: char_defs)+

lemma lexes_operator: "lexes t ts \<Longrightarrow> lexes (operator_text bop @ t) ((op_token bop, operator_text bop) # ts)"
  by (cases bop; simp; rule lexes_one lexes_two; simp add: char_defs)

lemma lexes_word:
  assumes "name_lexeme u" "separated t" "lexes t ts" "k = keyword u"
  shows "lexes (u @ t) ((k, u) # ts)"
  using lexes_name [OF assms(1) _ assms(3)] assms(2,4) by (simp add: separated_def)

lemma keyword_lexemes:
  "name_lexeme ''true''" "keyword ''true'' = tk_true_kw"
  "name_lexeme ''false''" "keyword ''false'' = tk_false_kw"
  "name_lexeme ''if''" "keyword ''if'' = tk_if_kw"
  "name_lexeme ''else''" "keyword ''else'' = tk_else_kw"
  by (simp_all add: name_lexeme_def keyword_def char_defs)

lemmas lexes_keyword =
  lexes_word [OF keyword_lexemes(1) _ _ keyword_lexemes(2) [symmetric], simplified]
  lexes_word [OF keyword_lexemes(3) _ _ keyword_lexemes(4) [symmetric], simplified]
  lexes_word [OF keyword_lexemes(5) _ _ keyword_lexemes(6) [symmetric], simplified]
  lexes_word [OF keyword_lexemes(7) _ _ keyword_lexemes(8) [symmetric], simplified]

lemma lexes_number:
  assumes "number_lexeme it" "separated t" "lexes t ts"
  shows "lexes (it @ t) (number_tokens it @ ts)"
proof -
  have sep: "t = [] \<or> \<not> is_digit (hd t)"
    using assms(2) by (auto simp: separated_def is_name_continue_def is_digit_def)
  show ?thesis
  proof (cases "integer_lexeme it")
    case True
    then show ?thesis using lexes_integer [OF _ sep assms(3)] by (simp add: number_tokens_def)
  next
    case False
    with assms(1) obtain u where "it = CHR ''-'' # u" "integer_lexeme u"
      by (cases it) (auto simp: number_lexeme_def)
    with False lexes_integer [OF _ sep assms(3)] show ?thesis
      by (auto simp: number_tokens_def intro: lexes_symbols)
  qed
qed

lemma lexes_commas:
  assumes "\<And>e t ts. e \<in> set es \<Longrightarrow> separated t \<Longrightarrow> lexes t ts \<Longrightarrow> lexes (f e @ t) (g e @ ts)"
    and "separated t" "lexes t ts"
  shows "lexes (comma_separated (map f es) @ t) (comma_tokens (map g es) @ ts)"
  using assms
proof (induction es rule: induct_list012)
  case (3 x y zs)
  have "lexes (CHR '','' # CHR '' '' # comma_separated (map f (y # zs)) @ t)
      ((tk_comma, '','') # comma_tokens (map g (y # zs)) @ ts)"
    using 3 by (intro lexes_symbols) auto
  with 3(3) [of x] show ?case by simp
qed auto

lemma list2: "length es = 2 \<Longrightarrow> \<exists>a b. es = [a, b]"
  by (auto simp: numeral_2_eq_2 length_Suc_conv)

lemma list3: "length es = 3 \<Longrightarrow> \<exists>a b c. es = [a, b, c]"
  by (auto simp: numeral_3_eq_3 length_Suc_conv)

lemma lexes_expression:
  "printable e \<Longrightarrow> separated t \<Longrightarrow> lexes t ts \<Longrightarrow> lexes (print_expression e @ t) (expr_tokens e @ ts)"
proof (induction e arbitrary: t ts)
  case (Expr k sp nm b it bop es i)
  have IH: "lexes (print_expression e @ t) (expr_tokens e @ ts)"
    if "e \<in> set es" "separated t" "lexes t ts" for e t ts
    using Expr.IH [OF that(1) _ that(2,3)] Expr.prems(1) that(1) by (auto simp: list_all_iff)
  note commas = lexes_commas [where f = print_expression and g = expr_tokens, OF IH]
  have shape: "expr_shape k nm b it bop es" using Expr.prems(1) by simp
  note intros = lexes_symbols lexes_keyword lexes_operator lexes_word lexes_number
  show ?case
  proof (cases k)
    case ek_binary
    with shape obtain x y where es: "es = [x, y]" by (auto simp: expr_shape_def dest!: list2)
    show ?thesis using Expr.prems(2,3) by (auto simp: ek_binary es intro!: intros IH)
  next
    case ek_conditional
    with shape obtain x y z where es: "es = [x, y, z]" by (auto simp: expr_shape_def dest!: list3)
    show ?thesis using Expr.prems(2,3) by (auto simp: ek_conditional es intro!: intros IH)
  qed (use shape Expr.prems(2,3) in \<open>auto simp: expr_shape_def identifier_lexeme_def intro!: intros commas\<close>)
qed

section \<open>Parsing a list of tokens\<close>

definition kd :: "parser_state \<Rightarrow> token_kind" where
  "kd s = tok_kind (ps_current s)"

definition first_kind :: "(token_kind \<times> string) list \<Rightarrow> token_kind" where
  "first_kind ts = (case ts of [] \<Rightarrow> tk_eof | t # _ \<Rightarrow> fst t)"

text \<open>The tokens a parser state has before it, the current one first.\<close>

definition remaining :: "parser_state \<Rightarrow> (token_kind \<times> string) list \<Rightarrow> bool" where
  "remaining s ts =
     (case ts of
        [] \<Rightarrow> kd s = tk_eof \<and> lx_rest (ps_lexer s) = []
      | (k, x) # ts' \<Rightarrow> k \<noteq> tk_eof \<and> kd s = k \<and> tok_text (ps_current s) = x \<and> stream (ps_lexer s) ts')"

text \<open>\<open>run p Q s\<close>: \<open>p\<close> returns normally, and its result and final state satisfy \<open>Q\<close>.\<close>

definition run :: "'a parser \<Rightarrow> ('a \<Rightarrow> parser_state \<Rightarrow> bool) \<Rightarrow> parser_state \<Rightarrow> bool" where
  "run p Q s = (case p s of Inl _ \<Rightarrow> False | Inr (x, s') \<Rightarrow> Q x s')"

lemma first_kind_simps [simp]: "first_kind [] = tk_eof" "first_kind ((k, x) # ts) = k"
  by (simp_all add: first_kind_def)

lemma remaining_kd: "remaining s ts \<Longrightarrow> kd s = first_kind ts"
  by (auto simp: remaining_def split: list.splits)

lemma run_mono: "run p Q s \<Longrightarrow> (\<And>x s'. Q x s' \<Longrightarrow> R x s') \<Longrightarrow> run p R s"
  by (auto simp: run_def split: sum.splits prod.splits)

lemma run_bind: "run p (\<lambda>x. run (f x) Q) s \<Longrightarrow> run (bindP p f) Q s"
  by (auto simp: run_def bindP_def split: sum.splits prod.splits)

lemma run_return: "Q x s \<Longrightarrow> run (returnP x) Q s"
  by (simp add: run_def returnP_def)

lemma run_current_kind: "Q (kd s) s \<Longrightarrow> run current_kind Q s"
  by (simp add: run_def current_kind_def kd_def)

lemma run_current_token: "Q (ps_current s) s \<Longrightarrow> run current_token Q s"
  by (simp add: run_def current_token_def)

lemma run_identified:
  "remaining s ts \<Longrightarrow> (\<And>j s'. remaining s' ts \<Longrightarrow> Q (Expr k sp nm b it bop es j) s') \<Longrightarrow>
   run (identified (Expr k sp nm b it bop es i)) Q s"
proof -
  assume s: "remaining s ts" and Q: "\<And>j s'. remaining s' ts \<Longrightarrow> Q (Expr k sp nm b it bop es j) s'"
  have "remaining (s\<lparr>ps_next_node_id := Suc (ps_next_node_id s)\<rparr>) ts"
    using s by (cases ts) (auto simp: remaining_def kd_def)
  with Q show ?thesis by (simp add: run_def identified_def)
qed

lemma stream_advance:
  assumes "stream (ps_lexer s) ts"
  shows "run parser_advance (\<lambda>_ s'. remaining s' ts) s"
  using assms
  by cases (auto simp: run_def parser_advance_def remaining_def kd_def)

lemma run_advance: "remaining s ((k, x) # ts) \<Longrightarrow> (\<And>s'. remaining s' ts \<Longrightarrow> Q () s') \<Longrightarrow> run parser_advance Q s"
  by (rule run_mono [OF stream_advance]) (auto simp: remaining_def)

lemma run_take:
  assumes "remaining s ((k, x) # ts)" and Q: "\<And>tok s'. tok_text tok = x \<Longrightarrow> remaining s' ts \<Longrightarrow> Q tok s'"
  shows "run (take_token k c) Q s"
proof -
  have "kd s = k" "tok_text (ps_current s) = x" using assms(1) by (auto simp: remaining_def)
  moreover from this Q have "run (bindP parser_advance (\<lambda>_. returnP (ps_current s))) Q s"
    by (intro run_bind run_advance [OF assms(1)] run_return) blast
  ultimately show ?thesis by (simp add: run_def take_token_def kd_def)
qed

lemma run_accept:
  assumes "remaining s ((k, x) # ts)" and "\<And>s'. remaining s' ts \<Longrightarrow> Q True s'"
  shows "run (accept k) Q s"
proof -
  have "run (bindP parser_advance (\<lambda>_. returnP True)) Q s"
    by (intro run_bind run_advance [OF assms(1)] run_return assms(2))
  then show ?thesis using assms(1) by (simp add: run_def accept_def remaining_def kd_def)
qed

lemma run_reject: "kd s \<noteq> k \<Longrightarrow> Q False s \<Longrightarrow> run (accept k) Q s"
  by (simp add: run_def accept_def kd_def)

lemma run_take_eof: "remaining s [] \<Longrightarrow> (\<And>tok s'. Q tok s') \<Longrightarrow> run (take_token tk_eof c) Q s"
  using next_token_eof [OF skip_Nil]
  by (auto simp: remaining_def run_def take_token_def kd_def bindP_def parser_advance_def returnP_def)

section \<open>The operator levels\<close>

lemma accept_op_none: "kd s \<notin> fst ` set ops \<Longrightarrow> accept_op ops s = Inr (None, s)"
  by (induction ops rule: accept_op.induct) (auto simp: returnP_def bindP_def accept_def kd_def)

lemma accept_op_some:
  "remaining s ((k, x) # ts) \<Longrightarrow> map_of ops k = Some bop \<Longrightarrow> (\<And>s'. remaining s' ts \<Longrightarrow> Q (Some bop) s') \<Longrightarrow>
   run (accept_op ops) Q s"
proof (induction ops rule: accept_op.induct)
  case (2 kind bop' ops)
  show ?case
  proof (cases "kind = k")
    case True
    then show ?thesis using 2(2-) by (auto intro!: run_bind run_accept run_return)
  next
    case False
    then show ?thesis using 2 by (auto intro!: run_bind run_reject dest: remaining_kd)
  qed
qed simp

lemma operator_loop_stop: "kd s \<notin> fst ` set ops \<Longrightarrow> Q r s \<Longrightarrow> run (operator_loop (Suc m) ops operand r) Q s"
  by (simp add: run_def bindP_def accept_op_none returnP_def)

lemma level_stop:
  assumes "run operand Q s" "\<And>x s'. Q x s' \<Longrightarrow> kd s' \<notin> fst ` set ops" "0 < n"
  shows "run (operator_level n ops operand) Q s"
proof -
  obtain m where "n = Suc m" using assms(3) by (cases n) auto
  then show ?thesis unfolding operator_level_def
    by (intro run_bind run_mono [OF assms(1)]) (auto intro!: operator_loop_stop simp del: operator_loop.simps dest: assms(2))
qed

text \<open>The result of parsing a printed expression.\<close>

definition parsed :: "expr \<Rightarrow> (token_kind \<times> string) list \<Rightarrow> expr \<Rightarrow> parser_state \<Rightarrow> bool" where
  "parsed e ts x s \<longleftrightarrow> strip x = strip e \<and> remaining s ts"

lemma level_once:
  assumes l: "run operand (parsed l ((k, t) # rs)) s" and k: "map_of ops k = Some bop"
    and r: "\<And>s'. remaining s' rs \<Longrightarrow> run operand (parsed r ts) s'"
    and stop: "first_kind ts \<notin> fst ` set ops" and n: "2 \<le> n" and e: "e = Expr ek_binary sp [] False [] bop [l, r] i"
  shows "run (operator_level n ops operand) (parsed e ts) s"
proof -
  obtain m where m: "n = Suc (Suc m)" using n by (cases n) (auto simp: Suc_le_eq gr0_conv_Suc)
  have step: "run (binary bop x y) (\<lambda>z. run (operator_loop (Suc m) ops operand z) (parsed e ts)) s'"
    if "strip x = strip l" "strip y = strip r" "remaining s' ts" for x y s'
    unfolding binary_def using that stop
    by (intro run_identified [OF that(3)] operator_loop_stop) (auto simp: parsed_def e remaining_kd)
  have "run (operator_loop n ops operand x) (parsed e ts) s'" if "parsed l ((k, t) # rs) x s'" for x s'
    unfolding m
  proof (subst operator_loop.simps(2), intro run_bind accept_op_some [OF _ k])
    show "remaining s' ((k, t) # rs)" using that by (simp add: parsed_def)
    fix s1 assume "remaining s1 rs"
    then show "run (case Some bop of None \<Rightarrow> returnP x | Some bop \<Rightarrow> bindP operand (\<lambda>right.
        bindP (binary bop x right) (\<lambda>result'. operator_loop (Suc m) ops operand result'))) (parsed e ts) s1"
      using that unfolding option.case
      by (intro run_bind run_mono [OF r] step) (auto simp: parsed_def)
  qed
  then show ?thesis unfolding operator_level_def by (intro run_bind run_mono [OF l])
qed

definition operator_kinds_or :: "token_kind set" where
  "operator_kinds_or =
     {tk_plus, tk_minus, tk_greater_equal, tk_less_equal, tk_equal_equal, tk_logical_and, tk_logical_or}"

lemmas level_defs = additive_def relational_def equality_def logical_and_def logical_or_def

lemma levels_stop:
  assumes "run p Q s" "0 < n" "\<And>x s'. Q x s' \<Longrightarrow> kd s' \<notin> K"
  shows "{tk_plus, tk_minus} \<subseteq> K \<Longrightarrow> run (additive n p) Q s"
    and "{tk_plus, tk_minus, tk_greater_equal, tk_less_equal} \<subseteq> K \<Longrightarrow> run (relational n p) Q s"
    and "{tk_plus, tk_minus, tk_greater_equal, tk_less_equal, tk_equal_equal} \<subseteq> K \<Longrightarrow> run (equality n p) Q s"
    and "{tk_plus, tk_minus, tk_greater_equal, tk_less_equal, tk_equal_equal, tk_logical_and} \<subseteq> K \<Longrightarrow>
      run (logical_and n p) Q s"
    and "operator_kinds_or \<subseteq> K \<Longrightarrow> run (logical_or n p) Q s"
  unfolding level_defs operator_kinds_or_def
  by ((intro level_stop assms(1,2); auto dest!: assms(3))+)

lemma levels_once:
  assumes l: "run p (parsed l ((op_token bop, t) # rs)) s"
    and r: "\<And>s'. remaining s' rs \<Longrightarrow> run p (parsed r ts) s'"
    and stop: "first_kind ts \<notin> operator_kinds_or" and n: "2 \<le> n"
    and e: "e = Expr ek_binary sp [] False [] bop [l, r] i"
  shows "run (logical_or n p) (parsed e ts) s"
proof -
  have n0: "0 < n" using n by simp
  have kl: "kd s' = op_token bop" if "parsed l ((op_token bop, t) # rs) x s'" for x s'
    using that by (auto simp: parsed_def dest: remaining_kd)
  have kr: "kd s' \<notin> operator_kinds_or" if "parsed x ts y s'" for x y s'
    using that stop by (auto simp: parsed_def dest: remaining_kd)
  note sl = levels_stop [OF l n0, of "- {op_token bop}"] and sr = levels_stop [OF r n0, of _ operator_kinds_or]
  have stop_at: "run q (parsed e ts) s \<Longrightarrow> set (map fst ops) \<subseteq> operator_kinds_or \<Longrightarrow>
      run (operator_level n ops q) (parsed e ts) s" for ops q
    by (rule level_stop [OF _ _ n0]) (use kr in auto)
  note once = level_once [OF _ _ _ _ n e, of _ "op_token bop" t rs]
  show ?thesis
  proof (cases bop)
    case op_add
    then show ?thesis unfolding level_defs
      by (intro stop_at once l r) (use stop in \<open>auto simp: operator_kinds_or_def\<close>)
  next
    case op_subtract
    then show ?thesis unfolding level_defs
      by (intro stop_at once l r) (use stop in \<open>auto simp: operator_kinds_or_def\<close>)
  next
    case op_greater_equal
    then show ?thesis unfolding logical_or_def logical_and_def equality_def relational_def
      by (intro stop_at once sl(1) sr(1)) (use stop kl kr in \<open>auto simp: operator_kinds_or_def\<close>)
  next
    case op_less_equal
    then show ?thesis unfolding logical_or_def logical_and_def equality_def relational_def
      by (intro stop_at once sl(1) sr(1)) (use stop kl kr in \<open>auto simp: operator_kinds_or_def\<close>)
  next
    case op_equal
    then show ?thesis unfolding logical_or_def logical_and_def equality_def
      by (intro stop_at once sl(2) sr(2)) (use stop kl kr in \<open>auto simp: operator_kinds_or_def\<close>)
  next
    case op_logical_and
    then show ?thesis unfolding logical_or_def logical_and_def
      by (intro stop_at once sl(3) sr(3)) (use stop kl kr in \<open>auto simp: operator_kinds_or_def\<close>)
  next
    case op_logical_or
    then show ?thesis unfolding logical_or_def
      by (intro once sl(4) sr(4)) (use stop kl kr in \<open>auto simp: operator_kinds_or_def\<close>)
  qed
qed

section \<open>Primary expressions\<close>

text \<open>The tokens that follow a printed expression.\<close>

definition ends :: "(token_kind \<times> string) list \<Rightarrow> bool" where
  "ends ts \<longleftrightarrow> first_kind ts \<in> {tk_eof, tk_comma, tk_right_paren, tk_left_brace, tk_right_brace}"

definition parses :: "expr parser \<Rightarrow> expr \<Rightarrow> bool" where
  "parses p e \<longleftrightarrow> (\<forall>s ts. remaining s (expr_tokens e @ ts) \<longrightarrow> ends ts \<longrightarrow> run p (parsed e ts) s)"

lemma parsesD: "parses p e \<Longrightarrow> remaining s (expr_tokens e @ ts) \<Longrightarrow> ends ts \<Longrightarrow> run p (parsed e ts) s"
  by (simp add: parses_def)

lemma expr_tokens_first:
  "first_kind (expr_tokens e @ ts) \<in>
     {tk_identifier, tk_true_kw, tk_false_kw, tk_integer, tk_minus, tk_left_paren, tk_if_kw, tk_question}"
proof (cases e)
  case (Expr k sp nm b it bop es i)
  then show ?thesis by (cases k) (simp_all add: number_tokens_def Let_def)
qed

lemma comma_tokens_Cons: "comma_tokens (t # ts) = t @ concat (map (\<lambda>u. (tk_comma, '','') # u) ts)"
  by (induction ts arbitrary: t) simp_all

lemma run_comma_or:
  "run item (\<lambda>y. run (bindP (accept tk_comma) (\<lambda>found. bindP current_kind (\<lambda>k.
     if \<not> found \<and> k \<noteq> close then parse_fail m else returnP y))) Q) s \<Longrightarrow> run (comma_or close m item) Q s"
  unfolding comma_or_def by (rule run_bind)

lemma arguments_run:
  assumes "\<And>e. e \<in> set es \<Longrightarrow> parses p e" "length es < n"
    and "remaining s (comma_tokens (map expr_tokens es) @ (tk_right_paren, x) # ts)"
    and Q: "\<And>xs s'. map strip xs = map strip es \<Longrightarrow> remaining s' ((tk_right_paren, x) # ts) \<Longrightarrow> Q xs s'"
  shows "run (loop_until n tk_right_paren (comma_or tk_right_paren m p)) Q s"
  using assms
proof (induction es arbitrary: n s Q)
  case Nil
  then have "kd s = tk_right_paren" by (simp add: remaining_kd)
  with Nil show ?case by (cases n) (auto intro!: run_bind run_current_kind run_return)
next
  case (Cons e es)
  obtain n' where n: "n = Suc n'" using Cons.prems(2) by (cases n) auto
  have kd: "kd s \<noteq> tk_right_paren"
    using remaining_kd [OF Cons.prems(3)] expr_tokens_first [of e]
    by (simp add: comma_tokens_Cons) (metis token_kind.distinct)
  let ?rest = "(if es = [] then [] else (tk_comma, '','') # comma_tokens (map expr_tokens es)) @ (tk_right_paren, x) # ts"
  have rem: "remaining s (expr_tokens e @ ?rest)"
    using Cons.prems(3) by (cases es) (simp_all add: comma_tokens_Cons)
  have e: "run p (parsed e ?rest) s"
    using Cons.prems(1) by (intro parsesD [OF _ rem]) (auto simp: ends_def)
  have tail: "run (loop_until n' tk_right_paren (comma_or tk_right_paren m p)) (\<lambda>ys. run (returnP (y # ys)) Q) s1"
    if "strip y = strip e" "remaining s1 (comma_tokens (map expr_tokens es) @ (tk_right_paren, x) # ts)" for y s1
    using Cons.prems(1,2) n that
    by (intro Cons.IH that(2)) (auto intro!: run_return Cons.prems(4))
  have "run (bindP (accept tk_comma) (\<lambda>found. bindP current_kind (\<lambda>k.
      if \<not> found \<and> k \<noteq> tk_right_paren then parse_fail m else returnP y)))
      (\<lambda>y. run (bindP (loop_until n' tk_right_paren (comma_or tk_right_paren m p)) (\<lambda>ys. returnP (y # ys))) Q) s1"
    if "parsed e ?rest y s1" for y s1
  proof (cases "es = []")
    case True
    with that have "remaining s1 ((tk_right_paren, x) # ts)" "kd s1 = tk_right_paren" "strip y = strip e"
      by (auto simp: parsed_def dest: remaining_kd)
    with tail [of y s1] True show ?thesis
      by (intro run_bind run_reject run_current_kind) (auto intro!: run_bind run_return)
  next
    case False
    with that have "remaining s1 ((tk_comma, '','') # comma_tokens (map expr_tokens es) @ (tk_right_paren, x) # ts)"
      "strip y = strip e" by (auto simp: parsed_def)
    with tail [of y] show ?thesis
      by (intro run_bind run_accept run_current_kind) (auto intro!: run_bind run_return)
  qed
  note item = run_comma_or [OF run_mono [OF e this]]
  show ?case unfolding n loop_until.simps(2)
    by (rule run_bind, rule run_current_kind) (simp only: kd if_False, rule run_bind [OF item])
qed

lemma run_parses:
  "remaining s (expr_tokens e @ ts) \<Longrightarrow> parses p e \<Longrightarrow> ends ts \<Longrightarrow>
   (\<And>x s'. strip x = strip e \<Longrightarrow> remaining s' ts \<Longrightarrow> Q x s') \<Longrightarrow> run p Q s"
  by (rule run_mono [OF parsesD]) (auto simp: parsed_def)

lemma more_elements_run:
  assumes "\<And>e. e \<in> set es \<Longrightarrow> parses p e" "length es < n"
    and "remaining s (concat (map (\<lambda>e. (tk_comma, '','') # expr_tokens e) es) @ (tk_right_paren, x) # ts)"
    and "\<And>xs s'. map strip xs = map strip es \<Longrightarrow> remaining s' ((tk_right_paren, x) # ts) \<Longrightarrow> Q xs s'"
  shows "run (more_elements n p) Q s"
  using assms
proof (induction es arbitrary: n s Q)
  case Nil
  then have "kd s = tk_right_paren" by (simp add: remaining_kd)
  with Nil show ?case by (cases n) (auto intro!: run_bind run_reject run_return)
next
  case (Cons e es)
  obtain n' where n: "n = Suc n'" using Cons.prems(2) by (cases n) auto
  let ?rest = "concat (map (\<lambda>e. (tk_comma, '','') # expr_tokens e) es) @ (tk_right_paren, x) # ts"
  have ends: "ends ?rest" by (cases es) (auto simp: ends_def)
  have "run (bindP current_kind (\<lambda>k. if k = tk_right_paren then returnP [] else bindP p (\<lambda>x.
      bindP (more_elements n' p) (\<lambda>xs. returnP (x # xs))))) Q s1" if s1: "remaining s1 (expr_tokens e @ ?rest)" for s1
  proof -
    have "kd s1 \<noteq> tk_right_paren" using remaining_kd [OF s1] expr_tokens_first [of e ?rest] by auto
    moreover have "run p (\<lambda>x. run (bindP (more_elements n' p) (\<lambda>xs. returnP (x # xs))) Q) s1"
      using Cons.prems(1,2,4) n
      by (intro run_parses [OF s1 _ ends] run_bind Cons.IH) (auto intro!: run_return Cons.prems(4))
    ultimately show ?thesis by (intro run_bind run_current_kind) (auto intro!: run_bind)
  qed
  then show ?case unfolding n more_elements.simps(2) using Cons.prems(3)
    by (intro run_bind run_accept [where ts = "expr_tokens e @ ?rest"]) auto
qed

lemma print_nonempty: "printable e \<Longrightarrow> print_expression e \<noteq> []"
proof (cases e)
  case (Expr k sp nm b it bop es i)
  assume "printable e"
  with Expr show ?thesis
    by (cases k) (auto simp: expr_shape_def identifier_lexeme_def name_lexeme_def number_lexeme_def
        integer_lexeme_def Let_def)
qed

lemma comma_separated_length:
  "(\<And>t. t \<in> set texts \<Longrightarrow> t \<noteq> []) \<Longrightarrow> length texts \<le> length (comma_separated texts)"
proof (induction texts rule: comma_separated.induct)
  case (2 t)
  then show ?case by (cases t) auto
qed auto

lemma comma_separated_member: "t \<in> set texts \<Longrightarrow> length t \<le> length (comma_separated texts)"
  by (induction texts rule: comma_separated.induct) auto

definition primary_parses :: "nat \<Rightarrow> expr \<Rightarrow> bool" where
  "primary_parses n e \<longleftrightarrow>
     (\<forall>s ts. remaining s (expr_tokens e @ ts) \<longrightarrow> first_kind ts \<noteq> tk_left_paren \<longrightarrow>
        run (primary n (parse_expr n)) (parsed e ts) s)"

lemma primary_parses_expr:
  assumes "primary_parses m e" "0 < m"
  shows "parses (parse_expr (Suc m)) e"
  unfolding parses_def
proof (intro allI impI)
  fix s ts assume s: "remaining s (expr_tokens e @ ts)" and ends: "ends ts"
  then have p: "run (primary m (parse_expr m)) (parsed e ts) s"
    using assms(1) by (auto simp: primary_parses_def ends_def)
  have "kd s' \<notin> operator_kinds_or" if "parsed e ts x s'" for x s'
    using that ends by (auto simp: parsed_def ends_def operator_kinds_or_def dest!: remaining_kd)
  then show "run (parse_expr (Suc m)) (parsed e ts) s"
    unfolding parse_expr.simps by (intro levels_stop(5) [OF p assms(2), where K = operator_kinds_or]) auto
qed

lemma parsed_binary:
  assumes "primary_parses m l" "primary_parses m r" "2 \<le> m" "ends ts"
    and e: "e = Expr ek_binary sp [] False [] bop [l, r] i"
    and s: "remaining s (expr_tokens l @ (op_token bop, t) # expr_tokens r @ ts)"
  shows "run (parse_expr (Suc m)) (parsed e ts) s"
  unfolding parse_expr.simps
proof (rule levels_once [where l = l and r = r and t = t and rs = "expr_tokens r @ ts"])
  show "run (primary m (parse_expr m)) (parsed l ((op_token bop, t) # expr_tokens r @ ts)) s"
    using assms(1) s by (cases bop) (auto simp: primary_parses_def)
  show "run (primary m (parse_expr m)) (parsed r ts) s'" if "remaining s' (expr_tokens r @ ts)" for s'
    using assms(2,4) that by (auto simp: primary_parses_def ends_def)
  show "first_kind ts \<notin> operator_kinds_or" using assms(4) by (auto simp: ends_def operator_kinds_or_def)
qed (use assms(3) e in auto)

text \<open>The branches of \<open>primary\<close>, by the first token.\<close>

lemma primary_name:
  assumes s: "remaining s ((tk_identifier, nm) # ts)" and ts: "first_kind ts \<noteq> tk_left_paren"
    and e: "e = Expr ek_name sp nm False [] op_equal [] i"
  shows "run (primary n rec) (parsed e ts) s"
  unfolding primary_def
  by (rule run_bind, rule run_current_kind)
    (simp add: remaining_kd [OF s], rule run_bind, rule run_take [OF s], rule run_bind, rule run_reject,
     simp add: remaining_kd ts, simp, erule run_identified, simp add: parsed_def e)

lemma primary_hole:
  assumes s: "remaining s ((tk_question, ''?'') # (tk_identifier, nm) # ts)"
    and e: "e = Expr ek_hole sp nm False [] op_equal [] i"
  shows "run (primary n rec) (parsed e ts) s"
  unfolding primary_def
  by (rule run_bind, rule run_current_kind)
    (simp add: remaining_kd [OF s], rule run_bind, rule run_take [OF s], rule run_bind, erule run_take,
     erule run_identified, simp add: parsed_def e)

lemma primary_boolean:
  assumes s: "remaining s ((if b then (tk_true_kw, ''true'') else (tk_false_kw, ''false'')) # ts)"
    and e: "e = Expr ek_boolean sp [] b [] op_equal [] i"
  shows "run (primary n rec) (parsed e ts) s"
proof -
  obtain k x where s': "remaining s ((k, x) # ts)" and k: "k = (if b then tk_true_kw else tk_false_kw)"
    using s by (cases b) auto
  have kind: "tok_kind (ps_current s) = tk_true_kw \<longleftrightarrow> b" using s' k by (auto simp: remaining_def kd_def)
  show ?thesis unfolding primary_def
    by (rule run_bind, rule run_current_kind)
      (simp add: remaining_kd [OF s'] k, rule run_bind, rule run_current_token, rule run_bind, rule run_advance [OF s'],
       erule run_identified, simp add: parsed_def e kind)
qed

lemma primary_integer:
  assumes s: "remaining s (number_tokens it @ ts)" and it: "number_lexeme it"
    and e: "e = Expr ek_integer sp [] False it op_equal [] i"
  shows "run (primary n rec) (parsed e ts) s"
proof (cases "integer_lexeme it")
  case True
  with s have s': "remaining s ((tk_integer, it) # ts)" by (simp add: number_tokens_def)
  show ?thesis unfolding primary_def
    by (rule run_bind, rule run_current_kind)
      (simp add: remaining_kd [OF s'], rule run_bind, rule run_take [OF s'], erule run_identified, simp add: parsed_def e)
next
  case False
  with s have s': "remaining s ((tk_minus, ''-'') # (tk_integer, tl it) # ts)" by (simp add: number_tokens_def)
  have minus: "it = CHR ''-'' # tl it" using it False by (cases it) (auto simp: number_lexeme_def)
  show ?thesis unfolding primary_def
    by (rule run_bind, rule run_current_kind)
      (simp add: remaining_kd [OF s'], rule run_bind, rule run_take [OF s'], rule run_bind, erule run_take,
       erule run_identified, simp add: parsed_def e minus [symmetric])
qed

lemma primary_call:
  assumes s: "remaining s ((tk_identifier, nm) # (tk_left_paren, ''('') # comma_tokens (map expr_tokens es) @
      (tk_right_paren, '')'') # ts)"
    and es: "\<And>e. e \<in> set es \<Longrightarrow> parses rec e" "length es < n"
    and e: "e = Expr ek_call sp nm False [] op_equal es i"
  shows "run (primary n rec) (parsed e ts) s"
  unfolding primary_def
  by (rule run_bind, rule run_current_kind)
    (simp add: remaining_kd [OF s], rule run_bind, rule run_take [OF s], rule run_bind, erule run_accept, simp,
     rule run_bind, rule arguments_run [OF es], assumption, assumption, rule run_bind, erule run_take,
     erule run_identified, simp add: parsed_def e)

lemma primary_group:
  assumes s: "remaining s ((tk_left_paren, ''('') # us)"
    and inner: "\<And>s'. remaining s' us \<Longrightarrow> run rec (parsed e ((tk_right_paren, '')'') # ts)) s'"
  shows "run (primary n rec) (parsed e ts) s"
proof -
  have close: "run (bindP (accept tk_comma) (\<lambda>comma. if \<not> comma
       then bindP (take_token tk_right_paren ''to close the grouped expression'') (\<lambda>_. returnP x) else q))
     (parsed e ts) s'" if "parsed e ((tk_right_paren, '')'') # ts) x s'" for x s' q
  proof -
    have "remaining s' ((tk_right_paren, '')'') # ts)" "strip x = strip e" "kd s' = tk_right_paren"
      using that by (auto simp: parsed_def dest: remaining_kd)
    then show ?thesis
      by (intro run_bind run_reject) (auto intro!: run_bind run_take run_return simp: parsed_def)
  qed
  show ?thesis unfolding primary_def
    by (rule run_bind, rule run_current_kind)
      (simp add: remaining_kd [OF s], rule run_bind, rule run_take [OF s], rule run_bind, rule run_mono [OF inner],
       assumption, erule close [simplified])
qed

lemma primary_tuple:
  assumes s: "remaining s ((tk_left_paren, ''('') # comma_tokens (map expr_tokens (a # b # es)) @ (tk_right_paren, '')'') # ts)"
    and es: "\<And>e. e \<in> set (a # b # es) \<Longrightarrow> parses rec e" "length es < n"
    and e: "e = Expr ek_tuple sp [] False [] op_equal (a # b # es) i"
  shows "run (primary n rec) (parsed e ts) s"
proof -
  let ?rest = "concat (map (\<lambda>e. (tk_comma, '','') # expr_tokens e) es) @ (tk_right_paren, '')'') # ts"
  have ends: "ends ?rest" by (cases es) (auto simp: ends_def)
  have s': "remaining s ((tk_left_paren, ''('') # expr_tokens a @ (tk_comma, '','') # expr_tokens b @ ?rest)"
    using s by (simp add: comma_tokens_Cons comp_def)
  show ?thesis unfolding primary_def
    by (rule run_bind, rule run_current_kind)
      (simp add: remaining_kd [OF s'], rule run_bind, rule run_take [OF s'], rule run_bind, erule run_parses,
       simp add: es(1), simp add: ends_def, rule run_bind, erule run_accept, simp, rule run_bind, erule run_parses,
       simp add: es(1), rule ends, rule run_bind, rule more_elements_run [of es], simp add: es(1), rule es(2),
       assumption, rule run_bind, erule run_take, erule run_identified, simp add: parsed_def e)
qed

lemma primary_if:
  assumes s: "remaining s ((tk_if_kw, ''if'') # expr_tokens a @ (tk_left_brace, ''{'') # expr_tokens b @
      (tk_right_brace, ''}'') # (tk_else_kw, ''else'') # (tk_left_brace, ''{'') # expr_tokens c @
      (tk_right_brace, ''}'') # ts)"
    and es: "\<And>e. e \<in> set [a, b, c] \<Longrightarrow> parses rec e"
    and e: "e = Expr ek_conditional sp [] False [] op_equal [a, b, c] i"
  shows "run (primary n rec) (parsed e ts) s"
  unfolding primary_def
  by (rule run_bind, rule run_current_kind)
    (simp add: remaining_kd [OF s], rule run_bind, rule run_take [OF s],
     rule run_bind, erule run_parses, simp add: es, simp add: ends_def, rule run_bind, erule run_take,
     rule run_bind, erule run_parses, simp add: es, simp add: ends_def, rule run_bind, erule run_take,
     rule run_bind, erule run_take, rule run_bind, erule run_take,
     rule run_bind, erule run_parses, simp add: es, simp add: ends_def, rule run_bind, erule run_take,
     erule run_identified, simp add: parsed_def e)

section \<open>The round trip\<close>

lemma printed_length_child:
  assumes "expr_shape k nm b it bop es" "e \<in> set es"
  shows "length (print_expression e) + 2 \<le> length (print_expression (Expr k sp nm b it bop es i))"
proof -
  have "length (print_expression e) \<le> length (comma_separated (map print_expression es))"
    using assms(2) by (intro comma_separated_member) auto
  with assms show ?thesis
    by (cases k) (auto simp: expr_shape_def Let_def dest!: list2 list3)
qed

text \<open>Every printed expression is a primary expression, and fuel equal to the length of its text is
  enough to parse it as one.\<close>

lemma primary_run:
  assumes "printable e" "length (print_expression e) \<le> n"
  shows "primary_parses n e"
  using assms
proof (induction e arbitrary: n)
  case (Expr k sp nm b it bop es i)
  let ?e = "Expr k sp nm b it bop es i"
  have shape: "expr_shape k nm b it bop es" and all: "\<And>e. e \<in> set es \<Longrightarrow> printable e"
    using Expr.prems(1) by (auto simp: list_all_iff)
  have len: "length (print_expression e) + 2 \<le> n" if "e \<in> set es" for e
    using printed_length_child [OF shape that, of sp i] Expr.prems(2) by simp
  have child: "primary_parses (n - 1) e" if "e \<in> set es" for e
    using Expr.IH [OF that all [OF that]] len [OF that] by simp
  have sub: "parses (parse_expr n) e" if "e \<in> set es" for e
    using primary_parses_expr [OF child [OF that]] len [OF that] by (cases n) auto
  have count: "length es \<le> length (comma_separated (map print_expression es))"
    by (rule comma_separated_length [of "map print_expression es", simplified]) (use print_nonempty all in auto)
  have "run (primary n (parse_expr n)) (parsed ?e ts) s"
    if s: "remaining s (expr_tokens ?e @ ts)" and ts: "first_kind ts \<noteq> tk_left_paren" for s ts
  proof (cases k)
    case ek_binary
    with shape obtain l r where es: "es = [l, r]" by (auto simp: expr_shape_def dest!: list2)
    have n: "n = Suc (n - 1)" "2 \<le> n - 1" using Expr.prems(2) by (auto simp: ek_binary es Let_def)
    have "run (parse_expr n) (parsed ?e ((tk_right_paren, '')'') # ts)) s'"
      if "remaining s' (expr_tokens l @ (op_token bop, operator_text bop) # expr_tokens r @ (tk_right_paren, '')'') # ts)" for s'
      by (subst n(1), rule parsed_binary [OF child child n(2) _ _ that])
        (use shape in \<open>auto simp: es ends_def expr_shape_def ek_binary\<close>)
    then show ?thesis using s by (intro primary_group) (auto simp: ek_binary es Let_def)
  next
    case ek_conditional
    with shape obtain x y z where es: "es = [x, y, z]" by (auto simp: expr_shape_def dest!: list3)
    show ?thesis
      by (rule primary_if [of _ x y z]) (use s shape sub in \<open>auto simp: ek_conditional es Let_def expr_shape_def\<close>)
  next
    case ek_tuple
    with shape obtain x y zs where es: "es = x # y # zs"
      by (cases es; cases "tl es") (auto simp: expr_shape_def)
    have "length zs < n" using count Expr.prems(2) by (auto simp: ek_tuple es Let_def)
    with s shape sub show ?thesis
      by (intro primary_tuple [of _ x y zs]) (auto simp: ek_tuple es Let_def expr_shape_def)
  next
    case ek_call
    have "length es < n" using count Expr.prems(2) by (auto simp: ek_call Let_def)
    with s shape sub show ?thesis by (intro primary_call) (auto simp: ek_call Let_def expr_shape_def)
  qed (use s ts shape in \<open>auto simp: expr_shape_def intro: primary_name primary_boolean primary_integer primary_hole\<close>)
  then show ?case by (simp only: primary_parses_def) blast
qed

lemma stream_expression: "printable e \<Longrightarrow> stream (mk_lexer (print_expression e)) (expr_tokens e)"
  using lexes_expression [OF _ separated_simps(5) lexes_Nil, of e] by (simp add: lexes_def mk_lexer_def)

lemma parse_print_expression:
  assumes "printable e"
  shows "\<exists>e'. parse_expression (print_expression e) = Inr e' \<and> strip e' = strip e"
proof -
  let ?src = "print_expression e"
  have "primary_parses (length ?src + 1) e" by (rule primary_run [OF assms]) simp
  from primary_parses_expr [OF this] have p: "parses (parse_expr (parse_fuel ?src)) e"
    by (simp add: parse_fuel_def)
  have "run (expression_document (parse_fuel ?src)) (\<lambda>x _. strip x = strip e) s"
    if "remaining s (expr_tokens e)" for s
    unfolding expression_document_def
    by (rule run_bind, rule run_parses [OF _ p, of _ "[]"], simp add: that, simp add: ends_def)
      (rule run_bind, erule run_take_eof, erule run_return)
  then have "run (bindP parser_advance (\<lambda>_. expression_document (parse_fuel ?src))) (\<lambda>x _. strip x = strip e) (mk_parser ?src)"
    using stream_expression [OF assms]
    by (intro run_bind run_mono [OF stream_advance]) (auto simp: mk_parser_def)
  then show ?thesis
    by (auto simp: run_def parse_expression_def split: sum.splits)
qed

lemma wf_expr_printable: "wf_expr src e \<Longrightarrow> printable e"
  by (induction e) (auto simp: list_all_iff)

end
