(* ===== verification/Fine_Source.thy ===== *)
theory Fine_Source
  imports Fine_Prelude "HOL-Library.Word"
begin

unbundle bit_operations_syntax

text \<open>
  \<^verbatim>\<open>src/src/fine/source.h\<close> and \<^verbatim>\<open>source.cpp\<close>: the SHA-256 digest that binds a trace to the exact
  bytes it was made from, and the source snapshot.  \<^verbatim>\<open>std::uint32_t\<close> and \<^verbatim>\<open>std::uint64_t\<close> are words
  of 32 and 64 bits, so that the additions wrap as they do in the code.  The random part of a
  document identity is a parameter.
\<close>

section \<open>The digest as the code computes it\<close>

definition sha_constants :: "32 word list" where
  "sha_constants = concat
    [[0x428a2f98, 0x71374491, 0xb5c0fbcf, 0xe9b5dba5, 0x3956c25b, 0x59f111f1, 0x923f82a4, 0xab1c5ed5],
     [0xd807aa98, 0x12835b01, 0x243185be, 0x550c7dc3, 0x72be5d74, 0x80deb1fe, 0x9bdc06a7, 0xc19bf174],
     [0xe49b69c1, 0xefbe4786, 0x0fc19dc6, 0x240ca1cc, 0x2de92c6f, 0x4a7484aa, 0x5cb0a9dc, 0x76f988da],
     [0x983e5152, 0xa831c66d, 0xb00327c8, 0xbf597fc7, 0xc6e00bf3, 0xd5a79147, 0x06ca6351, 0x14292967],
     [0x27b70a85, 0x2e1b2138, 0x4d2c6dfc, 0x53380d13, 0x650a7354, 0x766a0abb, 0x81c2c92e, 0x92722c85],
     [0xa2bfe8a1, 0xa81a664b, 0xc24b8b70, 0xc76c51a3, 0xd192e819, 0xd6990624, 0xf40e3585, 0x106aa070],
     [0x19a4c116, 0x1e376c08, 0x2748774c, 0x34b0bcb5, 0x391c0cb3, 0x4ed8aa4a, 0x5b9cca4f, 0x682e6ff3],
     [0x748f82ee, 0x78a5636f, 0x84c87814, 0x8cc70208, 0x90befffa, 0xa4506ceb, 0xbef9a3f7, 0xc67178f2]]"

definition rotate_right :: "32 word \<Rightarrow> nat \<Rightarrow> 32 word" where
  "rotate_right value' count' = drop_bit count' value' OR push_bit (32 - count') value'"

definition sha_initial :: "32 word list" where
  "sha_initial =
    [0x6a09e667, 0xbb67ae85, 0x3c6ef372, 0xa54ff53a, 0x510e527f, 0x9b05688c, 0x1f83d9ab, 0x5be0cd19]"

text \<open>\<^verbatim>\<open>while (padded % 64 != 56) ++padded;\<close>\<close>

function pad_up :: "nat \<Rightarrow> nat" where
  "pad_up padded = (if padded mod 64 \<noteq> 56 then pad_up (Suc padded) else padded)"
  by pat_completeness auto
termination
proof (relation "measure (\<lambda>p. if p mod 64 \<le> 56 then 56 - p mod 64 else 120 - p mod 64)")
  fix p :: nat
  assume "p mod 64 \<noteq> 56"
  moreover have "p mod 64 < 64" by simp
  moreover have "Suc p mod 64 = (if p mod 64 = 63 then 0 else Suc (p mod 64))" by (simp add: mod_Suc)
  ultimately show "(Suc p, p) \<in> measure (\<lambda>p. if p mod 64 \<le> 56 then 56 - p mod 64 else 120 - p mod 64)"
    by (cases "p mod 64 \<le> 55") (simp_all, arith+)
qed simp

declare pad_up.simps [simp del]

definition length_bytes :: "nat \<Rightarrow> 8 word list" where
  "length_bytes size' =
     (let bits = (of_nat size' :: 64 word) * 8
      in map (\<lambda>shift. ucast (drop_bit shift bits AND 0xff)) [56, 48, 40, 32, 24, 16, 8, 0])"

definition padded_bytes :: "8 word list \<Rightarrow> 8 word list" where
  "padded_bytes source =
     source @ [0x80] @ replicate (pad_up (length source + 1) - (length source + 1)) 0 @ length_bytes (length source)"

definition block_word :: "8 word list \<Rightarrow> nat \<Rightarrow> 32 word" where
  "block_word bytes i =
     (let at = (\<lambda>offset. ucast (bytes ! (4 * i + offset)) :: 32 word)
      in push_bit 24 (at 0) OR push_bit 16 (at 1) OR push_bit 8 (at 2) OR at 3)"

definition schedule_step :: "32 word list \<Rightarrow> nat \<Rightarrow> 32 word list" where
  "schedule_step words i =
     (let s0 = rotate_right (words ! (i - 15)) 7 XOR rotate_right (words ! (i - 15)) 18 XOR drop_bit 3 (words ! (i - 15));
          s1 = rotate_right (words ! (i - 2)) 17 XOR rotate_right (words ! (i - 2)) 19 XOR drop_bit 10 (words ! (i - 2))
      in words[i := words ! (i - 16) + s0 + words ! (i - 7) + s1])"

definition schedule :: "8 word list \<Rightarrow> 32 word list" where
  "schedule block =
     foldl schedule_step (map (block_word block) [0..<16] @ replicate 48 0) [16..<64]"

fun sha_round :: "32 word list \<Rightarrow> 32 word list \<Rightarrow> nat \<Rightarrow> 32 word list" where
  "sha_round words [a, b, c, d, e, f, g, h] i =
     (let sum1 = rotate_right e 6 XOR rotate_right e 11 XOR rotate_right e 25;
          choose' = (e AND f) XOR (NOT e AND g);
          temp1 = h + sum1 + choose' + sha_constants ! i + words ! i;
          sum0 = rotate_right a 2 XOR rotate_right a 13 XOR rotate_right a 22;
          majority = (a AND b) XOR (a AND c) XOR (b AND c);
          temp2 = sum0 + majority
      in [temp1 + temp2, a, b, c, d + temp1, e, f, g])"
| "sha_round words state i = state"

definition sha_block :: "32 word list \<Rightarrow> 8 word list \<Rightarrow> 32 word list" where
  "sha_block state block = map2 (+) state (foldl (sha_round (schedule block)) state [0..<64])"

text \<open>\<^verbatim>\<open>for (block = 0; block < bytes.size(); block += 64)\<close>\<close>

function sha_blocks :: "32 word list \<Rightarrow> 8 word list \<Rightarrow> 32 word list" where
  "sha_blocks state bytes =
     (if bytes = [] then state else sha_blocks (sha_block state (take 64 bytes)) (drop 64 bytes))"
  by pat_completeness auto
termination
  by (relation "measure (length \<circ> snd)") auto

declare sha_blocks.simps [simp del]

definition string_bytes :: "string \<Rightarrow> 8 word list" where
  "string_bytes source = map (\<lambda>c. of_nat (of_char c)) source"

definition sha256 :: "string \<Rightarrow> string" where
  "sha256 source =
     ''sha256:'' @ concat (map (\<lambda>w. hex_text 8 (unat w)) (sha_blocks sha_initial (padded_bytes (string_bytes source))))"

definition exact_content_hash :: "string \<Rightarrow> string" where
  "exact_content_hash source = sha256 source"

section \<open>Source snapshots\<close>

record source_snapshot =
  sn_document_id :: string
  sn_revision :: nat
  sn_exact_source_hash :: string
  sn_byte_length :: nat
  sn_display_name :: string

text \<open>\<open>tick\<close>, \<open>pid\<close> and \<open>random\<close> are the clock, the process identity and the random device.\<close>

definition fresh_document_id :: "64 word \<Rightarrow> 32 word \<Rightarrow> 32 word list \<Rightarrow> string" where
  "fresh_document_id tick pid random =
     ''document:'' @ hex_text 16 (unat tick) @ hex_text 8 (unat pid) @ concat (map (\<lambda>w. hex_text 8 (unat w)) (take 4 random))"

definition make_source_snapshot :: "string \<Rightarrow> string \<Rightarrow> string \<Rightarrow> nat \<Rightarrow> string \<Rightarrow> source_snapshot" where
  "make_source_snapshot fresh display_name source revision document_id =
     \<lparr>sn_document_id = (if document_id = [] then fresh else document_id), sn_revision = revision,
      sn_exact_source_hash = exact_content_hash source, sn_byte_length = length source, sn_display_name = display_name\<rparr>"

end
