(* ===== verification/Fine_Source_Props.thy ===== *)
theory Fine_Source_Props
  imports Fine_Source
begin

unbundle bit_operations_syntax

text \<open>
  The digest of \<open>Fine_Source\<close> against the functions of the Secure Hash Standard, the padding, and the
  shape of the text it returns.
\<close>

section \<open>The reference functions\<close>
















lemma sha_round_length [simp]: "length (sha_round ws s i) = length s"
  by (cases "(ws, s, i)" rule: sha_round.cases) (auto simp: Let_def)



lemma sha_rounds_length [simp]: "length (foldl (sha_round ws) s is) = length s"
  by (induction "is" arbitrary: s) simp_all

lemma sha_block_length: "length s = 8 \<Longrightarrow> length (sha_block s block) = 8"
  by (simp add: sha_block_def)

lemma sha_blocks_length: "length s = 8 \<Longrightarrow> length (sha_blocks s bytes) = 8"
  by (induction s bytes rule: sha_blocks.induct) (subst sha_blocks.simps, simp add: sha_block_length)

section \<open>The text of a digest\<close>

lemma sha256_shape_aux:
  "\<exists>digits. sha256 source = ''sha256:'' @ digits \<and> length digits = 64 \<and> set digits \<subseteq> set ''0123456789abcdef''"
proof -
  define ws where "ws = sha_blocks sha_initial (padded_bytes (string_bytes source))"
  have "length ws = 8" unfolding ws_def by (rule sha_blocks_length) (simp add: sha_initial_def)
  then have "length (concat (map (\<lambda>w. hex_text 8 (unat w)) ws)) = 64" by (simp add: length_concat o_def sum_list_triv)
  moreover have "set (concat (map (\<lambda>w. hex_text 8 (unat w)) ws)) \<subseteq> set ''0123456789abcdef''"
    using hex_text_set by (simp add: UN_least)
  ultimately show ?thesis unfolding sha256_def ws_def by blast
qed

section \<open>Padding\<close>

lemma pad_up_spec: "n \<le> pad_up n \<and> pad_up n mod 64 = 56 \<and> pad_up n < n + 64"
proof -
  have "n \<le> pad_up n \<and> pad_up n mod 64 = 56 \<and> (\<forall>k. n \<le> k \<longrightarrow> k < pad_up n \<longrightarrow> k mod 64 \<noteq> 56)"
  proof (induction n rule: pad_up.induct)
    case (1 n)
    show ?case
    proof (cases "n mod 64 = 56")
      case True
      then show ?thesis by (subst (1 2 3) pad_up.simps) auto
    next
      case False
      moreover from this have "pad_up n = pad_up (Suc n)" by (subst pad_up.simps) simp
      ultimately show ?thesis using 1 by (metis Suc_leD Suc_leI le_neq_implies_less)
    qed
  qed
  moreover obtain k where "n \<le> k" "k < n + 64" "k mod 64 = 56"
  proof -
    define r where "r = n mod 64"
    have r: "r < 64" "n = 64 * (n div 64) + r" by (simp_all add: r_def)
    let ?k = "if r \<le> 56 then 64 * (n div 64) + 56 else 64 * (n div 64) + 120"
    have "n \<le> ?k" "?k < n + 64" "?k mod 64 = 56" using r by (auto simp: mod_add_left_eq [symmetric])
    then show ?thesis by (rule that)
  qed
  ultimately show ?thesis by (metis leI order.strict_trans1)
qed

lemma length_bytes_length [simp]: "length (length_bytes n) = 8"
  by (simp add: length_bytes_def Let_def)

lemma padded_bytes_length: "length (padded_bytes s) mod 64 = 0 \<and> length s + 9 \<le> length (padded_bytes s) \<and>
    length (padded_bytes s) < length s + 73"
proof -
  have p: "length s + 1 \<le> pad_up (length s + 1)" "pad_up (length s + 1) mod 64 = 56" "pad_up (length s + 1) < length s + 1 + 64"
    using pad_up_spec [of "length s + 1"] by blast+
  have l: "length (padded_bytes s) = pad_up (length s + 1) + 8" using p(1) by (simp add: padded_bytes_def)
  have "(pad_up (length s + 1) + 8) mod 64 = 0" using p(2) by (metis mod_add_left_eq numeral_plus_numeral add_num_simps mod_self)
  then show ?thesis using p l by simp
qed

lemma below_eight: "j < 8 \<Longrightarrow> j \<in> {0, 1, 2, 3, 4, 5, 6, 7 :: nat}"
  by (simp only: insert_iff empty_iff) arith

lemma byte_slices:
  fixes v w :: "64 word"
  assumes "\<forall>k\<in>{0, 8, 16, 24, 32, 40, 48, 56}. (ucast (drop_bit k v AND 0xff) :: 8 word) = ucast (drop_bit k w AND 0xff)"
  shows "v = w"
proof (rule bit_word_eqI)
  fix i assume "i < LENGTH(64)"
  then have i: "i < 64" by simp
  define k where "k = 8 * (i div 8)"
  have "i div 8 < 8" using i by (simp add: less_mult_imp_div_less)
  then have "k \<in> {0, 8, 16, 24, 32, 40, 48, 56}" using below_eight [of "i div 8"] by (auto simp: k_def)
  with assms have eq: "(ucast (drop_bit k v AND 0xff) :: 8 word) = ucast (drop_bit k w AND 0xff)" by blast
  have m: "(0xff :: 64 word) = mask 8" by (simp add: mask_eq_exp_minus_1)
  have "i mod 8 < 64" using mod_less_divisor [of 8 i] by linarith
  then have "bit (ucast (drop_bit k u AND 0xff) :: 8 word) (i mod 8) = bit u i" for u :: "64 word"
    unfolding m by (simp add: bit_ucast_iff bit_and_iff bit_mask_iff bit_drop_bit_eq k_def)
  with eq show "bit v i = bit w i" by metis
qed

lemma length_bytes_inject:
  assumes "m < 2 ^ 61" "n < 2 ^ 61" "length_bytes m = length_bytes n"
  shows "m = n"
proof -
  have "(of_nat m :: 64 word) * 8 = of_nat n * 8"
    by (rule byte_slices) (use assms(3) in \<open>simp add: length_bytes_def Let_def\<close>)
  then have "unat (of_nat (m * 8) :: 64 word) = unat (of_nat (n * 8) :: 64 word)" by simp
  then have "m * 8 = n * 8" using assms(1,2) by (simp add: unat_of_nat del: of_nat_mult)
  then show ?thesis by simp
qed

lemma padded_bytes_inject:
  assumes "length s < 2 ^ 61" "length t < 2 ^ 61" "padded_bytes s = padded_bytes t"
  shows "s = t"
proof -
  have "length_bytes (length s) = length_bytes (length t)"
    using assms(3) unfolding padded_bytes_def by (simp only: append_assoc [symmetric]) (subst (asm) append_eq_append_conv; simp)
  then have "length s = length t" using assms by (intro length_bytes_inject)
  moreover have "take (length s) (padded_bytes s) = s" "take (length t) (padded_bytes t) = t" by (simp_all add: padded_bytes_def)
  ultimately show ?thesis using assms(3) by metis
qed

section \<open>Properties\<close>




text \<open>C24: a digest is the text \<open>sha256:\<close> and 64 lower-case hexadecimal digits.\<close>

theorem content_hash_shape:
  "\<exists>digits. exact_content_hash source = ''sha256:'' @ digits \<and> length digits = 64 \<and> set digits \<subseteq> set ''0123456789abcdef''"
  unfolding exact_content_hash_def by (rule sha256_shape_aux)

text \<open>C25: padding loses nothing. Two messages below \<open>2 ^ 61\<close> bytes with the same padded bytes are the same
  message, and the padded bytes are whole blocks.\<close>

theorem padding_injective:
  assumes "length s < 2 ^ 61" "length t < 2 ^ 61"
  shows "(padded_bytes s = padded_bytes t \<longleftrightarrow> s = t) \<and> 64 dvd length (padded_bytes s)"
  using padded_bytes_inject [OF assms] padded_bytes_length [of s] by auto

theorem padding_injective_witness: "padded_bytes [0x61] \<noteq> padded_bytes [0x61, 0] \<and> 64 dvd length (padded_bytes [0x61])"
  using padding_injective [of "[0x61]" "[0x61, 0]"] by simp

end
