(* ===== verification/Fine_Effects.thy ===== *)
theory Fine_Effects
  imports Fine_Prelude
begin

text \<open>
  Code with effects: an action takes a state and returns a result or an exception together with the
  next state.  An exception keeps the effects that came before it, as in the C++ code, where an
  output that was written and a member that was changed stay so when an exception leaves a function.
  The second half is the calculus in which the components state and prove what an action does:
  \<open>vcA p Q E s\<close> says that \<open>p\<close> run in \<open>s\<close> returns with \<open>Q\<close> or throws with \<open>E\<close>.
\<close>

section \<open>Actions\<close>

type_synonym ('s, 'e, 'a) action = "'s \<Rightarrow> ('e + 'a) \<times> 's"

definition retA :: "'a \<Rightarrow> ('s, 'e, 'a) action" where
  "retA x s = (Inr x, s)"

definition throwA :: "'e \<Rightarrow> ('s, 'e, 'a) action" where
  "throwA e s = (Inl e, s)"

definition bindA :: "('s, 'e, 'a) action \<Rightarrow> ('a \<Rightarrow> ('s, 'e, 'b) action) \<Rightarrow> ('s, 'e, 'b) action" where
  "bindA p f s = (case p s of (Inl e, s') \<Rightarrow> (Inl e, s') | (Inr x, s') \<Rightarrow> f x s')"

definition thenA :: "('s, 'e, 'a) action \<Rightarrow> ('s, 'e, 'b) action \<Rightarrow> ('s, 'e, 'b) action" where
  "thenA p q = bindA p (\<lambda>_. q)"

definition getA :: "('s \<Rightarrow> 'a) \<Rightarrow> ('s, 'e, 'a) action" where
  "getA f s = (Inr (f s), s)"

definition modifyA :: "('s \<Rightarrow> 's) \<Rightarrow> ('s, 'e, unit) action" where
  "modifyA f s = (Inr (), f s)"

definition resultA :: "'e + 'a \<Rightarrow> ('s, 'e, 'a) action" where
  "resultA r s = (r, s)"

definition whenA :: "bool \<Rightarrow> ('s, 'e, unit) action \<Rightarrow> ('s, 'e, unit) action" where
  "whenA b p = (if b then p else retA ())"

text \<open>\<^verbatim>\<open>if (b) throw e;\<close>\<close>

definition guardA :: "bool \<Rightarrow> 'e \<Rightarrow> ('s, 'e, unit) action" where
  "guardA b e = (if b then retA () else throwA e)"

primrec mapA :: "('a \<Rightarrow> ('s, 'e, 'b) action) \<Rightarrow> 'a list \<Rightarrow> ('s, 'e, 'b list) action" where
  "mapA f [] = retA []"
| "mapA f (x # xs) = bindA (f x) (\<lambda>y. bindA (mapA f xs) (\<lambda>ys. retA (y # ys)))"

text \<open>A loop that carries a value from one round to the next.\<close>

primrec foldA :: "('b \<Rightarrow> 'a \<Rightarrow> ('s, 'e, 'b) action) \<Rightarrow> 'b \<Rightarrow> 'a list \<Rightarrow> ('s, 'e, 'b) action" where
  "foldA f b [] = retA b"
| "foldA f b (x # xs) = bindA (f b x) (\<lambda>b. foldA f b xs)"

definition forA :: "'a list \<Rightarrow> ('a \<Rightarrow> ('s, 'e, unit) action) \<Rightarrow> ('s, 'e, unit) action" where
  "forA xs f = foldA (\<lambda>_. f) () xs"

lemma mapA_cong [fundef_cong]:
  assumes "xs = ys" "\<And>x. x \<in> set ys \<Longrightarrow> f x = g x"
  shows "mapA f xs = mapA g ys"
proof -
  have "(\<And>x. x \<in> set ys \<Longrightarrow> f x = g x) \<Longrightarrow> mapA f ys = mapA g ys" by (induction ys) simp_all
  with assms show ?thesis by simp
qed

lemma foldA_cong [fundef_cong]:
  assumes "b = c" "xs = ys" "\<And>a x. x \<in> set ys \<Longrightarrow> f a x = g a x"
  shows "foldA f b xs = foldA g c ys"
proof -
  have "(\<And>a x. x \<in> set ys \<Longrightarrow> f a x = g a x) \<Longrightarrow> foldA f c ys = foldA g c ys" for c
    by (induction ys arbitrary: c) simp_all
  with assms show ?thesis by simp
qed

lemma forA_cong [fundef_cong]:
  assumes "xs = ys" "\<And>x. x \<in> set ys \<Longrightarrow> f x = g x"
  shows "forA xs f = forA ys g"
  unfolding forA_def by (rule foldA_cong) (use assms in auto)

lemmas action_code [code] =
  bindA_def thenA_def [THEN fun_cong] whenA_def [THEN fun_cong] guardA_def [THEN fun_cong]
  mapA.simps [THEN fun_cong] foldA.simps [THEN fun_cong] forA_def [THEN fun_cong]

section \<open>What an action does\<close>

named_theorems act_rule

definition vcA :: "('s, 'e, 'a) action \<Rightarrow> ('a \<Rightarrow> 's \<Rightarrow> bool) \<Rightarrow> ('e \<Rightarrow> 's \<Rightarrow> bool) \<Rightarrow> 's \<Rightarrow> bool" where
  "vcA p Q E s \<longleftrightarrow> (case p s of (Inr x, s') \<Rightarrow> Q x s' | (Inl e, s') \<Rightarrow> E e s')"

lemma vcA_mono:
  "vcA p Q E s \<Longrightarrow> (\<And>x s'. Q x s' \<Longrightarrow> Q' x s') \<Longrightarrow> (\<And>e s'. E e s' \<Longrightarrow> E' e s') \<Longrightarrow> vcA p Q' E' s"
  by (auto simp: vcA_def split: prod.splits sum.splits)

lemma vcA_returns: "vcA p Q (\<lambda>_ _. False) s \<Longrightarrow> \<exists>x s'. p s = (Inr x, s') \<and> Q x s'"
  by (auto simp: vcA_def split: sum.splits prod.splits) (metis obj_sumE surj_pair)

lemma vcA_Inr: "vcA p Q E s \<Longrightarrow> p s = (Inr x, s') \<Longrightarrow> Q x s'"
  by (simp add: vcA_def)

lemma vcA_Inl: "vcA p Q E s \<Longrightarrow> p s = (Inl e, s') \<Longrightarrow> E e s'"
  by (simp add: vcA_def)

lemma vcA_bind [act_rule]: "vcA p (\<lambda>x. vcA (f x) Q E) E s \<Longrightarrow> vcA (bindA p f) Q E s"
  by (auto simp: vcA_def bindA_def split: prod.splits sum.splits)

lemma vcA_then [act_rule]: "vcA p (\<lambda>_. vcA q Q E) E s \<Longrightarrow> vcA (thenA p q) Q E s"
  unfolding thenA_def by (rule vcA_bind)

lemma vcA_ret [act_rule]: "Q x s \<Longrightarrow> vcA (retA x) Q E s"
  by (simp add: vcA_def retA_def)

lemma vcA_throw [act_rule]: "E e s \<Longrightarrow> vcA (throwA e) Q E s"
  by (simp add: vcA_def throwA_def)

lemma vcA_get [act_rule]: "Q (f s) s \<Longrightarrow> vcA (getA f) Q E s"
  by (simp add: vcA_def getA_def)

lemma vcA_modify [act_rule]: "Q () (f s) \<Longrightarrow> vcA (modifyA f) Q E s"
  by (simp add: vcA_def modifyA_def)

lemma vcA_result [act_rule]: "(\<And>x. r = Inr x \<Longrightarrow> Q x s) \<Longrightarrow> (\<And>e. r = Inl e \<Longrightarrow> E e s) \<Longrightarrow> vcA (resultA r) Q E s"
  by (cases r) (simp_all add: vcA_def resultA_def)

lemma vcA_when [act_rule]: "(b \<Longrightarrow> vcA p Q E s) \<Longrightarrow> (\<not> b \<Longrightarrow> Q () s) \<Longrightarrow> vcA (whenA b p) Q E s"
  by (simp add: whenA_def vcA_ret)

lemma vcA_guard [act_rule]: "(b \<Longrightarrow> Q () s) \<Longrightarrow> (\<not> b \<Longrightarrow> E e s) \<Longrightarrow> vcA (guardA b e) Q E s"
  by (simp add: guardA_def vcA_ret vcA_throw)

lemma vcA_if [act_rule]: "(b \<Longrightarrow> vcA p Q E s) \<Longrightarrow> (\<not> b \<Longrightarrow> vcA q Q E s) \<Longrightarrow> vcA (if b then p else q) Q E s"
  by simp

lemma vcA_option [act_rule]:
  "(x = None \<Longrightarrow> vcA p Q E s) \<Longrightarrow> (\<And>y. x = Some y \<Longrightarrow> vcA (q y) Q E s) \<Longrightarrow> vcA (case x of None \<Rightarrow> p | Some y \<Rightarrow> q y) Q E s"
  by (cases x) simp_all

lemma vcA_prod [act_rule]: "(\<And>y z. x = (y, z) \<Longrightarrow> vcA (f y z) Q E s) \<Longrightarrow> vcA (case x of (y, z) \<Rightarrow> f y z) Q E s"
  by (cases x) simp

lemma vcA_let [act_rule]: "(\<And>y. y = x \<Longrightarrow> vcA (f y) Q E s) \<Longrightarrow> vcA (let y = x in f y) Q E s"
  by (simp add: Let_def)

text \<open>Loops: a relation between the elements seen so far, the value carried and the state.\<close>

lemma vcA_fold_step:
  assumes "\<And>ys x zs b s. xs = ys @ x # zs \<Longrightarrow> I ys b s \<Longrightarrow> vcA (f b x) (I (ys @ [x])) E s"
    and "I [] b s" and "\<And>b s. I xs b s \<Longrightarrow> Q b s"
  shows "vcA (foldA f b xs) Q E s"
proof -
  have "vcA (foldA f b zs) Q E s" if "xs = ys @ zs" "I ys b s" for ys zs b s
    using that
  proof (induction zs arbitrary: ys b s)
    case Nil
    then show ?case using assms(3) by (simp add: vcA_ret)
  next
    case (Cons x zs)
    have "vcA (f b x) (\<lambda>b. vcA (foldA f b zs) Q E) E s"
      using assms(1) [OF Cons.prems] by (rule vcA_mono) (use Cons in auto)
    then show ?case by (simp add: vcA_bind)
  qed
  from this [of "[]" xs] assms(2) show ?thesis by simp
qed

lemma vcA_fold:
  assumes "\<And>x b s. x \<in> set xs \<Longrightarrow> I b s \<Longrightarrow> vcA (f b x) I E s" and "I b s" and "\<And>b s. I b s \<Longrightarrow> Q b s"
  shows "vcA (foldA f b xs) Q E s"
  by (rule vcA_fold_step [where I = "\<lambda>_. I"]) (use assms in auto)

lemma vcA_for:
  assumes "\<And>x s. x \<in> set xs \<Longrightarrow> I s \<Longrightarrow> vcA (f x) (\<lambda>_. I) E s" and "I s" and "\<And>s. I s \<Longrightarrow> Q () s"
  shows "vcA (forA xs f) Q E s"
  unfolding forA_def by (rule vcA_fold [where I = "\<lambda>_. I"]) (use assms in auto)

lemma vcA_map:
  assumes "\<And>x s. x \<in> set xs \<Longrightarrow> I s \<Longrightarrow> vcA (f x) (\<lambda>y s. P x y \<and> I s) E s" and "I s"
    and "\<And>ys s. list_all2 P xs ys \<Longrightarrow> I s \<Longrightarrow> Q ys s"
  shows "vcA (mapA f xs) Q E s"
  using assms
proof (induction xs arbitrary: s Q)
  case Nil
  then show ?case by (simp add: vcA_ret)
next
  case (Cons x xs)
  have tail: "vcA (mapA f xs) (\<lambda>ys. vcA (retA (y # ys)) Q E) E s'" if "P x y" "I s'" for y s'
    using Cons.prems that by (intro Cons.IH vcA_ret) auto
  have "vcA (f x) (\<lambda>y. vcA (bindA (mapA f xs) (\<lambda>ys. retA (y # ys))) Q E) E s"
    by (rule vcA_mono [OF Cons.prems(1) [of x s]]) (auto simp: Cons.prems(2) intro!: vcA_bind tail)
  then show ?case by (simp add: vcA_bind)
qed

section \<open>Actions that keep an invariant\<close>

text \<open>The contract that the operations of a component share: an operation run in a state with the
  invariant ends in a state with the invariant, or throws in a state with a weaker one, and the state
  only grows.  The rules below compose operations that keep the contract.\<close>

locale action_invariant =
  fixes inv :: "'s \<Rightarrow> bool" and weak :: "'s \<Rightarrow> bool" and le :: "'s \<Rightarrow> 's \<Rightarrow> bool"
  assumes le_refl: "le s s" and le_trans: "le s t \<Longrightarrow> le t u \<Longrightarrow> le s u" and inv_weak: "inv s \<Longrightarrow> weak s"
begin

definition keeps :: "('s, 'e, 'a) action \<Rightarrow> bool" where
  "keeps p \<longleftrightarrow> (\<forall>s. inv s \<longrightarrow> vcA p (\<lambda>_ s'. inv s' \<and> le s s') (\<lambda>_ s'. weak s' \<and> le s s') s)"

lemma keepsI:
  "(\<And>s. inv s \<Longrightarrow> vcA p (\<lambda>_ s'. inv s' \<and> le s s') (\<lambda>_ s'. weak s' \<and> le s s') s) \<Longrightarrow> keeps p"
  by (simp add: keeps_def)

lemma keepsD: "keeps p \<Longrightarrow> inv s \<Longrightarrow> vcA p (\<lambda>_ s'. inv s' \<and> le s s') (\<lambda>_ s'. weak s' \<and> le s s') s"
  by (simp add: keeps_def)

lemma keeps_use:
  assumes "keeps p" "inv s" "\<And>x s'. inv s' \<Longrightarrow> le s s' \<Longrightarrow> Q x s'" "\<And>e s'. weak s' \<Longrightarrow> le s s' \<Longrightarrow> E e s'"
  shows "vcA p Q E s"
  by (rule vcA_mono [OF keepsD [OF assms(1,2)]]) (use assms(3,4) in auto)

lemma keeps_ret: "keeps (retA x)"
  by (intro keepsI act_rule) (simp add: le_refl)

lemma keeps_throw: "keeps (throwA e)"
  by (intro keepsI act_rule) (simp add: le_refl inv_weak)

lemma keeps_get: "keeps (getA f)"
  by (intro keepsI act_rule) (simp add: le_refl)

lemma keeps_result: "keeps (resultA r)"
  by (intro keepsI act_rule) (simp_all add: le_refl inv_weak)

lemma keeps_modify: "(\<And>s. inv s \<Longrightarrow> inv (f s) \<and> le s (f s)) \<Longrightarrow> keeps (modifyA f)"
  by (intro keepsI act_rule) simp

lemma keeps_bind: "keeps p \<Longrightarrow> (\<And>x. keeps (f x)) \<Longrightarrow> keeps (bindA p f)"
  by (intro keepsI vcA_bind, rule keeps_use, assumption, assumption, rule vcA_mono [OF keepsD])
    (auto intro: le_trans)

lemma keeps_then: "keeps p \<Longrightarrow> keeps q \<Longrightarrow> keeps (thenA p q)"
  unfolding thenA_def by (rule keeps_bind)

lemma keeps_when: "keeps p \<Longrightarrow> keeps (whenA b p)"
  by (simp add: whenA_def keeps_ret)

lemma keeps_guard: "keeps (guardA b e)"
  by (simp add: guardA_def keeps_ret keeps_throw)

lemma keeps_if: "keeps p \<Longrightarrow> keeps q \<Longrightarrow> keeps (if b then p else q)"
  by simp

lemma keeps_option: "keeps p \<Longrightarrow> (\<And>y. keeps (q y)) \<Longrightarrow> keeps (case x of None \<Rightarrow> p | Some y \<Rightarrow> q y)"
  by (cases x) simp_all

lemma keeps_prod: "(\<And>y z. keeps (f y z)) \<Longrightarrow> keeps (case x of (y, z) \<Rightarrow> f y z)"
  by (cases x) simp

lemma keeps_let: "(\<And>y. keeps (f y)) \<Longrightarrow> keeps (let y = x in f y)"
  by (simp add: Let_def)

lemma keeps_map: "(\<And>x. x \<in> set xs \<Longrightarrow> keeps (f x)) \<Longrightarrow> keeps (mapA f xs)"
  by (induction xs) (auto intro!: keeps_ret keeps_bind)

lemma keeps_fold: "(\<And>b x. x \<in> set xs \<Longrightarrow> keeps (f b x)) \<Longrightarrow> keeps (foldA f b xs)"
  by (induction xs arbitrary: b) (auto intro!: keeps_ret keeps_bind)

lemma keeps_for: "(\<And>x. x \<in> set xs \<Longrightarrow> keeps (f x)) \<Longrightarrow> keeps (forA xs f)"
  unfolding forA_def by (rule keeps_fold)

lemmas keeps_rules = keeps_ret keeps_throw keeps_get keeps_result keeps_bind keeps_then keeps_when keeps_guard
  keeps_if keeps_option keeps_prod keeps_let keeps_map keeps_fold keeps_for

end

end
