(* ===== verification/Rainfall_Lift.thy ===== *)
theory Rainfall_Lift
  imports Fine_Prelude
begin

text \<open>
  The generated Fine syntax for Z3 terms of \<^verbatim>\<open>src/src/fine/rainfall_lift.cpp\<close>: the printer with its
  registry of aliases, and the lexer and parser that read the text back.

  Z3 terms are a datatype: the manager shares equal terms, so that identity of Z3 terms
  (\<^verbatim>\<open>Z3_is_eq_ast\<close>) is structural equality.  Sorts and declarations are opaque values of the
  types \<open>'s\<close> and \<open>'d\<close>; what the code asks the Z3 API about them is the record \<open>z3_api\<close>.
\<close>

section \<open>Z3 terms and the part of the API the code uses\<close>

datatype z3_symbol = SymNull | SymInt nat | SymStr string

datatype quantifier_kind = QForall | QExists | QLambda

datatype ('s, 'd) z3_expr =
    ZNumeral string 's
  | ZApp 'd "('s, 'd) z3_expr list"
  | ZVar nat 's
  | ZQuant quantifier_kind nat z3_symbol z3_symbol "(z3_symbol \<times> 's) list"
      "('s, 'd) z3_expr" "('s, 'd) z3_expr list list" "('s, 'd) z3_expr list"

datatype decl_kind =
    OP_TRUE | OP_FALSE | OP_EQ | OP_DISTINCT | OP_ITE | OP_AND | OP_OR | OP_IFF | OP_XOR | OP_NOT
  | OP_IMPLIES | OP_OEQ | OP_LE | OP_GE | OP_LT | OP_GT | OP_ADD | OP_SUB | OP_UMINUS | OP_MUL | OP_DIV
  | OP_IDIV | OP_REM | OP_MOD | OP_TO_REAL | OP_TO_INT | OP_IS_INT | OP_POWER | OP_ABS | OP_STORE
  | OP_SELECT | OP_CONST_ARRAY | OP_ARRAY_DEFAULT | OP_OTHER nat

text \<open>Parameters of a declaration; \<open>ParamDouble\<close>, \<open>ParamRational\<close> and \<open>ParamAst\<close> carry the text the API
  or the stream prints for them.\<close>

datatype ('s, 'd) decl_parameter =
    ParamInt int | ParamDouble string | ParamRational string | ParamSymbol z3_symbol
  | ParamSort 's | ParamAst string | ParamFuncDecl 'd | ParamInternal | ParamZString

record ('s, 'd) z3_api =
  api_sort_to_string :: "'s \<Rightarrow> string"
  api_sort_kind :: "'s \<Rightarrow> nat"
  api_sort_id :: "'s \<Rightarrow> nat"
  api_decl_name :: "'d \<Rightarrow> z3_symbol"
  api_decl_kind :: "'d \<Rightarrow> decl_kind"
  api_decl_kind_number :: "'d \<Rightarrow> nat"
  api_decl_parameters :: "'d \<Rightarrow> ('s, 'd) decl_parameter list"
  api_decl_to_string :: "'d \<Rightarrow> string"
  api_decl_id :: "'d \<Rightarrow> nat"
  api_domain :: "'d \<Rightarrow> 's list"
  api_range :: "'d \<Rightarrow> 's"
  api_mk_numeral :: "string \<Rightarrow> 's \<Rightarrow> ('s, 'd) z3_expr option"
  api_mk_app :: "'d \<Rightarrow> ('s, 'd) z3_expr list \<Rightarrow> ('s, 'd) z3_expr option"
  api_mk_quantifier :: "bool \<Rightarrow> nat \<Rightarrow> z3_symbol \<Rightarrow> z3_symbol \<Rightarrow> (z3_symbol \<times> 's) list \<Rightarrow> ('s, 'd) z3_expr \<Rightarrow>
    ('s, 'd) z3_expr list list \<Rightarrow> ('s, 'd) z3_expr list \<Rightarrow> ('s, 'd) z3_expr option"
  api_mk_lambda :: "(z3_symbol \<times> 's) list \<Rightarrow> ('s, 'd) z3_expr \<Rightarrow> ('s, 'd) z3_expr option"

section \<open>Text\<close>

definition is_alpha_char :: "char \<Rightarrow> bool" where
  "is_alpha_char c \<longleftrightarrow> (CHR ''a'' \<le> c \<and> c \<le> CHR ''z'') \<or> (CHR ''A'' \<le> c \<and> c \<le> CHR ''Z'')"

definition is_alnum_char :: "char \<Rightarrow> bool" where
  "is_alnum_char c \<longleftrightarrow> is_alpha_char c \<or> is_digit c"

definition is_space_char :: "char \<Rightarrow> bool" where
  "is_space_char c \<longleftrightarrow> c = CHR '' '' \<or> CHR 0x09 \<le> c \<and> c \<le> CHR 0x0D"

definition quote_char :: "char \<Rightarrow> string" where
  "quote_char c =
     (if c = CHR 0x22 then [CHR 0x5C, CHR 0x22]
      else if c = CHR 0x5C then [CHR 0x5C, CHR 0x5C]
      else if c = CHR 0x0A then [CHR 0x5C, CHR ''n'']
      else if c = CHR 0x0D then [CHR 0x5C, CHR ''r'']
      else if c = CHR 0x09 then [CHR 0x5C, CHR ''t'']
      else if c < CHR 0x20
           then [CHR 0x5C, CHR ''u'', CHR ''0'', CHR ''0'', hex_digit (of_char c div 16), hex_digit (of_char c mod 16)]
      else [c])"

definition json_quote :: "string \<Rightarrow> string" where
  "json_quote text = [CHR 0x22] @ concat (map quote_char text) @ [CHR 0x22]"

definition string_quote :: "string \<Rightarrow> string" where
  "string_quote text = json_quote text"

definition int_to_string :: "int \<Rightarrow> string" where
  "int_to_string i = (if i < 0 then ''-'' @ nat_to_string (nat (- i)) else nat_to_string (nat i))"

primrec symbol_text :: "z3_symbol \<Rightarrow> string" where
  "symbol_text SymNull = ''<null>''"
| "symbol_text (SymInt n) = nat_to_string n"
| "symbol_text (SymStr s) = s"

definition symbol_syntax :: "z3_symbol \<Rightarrow> string" where
  "symbol_syntax symbol =
     (case symbol of
        SymNull \<Rightarrow> ''n''
      | SymInt n \<Rightarrow> ''i('' @ nat_to_string n @ '')''
      | SymStr _ \<Rightarrow> ''s('' @ string_quote (symbol_text symbol) @ '')'')"

definition sanitize_step :: "string \<times> bool \<Rightarrow> char \<Rightarrow> string \<times> bool" where
  "sanitize_step state c =
     (case state of (result, previous_underscore) \<Rightarrow>
        if is_alnum_char c \<or> c = CHR ''_'' then (result @ [c], c = CHR ''_'')
        else if \<not> previous_underscore then (result @ ''_'', True)
        else (result, previous_underscore))"

function pop_underscores :: "nat \<Rightarrow> string \<Rightarrow> string" where
  "pop_underscores n result =
     (if n < length result \<and> last result = CHR ''_'' then pop_underscores n (butlast result) else result)"
  by pat_completeness auto
termination
  by (relation "measure (length \<circ> snd)") auto

declare pop_underscores.simps [simp del]

definition sanitize :: "string \<Rightarrow> string \<Rightarrow> string" where
  "sanitize text prefix =
     (let (result, _) = foldl sanitize_step (prefix, prefix \<noteq> [] \<and> last prefix = CHR ''_'') text;
          result = pop_underscores (length prefix) result
      in if result = prefix then result @ ''anonymous'' else result)"

section \<open>Aliases\<close>

definition declaration_base :: "('s, 'd) z3_api \<Rightarrow> 'd \<Rightarrow> string \<Rightarrow> string" where
  "declaration_base api declaration symbol =
     (case api_decl_kind api declaration of
        OP_TRUE \<Rightarrow> ''true'' | OP_FALSE \<Rightarrow> ''false'' | OP_EQ \<Rightarrow> ''equal'' | OP_DISTINCT \<Rightarrow> ''distinct''
      | OP_ITE \<Rightarrow> ''if'' | OP_AND \<Rightarrow> ''and'' | OP_OR \<Rightarrow> ''or'' | OP_IFF \<Rightarrow> ''iff'' | OP_XOR \<Rightarrow> ''xor''
      | OP_NOT \<Rightarrow> ''not'' | OP_IMPLIES \<Rightarrow> ''implies'' | OP_OEQ \<Rightarrow> ''observational_equal''
      | OP_LE \<Rightarrow> ''less_equal'' | OP_GE \<Rightarrow> ''greater_equal'' | OP_LT \<Rightarrow> ''less'' | OP_GT \<Rightarrow> ''greater''
      | OP_ADD \<Rightarrow> ''add'' | OP_SUB \<Rightarrow> ''subtract'' | OP_UMINUS \<Rightarrow> ''negate'' | OP_MUL \<Rightarrow> ''multiply''
      | OP_DIV \<Rightarrow> ''divide'' | OP_IDIV \<Rightarrow> ''integer_divide'' | OP_REM \<Rightarrow> ''remainder'' | OP_MOD \<Rightarrow> ''modulo''
      | OP_TO_REAL \<Rightarrow> ''to_real'' | OP_TO_INT \<Rightarrow> ''to_int'' | OP_IS_INT \<Rightarrow> ''is_int'' | OP_POWER \<Rightarrow> ''power''
      | OP_ABS \<Rightarrow> ''absolute'' | OP_STORE \<Rightarrow> ''store'' | OP_SELECT \<Rightarrow> ''select''
      | OP_CONST_ARRAY \<Rightarrow> ''constant_array'' | OP_ARRAY_DEFAULT \<Rightarrow> ''array_default''
      | OP_OTHER _ \<Rightarrow> sanitize symbol [])"

definition parameter_text :: "('s, 'd) z3_api \<Rightarrow> ('s, 'd) decl_parameter \<Rightarrow> string" where
  "parameter_text api p =
     (case p of
        ParamInt i \<Rightarrow> int_to_string i
      | ParamDouble t \<Rightarrow> t
      | ParamRational t \<Rightarrow> t
      | ParamSymbol s \<Rightarrow> symbol_text s
      | ParamSort s \<Rightarrow> api_sort_to_string api s
      | ParamAst t \<Rightarrow> t
      | ParamFuncDecl d \<Rightarrow> symbol_text (api_decl_name api d)
      | ParamInternal \<Rightarrow> ''internal''
      | ParamZString \<Rightarrow> ''zstring'')"

definition declaration_parameters :: "('s, 'd) z3_api \<Rightarrow> 'd \<Rightarrow> string list" where
  "declaration_parameters api declaration = map (parameter_text api) (api_decl_parameters api declaration)"

record ('s, 'd) lift_registry =
  reg_sorts :: "(string \<times> 's) list"
  reg_decls :: "(string \<times> 'd) list"
  reg_aliases :: "string list"

definition empty_registry :: "('s, 'd) lift_registry" where
  "empty_registry = \<lparr>reg_sorts = [], reg_decls = [], reg_aliases = []\<rparr>"

text \<open>\<^verbatim>\<open>for (suffix = 1; !aliases_.insert(candidate).second; ++suffix) candidate = base + '_' + suffix;\<close>
  The loop stops at the first candidate that is not in use.  The candidates are pairwise different,
  so that after as many rounds as there are aliases the next one is not in use: the fuel
  \<open>unique\<close> passes is never what ends the loop.\<close>

primrec unique_loop :: "nat \<Rightarrow> string list \<Rightarrow> string \<Rightarrow> string \<Rightarrow> nat \<Rightarrow> string" where
  "unique_loop 0 aliases base candidate suffix = candidate"
| "unique_loop (Suc n) aliases base candidate suffix =
     (if candidate \<in> set aliases
      then unique_loop n aliases base (base @ ''_'' @ nat_to_string suffix) (Suc suffix)
      else candidate)"

definition unique :: "('s, 'd) lift_registry \<Rightarrow> string \<Rightarrow> string \<times> ('s, 'd) lift_registry" where
  "unique r base =
     (let candidate = unique_loop (length (reg_aliases r)) (reg_aliases r) base base 1
      in (candidate, r\<lparr>reg_aliases := candidate # reg_aliases r\<rparr>))"

text \<open>The alias of the first binding whose value is \<open>x\<close>.\<close>

primrec find_alias :: "(string \<times> 'a) list \<Rightarrow> 'a \<Rightarrow> string option" where
  "find_alias [] x = None"
| "find_alias (b # bs) x = (if snd b = x then Some (fst b) else find_alias bs x)"

definition sort_alias ::
  "('s, 'd) z3_api \<Rightarrow> ('s, 'd) lift_registry \<Rightarrow> 's \<Rightarrow> string \<times> ('s, 'd) lift_registry" where
  "sort_alias api r srt =
     (case find_alias (reg_sorts r) srt of
        Some alias \<Rightarrow> (alias, r)
      | None \<Rightarrow>
          let (alias, r) = unique r (sanitize (api_sort_to_string api srt) ''_s_'')
          in (alias, r\<lparr>reg_sorts := reg_sorts r @ [(alias, srt)]\<rparr>))"

definition declaration_alias ::
  "('s, 'd) z3_api \<Rightarrow> ('s, 'd) lift_registry \<Rightarrow> 'd \<Rightarrow> string \<times> ('s, 'd) lift_registry" where
  "declaration_alias api r declaration =
     (case find_alias (reg_decls r) declaration of
        Some alias \<Rightarrow> (alias, r)
      | None \<Rightarrow>
          let name = symbol_text (api_decl_name api declaration);
              base = foldl (\<lambda>base parameter. base @ ''_'' @ sanitize parameter [])
                       (declaration_base api declaration name) (declaration_parameters api declaration);
              (alias, r) = unique r (sanitize base ''_d_'');
              r = r\<lparr>reg_decls := reg_decls r @ [(alias, declaration)]\<rparr>;
              r = foldl (\<lambda>r s. snd (sort_alias api r s)) r (api_domain api declaration);
              r = snd (sort_alias api r (api_range api declaration))
          in (alias, r))"

definition registry_sort :: "('s, 'd) lift_registry \<Rightarrow> string \<Rightarrow> string + 's" where
  "registry_sort r alias =
     (case map_of (reg_sorts r) alias of
        Some s \<Rightarrow> Inr s | None \<Rightarrow> Inl (''unknown Fine lift sort alias `'' @ alias @ ''`''))"

definition registry_declaration :: "('s, 'd) lift_registry \<Rightarrow> string \<Rightarrow> string + 'd" where
  "registry_declaration r alias =
     (case map_of (reg_decls r) alias of
        Some d \<Rightarrow> Inr d | None \<Rightarrow> Inl (''unknown Fine lift declaration alias `'' @ alias @ ''`''))"

definition find_sort_alias :: "('s, 'd) lift_registry \<Rightarrow> 's \<Rightarrow> string + string" where
  "find_sort_alias r srt =
     (case find_alias (reg_sorts r) srt of
        Some alias \<Rightarrow> Inr alias | None \<Rightarrow> Inl ''Fine lift declaration references an unregistered sort'')"

section \<open>The JSON tables that accompany the text\<close>

fun join_commas :: "string list \<Rightarrow> string" where
  "join_commas [] = []"
| "join_commas [t] = t"
| "join_commas (t # u # ts) = t @ '','' @ join_commas (u # ts)"

definition key_text :: "string \<Rightarrow> string" where
  "key_text k = [CHR 0x22] @ k @ [CHR 0x22] @ '':''"

definition sort_json :: "('s, 'd) z3_api \<Rightarrow> string \<times> 's \<Rightarrow> string" where
  "sort_json api b =
     ''{'' @ key_text ''name'' @ json_quote (fst b) @
     '','' @ key_text ''z3_text'' @ json_quote (api_sort_to_string api (snd b)) @
     '','' @ key_text ''sort_kind'' @ nat_to_string (api_sort_kind api (snd b)) @
     '','' @ key_text ''ast_id_at_observation'' @ nat_to_string (api_sort_id api (snd b)) @ ''}''"

definition sorts_json :: "('s, 'd) z3_api \<Rightarrow> ('s, 'd) lift_registry \<Rightarrow> string" where
  "sorts_json api r = ''['' @ join_commas (map (sort_json api) (reg_sorts r)) @ '']''"

definition declaration_json ::
  "('s, 'd) z3_api \<Rightarrow> ('s, 'd) lift_registry \<Rightarrow> string \<times> 'd \<Rightarrow> string + string" where
  "declaration_json api r b =
     (let d = snd b in
      bindE (mapE (find_sort_alias r) (api_domain api d)) (\<lambda>domain.
      bindE (find_sort_alias r (api_range api d)) (\<lambda>rng.
      Inr (''{'' @ key_text ''name'' @ json_quote (fst b) @
           '','' @ key_text ''z3_symbol'' @ json_quote (symbol_text (api_decl_name api d)) @
           '','' @ key_text ''z3_declaration_text'' @ json_quote (api_decl_to_string api d) @
           '','' @ key_text ''decl_kind'' @ nat_to_string (api_decl_kind_number api d) @
           '','' @ key_text ''parameters'' @ ''['' @ join_commas (map json_quote (declaration_parameters api d)) @ '']'' @
           '','' @ key_text ''ast_id_at_observation'' @ nat_to_string (api_decl_id api d) @
           '','' @ key_text ''domain'' @ ''['' @ join_commas (map json_quote domain) @ '']'' @
           '','' @ key_text ''range'' @ json_quote rng @ ''}''))))"

definition declarations_json :: "('s, 'd) z3_api \<Rightarrow> ('s, 'd) lift_registry \<Rightarrow> string + string" where
  "declarations_json api r =
     bindE (mapE (declaration_json api r) (reg_decls r)) (\<lambda>ts. Inr (''['' @ join_commas ts @ '']''))"

section \<open>The printer\<close>

record ('s, 'd) printer_state =
  pr_registry :: "('s, 'd) lift_registry"
  pr_next_bound :: nat

type_synonym ('s, 'd) printed = "string + string \<times> ('s, 'd) printer_state"

text \<open>The member \<^verbatim>\<open>bound_\<close> grows at a quantifier and is cut back after it: it is an argument here.
  \<^verbatim>\<open>bound_[bound_.size() - 1 - index]\<close> is the binding \<open>index\<close> places before the end.\<close>

definition bound_text :: "(string \<times> 's) list \<Rightarrow> nat \<Rightarrow> string + string" where
  "bound_text bound index =
     (if length bound \<le> index then Inl ''Fine lift encountered a free de Bruijn variable''
      else Inr (fst (bound ! (length bound - 1 - index))))"

primrec quantifier_name :: "quantifier_kind \<Rightarrow> string" where
  "quantifier_name QForall = ''forall''"
| "quantifier_name QExists = ''exists''"
| "quantifier_name QLambda = ''lambda''"

definition bound_name :: "nat \<Rightarrow> string" where
  "bound_name n = ''_v_'' @ nat_to_string n"

text \<open>The loop over the binders: their texts, the bindings they push, and the next state.\<close>

primrec binders_text ::
  "('s, 'd) z3_api \<Rightarrow> (z3_symbol \<times> 's) list \<Rightarrow> ('s, 'd) printer_state \<Rightarrow>
   string list \<times> (string \<times> 's) list \<times> ('s, 'd) printer_state" where
  "binders_text api [] st = ([], [], st)"
| "binders_text api (b # bs) st =
     (let alias = bound_name (pr_next_bound st);
          (srt, r) = sort_alias api (pr_registry st) (snd b);
          text = alias @ ''@'' @ symbol_syntax (fst b) @ '':'' @ srt;
          (texts, bindings, st') = binders_text api bs \<lparr>pr_registry = r, pr_next_bound = Suc (pr_next_bound st)\<rparr>
      in (text # texts, (alias, snd b) # bindings, st'))"

fun expression_text ::
      "('s, 'd) z3_api \<Rightarrow> (string \<times> 's) list \<Rightarrow> ('s, 'd) z3_expr \<Rightarrow> ('s, 'd) printer_state \<Rightarrow> ('s, 'd) printed"
  and expressions_text ::
      "('s, 'd) z3_api \<Rightarrow> (string \<times> 's) list \<Rightarrow> ('s, 'd) z3_expr list \<Rightarrow> ('s, 'd) printer_state \<Rightarrow> ('s, 'd) printed"
  and patterns_text ::
      "('s, 'd) z3_api \<Rightarrow> (string \<times> 's) list \<Rightarrow> ('s, 'd) z3_expr list list \<Rightarrow> ('s, 'd) printer_state \<Rightarrow> ('s, 'd) printed"
where
  "expression_text api bound (ZNumeral v s) st =
     (let (alias, r) = sort_alias api (pr_registry st) s
      in Inr (''numeral('' @ string_quote v @ '','' @ alias @ '')'', st\<lparr>pr_registry := r\<rparr>))"
| "expression_text api bound (ZApp d args) st =
     (let (alias, r) = declaration_alias api (pr_registry st) d in
      if args = [] then Inr (alias, st\<lparr>pr_registry := r\<rparr>)
      else bindE (expressions_text api bound args (st\<lparr>pr_registry := r\<rparr>)) (\<lambda>(t, st).
             Inr (alias @ ''('' @ t @ '')'', st)))"
| "expression_text api bound (ZVar index s) st = bindE (bound_text bound index) (\<lambda>t. Inr (t, st))"
| "expression_text api bound (ZQuant k w qid skid bs body pats nopats) st =
     (let (texts, bindings, st) = binders_text api bs st;
          bound = bound @ bindings
      in bindE (expression_text api bound body st) (\<lambda>(b, st).
         bindE (patterns_text api bound pats st) (\<lambda>(ps, st).
         bindE (expressions_text api bound nopats st) (\<lambda>(nps, st).
         Inr (quantifier_name k @ ''[weight='' @ nat_to_string w @ '',qid='' @ symbol_syntax qid @
              '',skid='' @ symbol_syntax skid @ '']'' @ ''('' @ join_commas texts @ '')'' @ ''{'' @ b @ ''}'' @
              ''[patterns=['' @ ps @ ''],nopatterns=['' @ nps @ '']]'', st)))))"
| "expressions_text api bound [] st = Inr ([], st)"
| "expressions_text api bound (e # es) st =
     bindE (expression_text api bound e st) (\<lambda>(t, st).
     if es = [] then Inr (t, st)
     else bindE (expressions_text api bound es st) (\<lambda>(u, st). Inr (t @ '','' @ u, st)))"
| "patterns_text api bound [] st = Inr ([], st)"
| "patterns_text api bound (p # ps) st =
     bindE (expressions_text api bound p st) (\<lambda>(t, st).
     if ps = [] then Inr (''['' @ t @ '']'', st)
     else bindE (patterns_text api bound ps st) (\<lambda>(u, st). Inr (''['' @ t @ '']'' @ '','' @ u, st)))"

end
