(* ===== verification/Rainfall_Reify.thy ===== *)
theory Rainfall_Reify
  imports Rainfall_Lift
begin

text \<open>
  The second half of \<^verbatim>\<open>src/src/fine/rainfall_lift.cpp\<close>: the lexer and the parser that turn generated
  Fine text back into a Z3 term, and \<open>lift_rainfall_term\<close>, which prints a term and, when asked to,
  checks that the text reads back as the same term.  The lexer's only state is the text from its
  offset on.  Loops and recursion take fuel, as in theory \<open>Fine_Parser\<close>.
\<close>

section \<open>The lexer\<close>

datatype lift_token = TIdent string | TNumber string | TString string | TPunct char | TEnd

datatype lift_error = LiftError string | LiftOutOfFuel

definition lift_fail :: "string \<Rightarrow> lift_error + 'a" where
  "lift_fail message = Inl (LiftError (''Fine lift parse error: '' @ message))"

definition hex_value :: "char \<Rightarrow> nat option" where
  "hex_value c =
     (if CHR ''0'' \<le> c \<and> c \<le> CHR ''9'' then Some (of_char c - 48)
      else if CHR ''a'' \<le> c \<and> c \<le> CHR ''f'' then Some (of_char c - 97 + 10)
      else if CHR ''A'' \<le> c \<and> c \<le> CHR ''F'' then Some (of_char c - 65 + 10)
      else None)"

text \<open>The loop over the digits of a Unicode escape, with \<open>n\<close> digits to go.\<close>

primrec unicode_escape :: "nat \<Rightarrow> nat \<Rightarrow> string \<Rightarrow> lift_error + nat \<times> string" where
  "unicode_escape 0 value text = Inr (value, text)"
| "unicode_escape (Suc n) value text =
     (case text of
        [] \<Rightarrow> lift_fail ''unfinished Unicode escape''
      | digit # rest \<Rightarrow>
          (case hex_value digit of
             None \<Rightarrow> lift_fail ''invalid Unicode escape''
           | Some v \<Rightarrow> unicode_escape n (16 * value + v) rest))"

definition simple_escape :: "char \<Rightarrow> char option" where
  "simple_escape c =
     (if c = CHR 0x22 then Some (CHR 0x22)
      else if c = CHR 0x5C then Some (CHR 0x5C)
      else if c = CHR ''b'' then Some (CHR 0x08)
      else if c = CHR ''f'' then Some (CHR 0x0C)
      else if c = CHR ''n'' then Some (CHR 0x0A)
      else if c = CHR ''r'' then Some (CHR 0x0D)
      else if c = CHR ''t'' then Some (CHR 0x09)
      else None)"

text \<open>One escape sequence after its backslash.\<close>

definition lex_escape :: "string \<Rightarrow> lift_error + char \<times> string" where
  "lex_escape text =
     (case text of
        [] \<Rightarrow> lift_fail ''unfinished string escape''
      | escaped # rest \<Rightarrow>
          (case simple_escape escaped of
             Some c \<Rightarrow> Inr (c, rest)
           | None \<Rightarrow>
               if escaped = CHR ''u''
               then bindE (unicode_escape 4 0 rest) (\<lambda>(value, rest).
                    if 255 < value then lift_fail ''generated Fine strings admit byte escapes only''
                    else Inr (char_of value, rest))
               else lift_fail ''unsupported string escape''))"

lemma unicode_escape_length: "unicode_escape n acc t = Inr (v, rest) \<Longrightarrow> length rest \<le> length t"
  by (induction n arbitrary: acc t) (force simp: lift_fail_def split: list.splits option.splits)+

lemma lex_escape_length: "lex_escape t = Inr (c, rest) \<Longrightarrow> length rest < Suc (length t)"
  using unicode_escape_length
  by (fastforce simp: lex_escape_def bindE_Inr_conv lift_fail_def split: list.splits option.splits if_splits)

text \<open>The body of a string literal, up to and including the closing quote.\<close>

function lex_string :: "string \<Rightarrow> lift_error + string \<times> string" where
  "lex_string text =
     (case text of
        [] \<Rightarrow> lift_fail ''unfinished string''
      | c # rest \<Rightarrow>
          if c = CHR 0x22 then Inr ([], rest)
          else if c \<noteq> CHR 0x5C
          then bindE (lex_string rest) (\<lambda>(result, text). Inr (c # result, text))
          else bindE (lex_escape rest) (\<lambda>(d, rest).
               bindE (lex_string rest) (\<lambda>(result, text). Inr (d # result, text))))"
  by pat_completeness auto
termination
  by (relation "measure length") (auto dest: lex_escape_length)

declare lex_string.simps [simp del]

definition is_ident_char :: "char \<Rightarrow> bool" where
  "is_ident_char c \<longleftrightarrow> is_alnum_char c \<or> c = CHR ''_''"

definition lex_token :: "string \<Rightarrow> lift_error + lift_token \<times> string" where
  "lex_token source =
     (case dropWhile is_space_char source of
        [] \<Rightarrow> Inr (TEnd, [])
      | c # rest \<Rightarrow>
          if is_alpha_char c \<or> c = CHR ''_''
          then Inr (TIdent (c # takeWhile is_ident_char rest), dropWhile is_ident_char rest)
          else if is_digit c
          then Inr (TNumber (c # takeWhile is_digit rest), dropWhile is_digit rest)
          else if c = CHR 0x22
          then bindE (lex_string rest) (\<lambda>(result, text). Inr (TString result, text))
          else if c \<in> set ''(){}[],:=@'' then Inr (TPunct c, rest)
          else lift_fail (''unexpected character `'' @ [c] @ ''`''))"

section \<open>The parser\<close>

record lift_parser =
  lp_current :: lift_token
  lp_rest :: string

type_synonym 'a lift_parse = "lift_parser \<Rightarrow> lift_error + 'a \<times> lift_parser"

definition retL :: "'a \<Rightarrow> 'a lift_parse" where
  "retL x s = Inr (x, s)"

definition bindL :: "'a lift_parse \<Rightarrow> ('a \<Rightarrow> 'b lift_parse) \<Rightarrow> 'b lift_parse" where
  "bindL p f s = bindE (p s) (\<lambda>(x, s). f x s)"

definition failL :: "string \<Rightarrow> 'a lift_parse" where
  "failL message s = lift_fail message"

definition fuelL :: "'a lift_parse" where
  "fuelL s = Inl LiftOutOfFuel"

text \<open>A call that may throw an error of its own.\<close>

definition callL :: "string + 'a \<Rightarrow> 'a lift_parse" where
  "callL r s = (case r of Inl e \<Rightarrow> Inl (LiftError e) | Inr x \<Rightarrow> Inr (x, s))"

text \<open>\<^verbatim>\<open>context_.check_error()\<close>, or the exception of the C++ wrapper, when Z3 returns no term.\<close>

definition termL :: "'a option \<Rightarrow> 'a lift_parse" where
  "termL r s = (case r of None \<Rightarrow> Inl (LiftError ''Z3 error'') | Some x \<Rightarrow> Inr (x, s))"

definition currentL :: "lift_token lift_parse" where
  "currentL s = Inr (lp_current s, s)"

definition advanceL :: "unit lift_parse" where
  "advanceL s = bindE (lex_token (lp_rest s)) (\<lambda>(t, rest). Inr ((), \<lparr>lp_current = t, lp_rest = rest\<rparr>))"

definition punctuationL :: "char \<Rightarrow> unit lift_parse" where
  "punctuationL c =
     bindL currentL (\<lambda>t. if t \<noteq> TPunct c then failL (''expected `'' @ [c] @ ''`'') else advanceL)"

definition identifierL :: "string lift_parse" where
  "identifierL =
     bindL currentL (\<lambda>t. case t of TIdent w \<Rightarrow> bindL advanceL (\<lambda>_. retL w) | _ \<Rightarrow> failL ''expected identifier'')"

text \<open>\<^verbatim>\<open>static_cast<unsigned>(std::stoul(text))\<close>; \<^verbatim>\<open>stoul\<close> throws when the value does not fit in 64 bits.\<close>

definition numberL :: "nat lift_parse" where
  "numberL =
     bindL currentL (\<lambda>t. case t of
       TNumber w \<Rightarrow>
         if 2 ^ 64 \<le> string_to_nat w then callL (Inl ''stoul'')
         else bindL advanceL (\<lambda>_. retL (string_to_nat w mod 2 ^ 32))
     | _ \<Rightarrow> failL ''expected unsigned number'')"

definition stringL :: "string lift_parse" where
  "stringL =
     bindL currentL (\<lambda>t. case t of TString w \<Rightarrow> bindL advanceL (\<lambda>_. retL w) | _ \<Rightarrow> failL ''expected string'')"

definition keywordL :: "string \<Rightarrow> unit lift_parse" where
  "keywordL expected =
     bindL identifierL (\<lambda>w. if w \<noteq> expected then failL (''expected `'' @ expected @ ''`'') else retL ())"

text \<open>The text a \<^verbatim>\<open>char const *\<close> argument hands over ends at the first NUL byte.\<close>

definition c_str :: "string \<Rightarrow> string" where
  "c_str t = takeWhile (\<lambda>c. c \<noteq> CHR 0x00) t"

definition symbolL :: "z3_symbol lift_parse" where
  "symbolL =
     bindL identifierL (\<lambda>kind.
     if kind = ''n'' then retL SymNull
     else
       bindL (punctuationL (CHR ''('')) (\<lambda>_.
       bindL (if kind = ''s'' then bindL stringL (\<lambda>t. retL (SymStr (c_str t)))
              else if kind = ''i'' then bindL numberL (\<lambda>n. retL (SymInt n))
              else failL ''unknown symbol encoding'') (\<lambda>result.
       bindL (punctuationL (CHR '')'')) (\<lambda>_. retL result))))"

text \<open>\<^verbatim>\<open>while (current is not close) { item; if (current is a comma) take it; else if (current is not
  close) fail; }\<close>\<close>

primrec listL :: "nat \<Rightarrow> char \<Rightarrow> string \<Rightarrow> 'a lift_parse \<Rightarrow> 'a list lift_parse" where
  "listL 0 close message item = fuelL"
| "listL (Suc n) close message item =
     bindL currentL (\<lambda>t.
     if t = TPunct close then retL []
     else
       bindL item (\<lambda>x.
       bindL currentL (\<lambda>t.
       bindL (if t = TPunct (CHR '','') then punctuationL (CHR '','')
              else if t \<noteq> TPunct close then failL message else retL ()) (\<lambda>_.
       bindL (listL n close message item) (\<lambda>xs. retL (x # xs))))))"

definition numeralL :: "('s, 'd) z3_api \<Rightarrow> ('s, 'd) lift_registry \<Rightarrow> ('s, 'd) z3_expr lift_parse" where
  "numeralL api reg =
     bindL (punctuationL (CHR ''('')) (\<lambda>_.
     bindL stringL (\<lambda>value.
     bindL (punctuationL (CHR '','')) (\<lambda>_.
     bindL identifierL (\<lambda>sort_name.
     bindL (punctuationL (CHR '')'')) (\<lambda>_.
     bindL (callL (registry_sort reg sort_name)) (\<lambda>srt.
     termL (api_mk_numeral api (c_str value) srt)))))))"

definition binderL :: "('s, 'd) lift_registry \<Rightarrow> (string \<times> z3_symbol \<times> 's) lift_parse" where
  "binderL reg =
     bindL identifierL (\<lambda>alias.
     bindL (punctuationL (CHR ''@'')) (\<lambda>_.
     bindL symbolL (\<lambda>original.
     bindL (punctuationL (CHR '':'')) (\<lambda>_.
     bindL identifierL (\<lambda>sort_name.
     bindL (callL (registry_sort reg sort_name)) (\<lambda>srt.
     retL (alias, original, srt)))))))"

text \<open>The position of the first binding with the given alias.\<close>

primrec bound_position :: "(string \<times> 's) list \<Rightarrow> string \<Rightarrow> (nat \<times> 's) option" where
  "bound_position [] name = None"
| "bound_position (b # bs) name =
     (if fst b = name then Some (0, snd b)
      else case bound_position bs name of None \<Rightarrow> None | Some (i, s) \<Rightarrow> Some (Suc i, s))"

definition headerL :: "(nat \<times> z3_symbol \<times> z3_symbol) lift_parse" where
  "headerL =
     bindL (punctuationL (CHR ''['')) (\<lambda>_.
     bindL (keywordL ''weight'') (\<lambda>_.
     bindL (punctuationL (CHR ''='')) (\<lambda>_.
     bindL numberL (\<lambda>weight.
     bindL (punctuationL (CHR '','')) (\<lambda>_.
     bindL (keywordL ''qid'') (\<lambda>_.
     bindL (punctuationL (CHR ''='')) (\<lambda>_.
     bindL symbolL (\<lambda>qid.
     bindL (punctuationL (CHR '','')) (\<lambda>_.
     bindL (keywordL ''skid'') (\<lambda>_.
     bindL (punctuationL (CHR ''='')) (\<lambda>_.
     bindL symbolL (\<lambda>skid.
     bindL (punctuationL (CHR '']'')) (\<lambda>_.
     retL (weight, qid, skid))))))))))))))"

definition patternL :: "nat \<Rightarrow> 'a lift_parse \<Rightarrow> 'a list lift_parse" where
  "patternL n rec =
     bindL (punctuationL (CHR ''['')) (\<lambda>_.
     bindL (listL n (CHR '']'') ''expected `,` or `]` in pattern'' rec) (\<lambda>terms.
     bindL (punctuationL (CHR '']'')) (\<lambda>_. retL terms)))"

definition trailerL :: "nat \<Rightarrow> 'a lift_parse \<Rightarrow> ('a list list \<times> 'a list) lift_parse" where
  "trailerL n rec =
     bindL (punctuationL (CHR ''['')) (\<lambda>_.
     bindL (keywordL ''patterns'') (\<lambda>_.
     bindL (punctuationL (CHR ''='')) (\<lambda>_.
     bindL (punctuationL (CHR ''['')) (\<lambda>_.
     bindL (listL n (CHR '']'') ''expected `,` or `]` after pattern'' (patternL n rec)) (\<lambda>patterns.
     bindL (punctuationL (CHR '']'')) (\<lambda>_.
     bindL (punctuationL (CHR '','')) (\<lambda>_.
     bindL (keywordL ''nopatterns'') (\<lambda>_.
     bindL (punctuationL (CHR ''='')) (\<lambda>_.
     bindL (punctuationL (CHR ''['')) (\<lambda>_.
     bindL (listL n (CHR '']'') ''expected `,` or `]` in no-pattern list'' rec) (\<lambda>no_patterns.
     bindL (punctuationL (CHR '']'')) (\<lambda>_.
     bindL (punctuationL (CHR '']'')) (\<lambda>_.
     retL (patterns, no_patterns))))))))))))))"

text \<open>\<open>rec\<close> is \<^verbatim>\<open>expression()\<close> with the given list of bound names.\<close>

definition quantifierL ::
  "('s, 'd) z3_api \<Rightarrow> ('s, 'd) lift_registry \<Rightarrow> nat \<Rightarrow> ((string \<times> 's) list \<Rightarrow> ('s, 'd) z3_expr lift_parse) \<Rightarrow>
   (string \<times> 's) list \<Rightarrow> string \<Rightarrow> ('s, 'd) z3_expr lift_parse" where
  "quantifierL api reg n rec bound kind =
     bindL headerL (\<lambda>(weight, qid, skid).
     bindL (punctuationL (CHR ''('')) (\<lambda>_.
     bindL (listL n (CHR '')'') ''expected `,` or `)` in binder list'' (binderL reg)) (\<lambda>binders.
     let inner = bound @ map (\<lambda>(alias, _, srt). (alias, srt)) binders;
         names = map snd binders
     in
     bindL (punctuationL (CHR '')'')) (\<lambda>_.
     bindL (punctuationL (CHR ''{'')) (\<lambda>_.
     bindL (rec inner) (\<lambda>body.
     bindL (punctuationL (CHR ''}'')) (\<lambda>_.
     bindL (trailerL n (rec inner)) (\<lambda>(patterns, no_patterns).
     if kind = ''lambda''
     then if patterns \<noteq> [] \<or> no_patterns \<noteq> [] \<or> weight \<noteq> 0
          then failL ''lambda carries unsupported quantifier metadata''
          else termL (api_mk_lambda api names body)
     else termL (api_mk_quantifier api (kind = ''forall'') weight qid skid names body patterns no_patterns)))))))))"

definition applicationL ::
  "('s, 'd) z3_api \<Rightarrow> ('s, 'd) lift_registry \<Rightarrow> nat \<Rightarrow> ('s, 'd) z3_expr lift_parse \<Rightarrow> string \<Rightarrow>
   ('s, 'd) z3_expr lift_parse" where
  "applicationL api reg n rec name =
     bindL (callL (registry_declaration reg name)) (\<lambda>declaration.
     bindL currentL (\<lambda>t.
     bindL (if t = TPunct (CHR ''('')
            then bindL (punctuationL (CHR ''('')) (\<lambda>_.
                 bindL (listL n (CHR '')'') ''expected `,` or `)` in application'' rec) (\<lambda>arguments.
                 bindL (punctuationL (CHR '')'')) (\<lambda>_. retL arguments)))
            else retL []) (\<lambda>arguments.
     termL (api_mk_app api declaration arguments))))"

primrec expressionL ::
  "nat \<Rightarrow> ('s, 'd) z3_api \<Rightarrow> ('s, 'd) lift_registry \<Rightarrow> (string \<times> 's) list \<Rightarrow> ('s, 'd) z3_expr lift_parse" where
  "expressionL 0 api reg bound = fuelL"
| "expressionL (Suc n) api reg bound =
     bindL currentL (\<lambda>t. case t of
       TIdent _ \<Rightarrow>
         bindL identifierL (\<lambda>name.
         if name = ''numeral'' then numeralL api reg
         else if name = ''forall'' \<or> name = ''exists'' \<or> name = ''lambda''
         then quantifierL api reg n (expressionL n api reg) bound name
         else case bound_position bound name of
                Some (i, srt) \<Rightarrow> retL (ZVar (length bound - 1 - i) srt)
              | None \<Rightarrow> applicationL api reg n (expressionL n api reg bound) name)
     | _ \<Rightarrow> failL ''expected expression'')"

definition lift_fuel :: "string \<Rightarrow> nat" where
  "lift_fuel source = length source + 2"

definition reify :: "('s, 'd) z3_api \<Rightarrow> ('s, 'd) lift_registry \<Rightarrow> string \<Rightarrow> lift_error + ('s, 'd) z3_expr" where
  "reify api reg source =
     bindE (lex_token source) (\<lambda>(t, rest).
     bindE (expressionL (lift_fuel source) api reg [] \<lparr>lp_current = t, lp_rest = rest\<rparr>) (\<lambda>(result, s).
     if lp_current s \<noteq> TEnd then lift_fail ''trailing input'' else Inr result))"

section \<open>Lifting\<close>

record lifted_term =
  lifted_text :: string
  lifted_sorts_json :: string
  lifted_declarations_json :: string

definition print_term ::
  "('s, 'd) z3_api \<Rightarrow> ('s, 'd) z3_expr \<Rightarrow> string + string \<times> ('s, 'd) lift_registry" where
  "print_term api e =
     bindE (expression_text api [] e \<lparr>pr_registry = empty_registry, pr_next_bound = 0\<rparr>) (\<lambda>(text, st).
     Inr (text, pr_registry st))"

definition as_lift_error :: "string + 'a \<Rightarrow> lift_error + 'a" where
  "as_lift_error r = (case r of Inl e \<Rightarrow> Inl (LiftError e) | Inr x \<Rightarrow> Inr x)"

definition lift_rainfall_term ::
  "('s, 'd) z3_api \<Rightarrow> ('s, 'd) z3_expr \<Rightarrow> bool \<Rightarrow> lift_error + lifted_term" where
  "lift_rainfall_term api e exact_reify =
     bindE (as_lift_error (print_term api e)) (\<lambda>(text, reg).
     bindE (if exact_reify
            then bindE (reify api reg text) (\<lambda>reparsed.
                 if reparsed \<noteq> e then Inl (LiftError ''Fine Rainfall lift/reify changed exact Z3 AST identity'')
                 else Inr ())
            else Inr ()) (\<lambda>_.
     bindE (as_lift_error (declarations_json api reg)) (\<lambda>decls.
     Inr \<lparr>lifted_text = text, lifted_sorts_json = sorts_json api reg, lifted_declarations_json = decls\<rparr>)))"

lemmas lift_code [code] =
  punctuationL_def [THEN fun_cong] identifierL_def [THEN fun_cong] numberL_def [THEN fun_cong]
  stringL_def [THEN fun_cong] keywordL_def [THEN fun_cong] symbolL_def [THEN fun_cong]
  listL.simps [THEN fun_cong] numeralL_def [THEN fun_cong] binderL_def [THEN fun_cong] headerL_def [THEN fun_cong]
  patternL_def [THEN fun_cong] trailerL_def [THEN fun_cong] quantifierL_def [THEN fun_cong]
  applicationL_def [THEN fun_cong] expressionL.simps [THEN fun_cong]

end
