(* ===== verification/Fine_Z3.thy ===== *)
theory Fine_Z3
  imports Fine_Effects Fine_Syntax Rainfall_Reify
begin

text \<open>
  Z3 as the Fine runtime sees it: the sorts, declarations and terms it builds through \<^verbatim>\<open>z3++.h\<close>, and
  the answers of the solver.

  The manager shares equal terms, so identity of terms and declarations is equality here.  A
  declaration is its name, its family, its domain and its range.  The functions below build the
  application that the operator of \<^verbatim>\<open>z3++.h\<close> of the same purpose builds; none of them rewrites its
  arguments, as the API does not.  What Z3 computes on its own (satisfiability, models, cores,
  simplification, renderings, identities and the callbacks it makes) is not modelled: it is the record
  \<open>z3_world\<close>, an argument of every operation that asks for it.
\<close>

section \<open>Sorts, declarations and terms\<close>

datatype zsort = SBool | SInt | SDatatype string | SArray zsort zsort

datatype decl_family = Uninterpreted | Builtin decl_kind | Constructor
  | Recognizer string | Accessor string | RecursiveFunction

datatype zdecl = ZDecl (zd_name: string) (zd_family: decl_family) (zd_domain: "zsort list") (zd_range: zsort)

type_synonym zexpr = "(zsort, zdecl) z3_expr"

primrec sort_of :: "zexpr \<Rightarrow> zsort" where
  "sort_of (ZNumeral v s) = s"
| "sort_of (ZApp d args) = zd_range d"
| "sort_of (ZVar i s) = s"
| "sort_of (ZQuant k w qid skid bs body pats nopats) =
     (if k = QLambda then foldr (\<lambda>b r. SArray (snd b) r) bs (sort_of body) else SBool)"

definition builtin :: "string \<Rightarrow> decl_kind \<Rightarrow> zsort list \<Rightarrow> zsort \<Rightarrow> zexpr list \<Rightarrow> zexpr" where
  "builtin name kind domain rng args = ZApp (ZDecl name (Builtin kind) domain rng) args"

definition bool_val :: "bool \<Rightarrow> zexpr" where
  "bool_val b = (if b then builtin ''true'' OP_TRUE [] SBool [] else builtin ''false'' OP_FALSE [] SBool [])"

text \<open>\<^verbatim>\<open>Z3_mk_numeral\<close> reads an optional sign and decimal digits; a numeral prints without leading zeros.\<close>

definition numeral_text :: "string \<Rightarrow> string" where
  "numeral_text t =
     (if t \<noteq> [] \<and> hd t = CHR ''-''
      then if string_to_nat (tl t) = 0 then ''0'' else CHR ''-'' # nat_to_string (string_to_nat (tl t))
      else nat_to_string (string_to_nat t))"

definition int_val :: "string \<Rightarrow> zexpr" where
  "int_val t = ZNumeral (numeral_text t) SInt"

definition mk_const :: "string \<Rightarrow> zsort \<Rightarrow> zexpr" where
  "mk_const name s = ZApp (ZDecl name Uninterpreted [] s) []"

definition mk_not :: "zexpr \<Rightarrow> zexpr" where
  "mk_not a = builtin ''not'' OP_NOT [SBool] SBool [a]"

definition mk_and :: "zexpr \<Rightarrow> zexpr \<Rightarrow> zexpr" where
  "mk_and a b = builtin ''and'' OP_AND [SBool, SBool] SBool [a, b]"

definition mk_or :: "zexpr \<Rightarrow> zexpr \<Rightarrow> zexpr" where
  "mk_or a b = builtin ''or'' OP_OR [SBool, SBool] SBool [a, b]"

definition mk_implies :: "zexpr \<Rightarrow> zexpr \<Rightarrow> zexpr" where
  "mk_implies a b = builtin ''=>'' OP_IMPLIES [SBool, SBool] SBool [a, b]"

definition mk_eq :: "zexpr \<Rightarrow> zexpr \<Rightarrow> zexpr" where
  "mk_eq a b = builtin ''='' OP_EQ [sort_of a, sort_of a] SBool [a, b]"

definition mk_le :: "zexpr \<Rightarrow> zexpr \<Rightarrow> zexpr" where
  "mk_le a b = builtin ''<='' OP_LE [SInt, SInt] SBool [a, b]"

definition mk_ge :: "zexpr \<Rightarrow> zexpr \<Rightarrow> zexpr" where
  "mk_ge a b = builtin ''>='' OP_GE [SInt, SInt] SBool [a, b]"

definition mk_add :: "zexpr \<Rightarrow> zexpr \<Rightarrow> zexpr" where
  "mk_add a b = builtin ''+'' OP_ADD [SInt, SInt] SInt [a, b]"

definition mk_sub :: "zexpr \<Rightarrow> zexpr \<Rightarrow> zexpr" where
  "mk_sub a b = builtin ''-'' OP_SUB [SInt, SInt] SInt [a, b]"

definition mk_ite :: "zexpr \<Rightarrow> zexpr \<Rightarrow> zexpr \<Rightarrow> zexpr" where
  "mk_ite c a b = builtin ''if'' OP_ITE [SBool, sort_of a, sort_of a] (sort_of a) [c, a, b]"

definition array_range :: "zsort \<Rightarrow> zsort" where
  "array_range s = (case s of SArray _ r \<Rightarrow> r | _ \<Rightarrow> s)"

definition mk_select :: "zexpr \<Rightarrow> zexpr \<Rightarrow> zexpr" where
  "mk_select a i = builtin ''select'' OP_SELECT [sort_of a, sort_of i] (array_range (sort_of a)) [a, i]"

definition mk_store :: "zexpr \<Rightarrow> zexpr \<Rightarrow> zexpr \<Rightarrow> zexpr" where
  "mk_store a i v = builtin ''store'' OP_STORE [sort_of a, sort_of i, sort_of v] (sort_of a) [a, i, v]"

definition const_array :: "zsort \<Rightarrow> zexpr \<Rightarrow> zexpr" where
  "const_array domain v = builtin ''const'' OP_CONST_ARRAY [sort_of v] (SArray domain (sort_of v)) [v]"

lemmas mk_defs = builtin_def bool_val_def int_val_def mk_const_def mk_not_def mk_and_def mk_or_def mk_implies_def
  mk_eq_def mk_le_def mk_ge_def mk_add_def mk_sub_def mk_ite_def mk_select_def mk_store_def const_array_def

text \<open>Tests of \<^verbatim>\<open>z3++.h\<close>.\<close>

definition is_true :: "zexpr \<Rightarrow> bool" where
  "is_true e = (e = bool_val True)"

definition is_false :: "zexpr \<Rightarrow> bool" where
  "is_false e = (e = bool_val False)"

definition is_app :: "zexpr \<Rightarrow> bool" where
  "is_app e = (case e of ZApp _ _ \<Rightarrow> True | ZNumeral _ _ \<Rightarrow> True | _ \<Rightarrow> False)"

definition is_kind :: "decl_kind \<Rightarrow> zexpr \<Rightarrow> bool" where
  "is_kind k e = (case e of ZApp d _ \<Rightarrow> zd_family d = Builtin k | _ \<Rightarrow> False)"

definition z_args :: "zexpr \<Rightarrow> zexpr list" where
  "z_args e = (case e of ZApp _ args \<Rightarrow> args | _ \<Rightarrow> [])"

text \<open>A term Z3 accepts: every application has arguments of its declaration's domain.\<close>

fun well_sorted :: "zexpr \<Rightarrow> bool" where
  "well_sorted (ZNumeral v s) \<longleftrightarrow> s = SInt"
| "well_sorted (ZApp d args) \<longleftrightarrow> map sort_of args = zd_domain d \<and> (\<forall>e\<in>set args. well_sorted e)"
| "well_sorted (ZVar i s) \<longleftrightarrow> True"
| "well_sorted (ZQuant k w qid skid bs body pats nopats) \<longleftrightarrow>
     well_sorted body \<and> (k \<noteq> QLambda \<longrightarrow> sort_of body = SBool) \<and>
     (\<forall>p\<in>set pats. \<forall>e\<in>set p. well_sorted e) \<and> (\<forall>e\<in>set nopats. well_sorted e)"

section \<open>Substitution and quantifiers\<close>

text \<open>\<^verbatim>\<open>expr::substitute\<close>: every occurrence of a source term becomes its destination.  The code
  substitutes for constants, and the destinations have no variables of enclosing quantifiers.\<close>

fun subst_pairs :: "zexpr list \<Rightarrow> zexpr list \<Rightarrow> zexpr \<Rightarrow> zexpr option" where
  "subst_pairs (a # as) (b # bs) e = (if e = a then Some b else subst_pairs as bs e)"
| "subst_pairs _ _ e = None"

primrec z_substitute :: "zexpr list \<Rightarrow> zexpr list \<Rightarrow> zexpr \<Rightarrow> zexpr" where
  "z_substitute from to (ZNumeral v s) =
     (case subst_pairs from to (ZNumeral v s) of Some t \<Rightarrow> t | None \<Rightarrow> ZNumeral v s)"
| "z_substitute from to (ZApp d args) =
     (case subst_pairs from to (ZApp d args) of Some t \<Rightarrow> t | None \<Rightarrow> ZApp d (map (z_substitute from to) args))"
| "z_substitute from to (ZVar i s) = ZVar i s"
| "z_substitute from to (ZQuant k w qid skid bs body pats nopats) =
     ZQuant k w qid skid bs (z_substitute from to body) (map (map (z_substitute from to)) pats)
       (map (z_substitute from to) nopats)"

text \<open>\<^verbatim>\<open>Z3_mk_quantifier_const_ex\<close> replaces each constant by the variable of its binder: the last
  constant is the innermost binder, with index 0.\<close>

primrec position_of :: "'a list \<Rightarrow> 'a \<Rightarrow> nat option" where
  "position_of [] x = None"
| "position_of (y # ys) x = (if y = x then Some 0 else map_option Suc (position_of ys x))"

primrec z_abstract :: "zexpr list \<Rightarrow> nat \<Rightarrow> zexpr \<Rightarrow> zexpr" where
  "z_abstract consts depth (ZNumeral v s) = ZNumeral v s"
| "z_abstract consts depth (ZApp d args) =
     (case position_of consts (ZApp d args) of
        Some i \<Rightarrow> ZVar (depth + (length consts - 1 - i)) (zd_range d)
      | None \<Rightarrow> ZApp d (map (z_abstract consts depth) args))"
| "z_abstract consts depth (ZVar i s) = ZVar i s"
| "z_abstract consts depth (ZQuant k w qid skid bs body pats nopats) =
     ZQuant k w qid skid bs (z_abstract consts (depth + length bs) body)
       (map (map (z_abstract consts (depth + length bs))) pats) (map (z_abstract consts (depth + length bs)) nopats)"

definition const_binder :: "zexpr \<Rightarrow> z3_symbol \<times> zsort" where
  "const_binder c = (case c of ZApp d _ \<Rightarrow> (SymStr (zd_name d), zd_range d) | _ \<Rightarrow> (SymNull, sort_of c))"

definition mk_quantifier :: "quantifier_kind \<Rightarrow> z3_symbol \<Rightarrow> z3_symbol \<Rightarrow> zexpr list \<Rightarrow> zexpr \<Rightarrow> zexpr" where
  "mk_quantifier k qid skid consts body =
     ZQuant k 0 qid skid (map const_binder consts) (z_abstract consts 0 body) [] []"

text \<open>\<^verbatim>\<open>z3::forall\<close> and \<^verbatim>\<open>z3::exists\<close>, whose quantifiers have no identifiers.\<close>

definition mk_forall :: "zexpr list \<Rightarrow> zexpr \<Rightarrow> zexpr" where
  "mk_forall variables body = mk_quantifier QForall SymNull SymNull variables body"

definition mk_exists :: "zexpr list \<Rightarrow> zexpr \<Rightarrow> zexpr" where
  "mk_exists variables body = mk_quantifier QExists SymNull SymNull variables body"

section \<open>What Z3 answers\<close>

datatype check_outcome = Sat "zexpr \<Rightarrow> zexpr" | Unsat "zexpr list" | Unknown string

text \<open>What the observers see while a query runs: an accepted instance of a quantifier, or a clause with
  its proof hint and dependencies.\<close>

datatype solver_callback = OnBinding zexpr zexpr | OnClause zexpr "nat list" "zexpr list"

text \<open>One step of the theory rewriter: the term before and after, the family, and the status text.\<close>

datatype rewrite_step = Rewrite zexpr zexpr string string

text \<open>What the fixedpoint engine reports while it works, and how a query of it ends.\<close>

datatype fixedpoint_callback = OnLemma zexpr nat | OnPredecessor | OnUnfold

datatype query_outcome = QuerySat | QueryUnsat | QueryUnknown string

record z3_world =
  w_api :: "(zsort, zdecl) z3_api"
  w_ast_id :: "zexpr \<Rightarrow> nat"
  w_to_string :: "zexpr \<Rightarrow> string"
  w_check :: "nat \<Rightarrow> (string \<times> bool) list \<Rightarrow> zexpr list \<Rightarrow> zexpr list \<Rightarrow> solver_callback list \<times> check_outcome"
  w_simplify :: "zexpr \<Rightarrow> zexpr"
  w_rewrite :: "zexpr \<Rightarrow> rewrite_step list \<times> zexpr"
  w_datatype_error :: "string \<Rightarrow> (string \<times> (string \<times> zsort) list) list \<Rightarrow> string option"
  w_query :: "nat \<Rightarrow> bool \<Rightarrow> zdecl list \<Rightarrow> (zexpr \<times> string) list \<Rightarrow> zexpr \<Rightarrow> fixedpoint_callback list \<times> query_outcome \<times> zexpr"

text \<open>The number of the query is an argument of \<open>w_check\<close> and \<open>w_query\<close>, so that the answers may differ between
  two queries with the same assertions.  \<open>w_query\<close> asks the fixedpoint engine, given whether its parameters were
  set for observation, its relations and its rules; it returns an answer term besides the outcome.\<close>

section \<open>Exceptions\<close>

text \<open>\<open>OutOfTime\<close> is not an exception of the code: it marks a run of the model that did not end within
  its fuel.\<close>

datatype fine_error =
    SemanticError source_span string
  | RuntimeError string
  | SyntaxFailure parse_error
  | Z3Failure string
  | OutOfTime

definition of_lift_error :: "lift_error \<Rightarrow> fine_error" where
  "of_lift_error e = (case e of LiftError m \<Rightarrow> RuntimeError m | LiftOutOfFuel \<Rightarrow> OutOfTime)"

end
