(* ===== verification/Rainfall_Recorder.thy ===== *)
theory Rainfall_Recorder
  imports Fine_Z3 Fine_Source
begin

text \<open>
  \<^verbatim>\<open>src/src/fine/rainfall.h\<close> and \<^verbatim>\<open>rainfall.cpp\<close>: the recorder that writes the trace of a run, one
  JSON object a line, and that gives terms and source nodes their references.  The stream is the list
  of the texts that the calls of \<^verbatim>\<open>record\<close> wrote to it.
\<close>

section \<open>Text\<close>

definition rain_quote_char :: "char \<Rightarrow> string" where
  "rain_quote_char c =
     (if c = CHR 0x22 then [CHR 0x5C, CHR 0x22]
      else if c = CHR 0x5C then [CHR 0x5C, CHR 0x5C]
      else if c = CHR 0x08 then [CHR 0x5C, CHR ''b'']
      else if c = CHR 0x0C then [CHR 0x5C, CHR ''f'']
      else if c = CHR 0x0A then [CHR 0x5C, CHR ''n'']
      else if c = CHR 0x0D then [CHR 0x5C, CHR ''r'']
      else if c = CHR 0x09 then [CHR 0x5C, CHR ''t'']
      else if c < CHR 0x20 then [CHR 0x5C, CHR ''u''] @ hex_text 4 (of_char c)
      else [c])"

definition rain_quote :: "string \<Rightarrow> string" where
  "rain_quote text = [CHR 0x22] @ concat (map rain_quote_char text) @ [CHR 0x22]"

definition string_array :: "string list \<Rightarrow> string" where
  "string_array values = ''['' @ join_commas (map rain_quote values) @ '']''"

record rainfall_field =
  rf_name :: string
  rf_json :: string

definition string_field :: "string \<Rightarrow> string \<Rightarrow> rainfall_field" where
  "string_field name v = \<lparr>rf_name = name, rf_json = rain_quote v\<rparr>"

definition number_field :: "string \<Rightarrow> nat \<Rightarrow> rainfall_field" where
  "number_field name v = \<lparr>rf_name = name, rf_json = nat_to_string v\<rparr>"

definition boolean_field :: "string \<Rightarrow> bool \<Rightarrow> rainfall_field" where
  "boolean_field name v = \<lparr>rf_name = name, rf_json = (if v then ''true'' else ''false'')\<rparr>"

definition raw_field :: "string \<Rightarrow> string \<Rightarrow> rainfall_field" where
  "raw_field name json = \<lparr>rf_name = name, rf_json = json\<rparr>"

section \<open>The recorder\<close>

record recorder =
  rc_run :: string
  rc_snapshot :: "source_snapshot option"
  rc_terms :: "zexpr list"
  rc_lifted_texts :: "string list"
  rc_lifted_text_hashes :: "string list"
  rc_validated_terms :: nat
  rc_pending :: "((string \<times> string) \<times> string) list"
  rc_source_nodes :: "(nat \<times> string) list"
  rc_sequence :: nat
  rc_lines :: "string list"

type_synonym 'a recording = "(recorder, fine_error, 'a) action"

definition event_reference :: "nat \<Rightarrow> string" where
  "event_reference n = ''event:'' @ nat_to_string n"

definition term_reference :: "nat \<Rightarrow> string" where
  "term_reference n = ''term:'' @ nat_to_string n"

definition event_text ::
  "string \<Rightarrow> nat \<Rightarrow> string \<Rightarrow> string \<Rightarrow> string list \<Rightarrow> string \<Rightarrow> string \<Rightarrow> rainfall_field list \<Rightarrow> string" where
  \<open>event_text run current kind operation within producer coverage data =
     ''{"schema":"fine.rainfall.v2","run":'' @ rain_quote run @
     '',"recorder":"recorder:0","manager":"manager:0"'' @
     '',"event_id":'' @ rain_quote (event_reference current) @ '',"sequence":'' @ nat_to_string current @
     '',"kind":'' @ rain_quote kind @
     '',"operation":'' @ rain_quote operation @ '',"within":'' @ string_array within @
     '',"producer":{"component":'' @ rain_quote producer @ '',"coverage":'' @ rain_quote coverage @
     ''},"data":{'' @ join_commas (map (\<lambda>f. rain_quote (rf_name f) @ '':'' @ rf_json f) data) @ ''}}'' @ [CHR 0x0A]\<close>

definition record_event ::
  "string \<Rightarrow> string \<Rightarrow> string list \<Rightarrow> string \<Rightarrow> string \<Rightarrow> rainfall_field list \<Rightarrow> string recording" where
  "record_event kind operation within producer coverage data s =
     (let current = rc_sequence s
      in (Inr (event_reference current),
          s\<lparr>rc_sequence := Suc current,
            rc_lines := rc_lines s @ [event_text (rc_run s) current kind operation within producer coverage data]\<rparr>))"

definition remember_quantifier_instance :: "string \<Rightarrow> string \<Rightarrow> string \<Rightarrow> unit recording" where
  "remember_quantifier_instance quantifier inst event s =
     (case map_of (rc_pending s) (quantifier, inst) of
        Some _ \<Rightarrow> (Inl (RuntimeError ''duplicate pending Rainfall quantifier instance''), s)
      | None \<Rightarrow> (Inr (), s\<lparr>rc_pending := ((quantifier, inst), event) # rc_pending s\<rparr>))"

definition take_quantifier_instance :: "string \<Rightarrow> string \<Rightarrow> string option recording" where
  "take_quantifier_instance quantifier inst s =
     (case map_of (rc_pending s) (quantifier, inst) of
        None \<Rightarrow> (Inr None, s)
      | Some event \<Rightarrow> (Inr (Some event), s\<lparr>rc_pending := filter (\<lambda>p. fst p \<noteq> (quantifier, inst)) (rc_pending s)\<rparr>))"

definition term_identity :: "string \<Rightarrow> nat \<Rightarrow> nat \<Rightarrow> string" where
  \<open>term_identity run handle ast_id =
     ''{"run":'' @ rain_quote run @ '',"recorder":"recorder:0","manager":"manager:0"'' @
     '',"handle":'' @ nat_to_string handle @ '',"ast_id_at_observation":'' @ nat_to_string ast_id @ ''}''\<close>

definition register_term :: "z3_world \<Rightarrow> zexpr \<Rightarrow> string \<Rightarrow> string recording" where
  "register_term w e representation =
     bindA (getA rc_terms) (\<lambda>terms.
     case position_of terms e of
       Some i \<Rightarrow> retA (term_reference i)
     | None \<Rightarrow>
       let handle = length terms; reference = term_reference handle in
       thenA (modifyA (\<lambda>s. s\<lparr>rc_terms := terms @ [e]\<rparr>))
       (bindA (resultA (case lift_rainfall_term (w_api w) e False of Inl x \<Rightarrow> Inl (of_lift_error x) | Inr l \<Rightarrow> Inr l)) (\<lambda>lifted.
       thenA (modifyA (\<lambda>s. s\<lparr>rc_lifted_texts := rc_lifted_texts s @ [lifted_text lifted],
                rc_lifted_text_hashes := rc_lifted_text_hashes s @ [exact_content_hash (lifted_text lifted)]\<rparr>))
       (bindA (getA (\<lambda>s. (rc_run s, last (rc_lifted_text_hashes s)))) (\<lambda>(run, hash).
       thenA (record_event ''object'' ''term.declare'' [] ''fine.ast-registry''
         (''Fine-owned live Z3 term with canonical generated Fine rendering; exact reparse/reification is '' @
          ''deferred outside observer callbacks and required before run closure'')
         [string_field ''id'' reference, raw_field ''identity'' (term_identity run handle (w_ast_id w e)),
          string_field ''representation'' ''fine.generated-term.v1'', string_field ''origin'' representation,
          string_field ''text'' (lifted_text lifted), string_field ''rendering_hash'' hash,
          string_field ''z3_text_diagnostic'' (w_to_string w e),
          raw_field ''sort_bindings'' (lifted_sorts_json lifted),
          raw_field ''declaration_bindings'' (lifted_declarations_json lifted),
          string_field ''exact_reify_validation'' ''pending''])
       (retA reference))))))"

text \<open>\<open>rain_term\<close> is \<^verbatim>\<open>term\<close> with its default argument.\<close>

definition rain_term :: "z3_world \<Rightarrow> zexpr \<Rightarrow> string recording" where
  "rain_term w e = register_term w e ''semantic-z3''"

text \<open>One round of the loop of \<^verbatim>\<open>validate_terms\<close>.\<close>

definition validate_term :: "z3_world \<Rightarrow> unit recording" where
  "validate_term w =
     bindA (getA rc_validated_terms) (\<lambda>handle.
     thenA (modifyA (\<lambda>s. s\<lparr>rc_validated_terms := Suc handle\<rparr>))
     (bindA (getA (\<lambda>s. (rc_terms s ! handle, rc_lifted_texts s ! handle, rc_lifted_text_hashes s ! handle))) (\<lambda>(e, text, hash).
     bindA (resultA (case lift_rainfall_term (w_api w) e True of Inl x \<Rightarrow> Inl (of_lift_error x) | Inr l \<Rightarrow> Inr l)) (\<lambda>lifted.
     thenA (guardA (lifted_text lifted = text)
              (RuntimeError ''Fine Rainfall lift rendering changed before exact validation''))
     (thenA (record_event ''derive'' ''term.lift.validate'' [] ''fine.generated-term-parser''
        (''Canonical generated Fine term reparsed against its exact manager-local sort and declaration '' @
         ''bindings and reified to the identical live Z3 AST'')
        [string_field ''term'' (term_reference handle), string_field ''rendering_hash'' hash,
         boolean_field ''parse_reify_exact_identity'' True])
     (retA ()))))))"

primrec validate_loop :: "nat \<Rightarrow> z3_world \<Rightarrow> unit recording" where
  "validate_loop 0 w = retA ()"
| "validate_loop (Suc n) w = thenA (validate_term w) (validate_loop n w)"

text \<open>A round adds no term, so that the loop runs once for each term not yet validated.\<close>

definition validate_terms :: "z3_world \<Rightarrow> unit recording" where
  "validate_terms w =
     bindA (getA (\<lambda>s. length (rc_terms s) - rc_validated_terms s)) (\<lambda>n. validate_loop n w)"

definition position_json :: "source_position \<Rightarrow> string" where
  \<open>position_json p =
     ''{"offset":'' @ nat_to_string (offset p) @ '',"line":'' @ nat_to_string (line p) @
     '',"column":'' @ nat_to_string (column p) @ ''}''\<close>

definition span_json :: "source_span \<Rightarrow> string" where
  \<open>span_json span =
     ''{"begin":'' @ position_json (span_begin span) @ '',"end":'' @ position_json (span_end span) @ ''}''\<close>

definition source_node :: "nat \<Rightarrow> source_span \<Rightarrow> string \<Rightarrow> string recording" where
  "source_node node_id span syntax_kind =
     bindA (getA (\<lambda>s. (rc_snapshot s, map_of (rc_source_nodes s) node_id))) (\<lambda>(snapshot, found).
     thenA (guardA (snapshot \<noteq> None) (RuntimeError ''Rainfall source node requires a source snapshot''))
     (case found of
        Some reference \<Rightarrow> retA reference
      | None \<Rightarrow>
        let reference = ''source:'' @ nat_to_string node_id in
        thenA (modifyA (\<lambda>s. s\<lparr>rc_source_nodes := (node_id, reference) # rc_source_nodes s\<rparr>))
        (thenA (record_event ''object'' ''source.node.declare'' [] ''fine.parser''
           ''Parse-local syntax identity bound to snapshot:0''
           [string_field ''id'' reference, string_field ''snapshot'' ''snapshot:0'',
            number_field ''parse_local_node_id'' node_id, raw_field ''span'' (span_json span),
            string_field ''syntax_kind'' syntax_kind])
        (retA reference))))"

definition source_term ::
  "z3_world \<Rightarrow> nat \<Rightarrow> source_span \<Rightarrow> string \<Rightarrow> zexpr \<Rightarrow> string \<Rightarrow> string list \<Rightarrow> unit recording" where
  "source_term w node_id span syntax_kind e correspondence within =
     bindA (source_node node_id span syntax_kind) (\<lambda>source.
     bindA (rain_term w e) (\<lambda>reference.
     thenA (record_event ''derive'' ''source.term.evidence'' within ''fine.elaborator''
       ''Compiler-owned source-to-term correspondence for this exact snapshot and manager''
       [string_field ''snapshot'' ''snapshot:0'', string_field ''source'' source,
        string_field ''term'' reference, string_field ''correspondence'' correspondence])
     (retA ())))"

text \<open>\<open>random\<close> is what the random device returns.\<close>

definition fresh_run :: "nat list \<Rightarrow> string" where
  "fresh_run random = ''run:'' @ concat (map (hex_text 8) (take 4 random))"

definition snapshot_identity :: "source_snapshot \<Rightarrow> string" where
  \<open>snapshot_identity sn =
     ''{"document":'' @ rain_quote (sn_document_id sn) @ '',"revision":'' @ nat_to_string (sn_revision sn) @
     '',"exact_source_hash":'' @ rain_quote (sn_exact_source_hash sn) @
     '',"byte_length":'' @ nat_to_string (sn_byte_length sn) @ ''}''\<close>

definition new_recorder :: "nat list \<Rightarrow> string \<Rightarrow> source_snapshot option \<Rightarrow> recorder" where
  "new_recorder random run snapshot =
     (let s = \<lparr>rc_run = (if run = [] then fresh_run random else run), rc_snapshot = snapshot, rc_terms = [],
               rc_lifted_texts = [], rc_lifted_text_hashes = [], rc_validated_terms = 0, rc_pending = [],
               rc_source_nodes = [], rc_sequence = 0, rc_lines = []\<rparr>
      in case snapshot of
           None \<Rightarrow> s
         | Some sn \<Rightarrow>
           snd (thenA (record_event ''object'' ''source.document.declare'' [] ''fine.source-snapshot''
                  ''Opaque document identity for this CLI compilation''
                  [string_field ''id'' (sn_document_id sn), string_field ''display_name'' (sn_display_name sn)])
                (record_event ''object'' ''source.snapshot.declare'' [] ''fine.source-snapshot''
                  ''Exact immutable source input for all source evidence in this run''
                  [string_field ''id'' ''snapshot:0'', raw_field ''identity'' (snapshot_identity sn)]) s))"

section \<open>Events\<close>

text \<open>The fields of an event as its producer writes them.  \<open>FTerm\<close> is
  \<^verbatim>\<open>string_field(name, rainfall->term(e))\<close> and \<open>FTerms\<close> is \<^verbatim>\<open>raw_field(name, ref_array(*rainfall, es))\<close>;
  the fields of a braced list are evaluated from left to right.\<close>

datatype field_spec =
    FString string string | FNumber string nat | FBool string bool | FRaw string string
  | FTerm string zexpr | FTerms string "zexpr list"

definition ref_array :: "z3_world \<Rightarrow> zexpr list \<Rightarrow> string recording" where
  "ref_array w es = bindA (mapA (rain_term w) es) (\<lambda>refs. retA (string_array refs))"

primrec eval_field :: "z3_world \<Rightarrow> field_spec \<Rightarrow> rainfall_field recording" where
  "eval_field w (FString name v) = retA (string_field name v)"
| "eval_field w (FNumber name v) = retA (number_field name v)"
| "eval_field w (FBool name v) = retA (boolean_field name v)"
| "eval_field w (FRaw name v) = retA (raw_field name v)"
| "eval_field w (FTerm name e) = bindA (rain_term w e) (\<lambda>r. retA (string_field name r))"
| "eval_field w (FTerms name es) = bindA (ref_array w es) (\<lambda>j. retA (raw_field name j))"

definition emit ::
  "z3_world \<Rightarrow> string \<Rightarrow> string \<Rightarrow> string list \<Rightarrow> string \<Rightarrow> string \<Rightarrow> field_spec list \<Rightarrow> string recording" where
  "emit w kind operation within producer coverage specs =
     bindA (mapA (eval_field w) specs) (record_event kind operation within producer coverage)"

text \<open>The state of code that holds a recorder which may be absent, and that asks the solver: the
  recorder, and the number of queries asked so far.\<close>

record rain_state =
  st_rainfall :: "recorder option"
  st_queries :: nat

text \<open>\<^verbatim>\<open>if (rainfall_) p;\<close>, with the value that is used when there is no recorder.\<close>

definition rain :: "'a \<Rightarrow> 'a recording \<Rightarrow> ('z rain_state_scheme, fine_error, 'a) action" where
  "rain d p s =
     (case st_rainfall s of
        None \<Rightarrow> (Inr d, s)
      | Some r \<Rightarrow> (case p r of (x, r') \<Rightarrow> (x, s\<lparr>st_rainfall := Some r'\<rparr>)))"

definition rain_event ::
  "z3_world \<Rightarrow> string \<Rightarrow> string \<Rightarrow> string list \<Rightarrow> string \<Rightarrow> string \<Rightarrow> field_spec list \<Rightarrow>
   ('z rain_state_scheme, fine_error, unit) action" where
  "rain_event w kind operation within producer coverage specs =
     rain () (thenA (emit w kind operation within producer coverage specs) (retA ()))"

lemmas recorder_code [code] =
  register_term_def [THEN fun_cong] rain_term_def [THEN fun_cong] validate_term_def [THEN fun_cong]
  validate_loop.simps [THEN fun_cong] validate_terms_def [THEN fun_cong] source_node_def [THEN fun_cong]
  source_term_def [THEN fun_cong] ref_array_def [THEN fun_cong] eval_field.simps [THEN fun_cong]
  emit_def [THEN fun_cong] rain_event_def [THEN fun_cong]

end
