(* ===== verification/Rainfall_Observers.thy ===== *)
theory Rainfall_Observers
  imports Rainfall_Recorder
begin

text \<open>
  The observers that write what Z3 reports while it works: accepted quantifier instances
  (\<^verbatim>\<open>quantifier_observer.cpp\<close>), the clause stream (\<^verbatim>\<open>clause_observer.cpp\<close>), the steps of the theory
  rewriter (\<^verbatim>\<open>internal_rewrite.cpp\<close>) and the callbacks of the fixedpoint engine
  (\<^verbatim>\<open>fixedpoint_observer.cpp\<close>).  Which callbacks happen, and in which order, is up to Z3.
\<close>

section \<open>Quantifier instances\<close>

record quantifier_observer =
  qo_within :: "string list"
  qo_ematching_enabled :: bool
  qo_mbqi_enabled :: bool

definition quantifier_role :: "zexpr \<Rightarrow> string" where
  "quantifier_role q =
     (case q of ZQuant _ _ qid _ _ _ _ _ \<Rightarrow> (case qid of SymStr t \<Rightarrow> t | _ \<Rightarrow> ''unlabelled'') | _ \<Rightarrow> ''unlabelled'')"

definition on_binding :: "z3_world \<Rightarrow> quantifier_observer \<Rightarrow> zexpr \<Rightarrow> zexpr \<Rightarrow> bool recording" where
  "on_binding w obs quantifier inst =
     bindA (rain_term w quantifier) (\<lambda>quantifier_reference.
     bindA (rain_term w inst) (\<lambda>instance_reference.
     bindA (record_event ''derive''
        (if qo_ematching_enabled obs then ''z3.quantifier-instance'' else ''z3.mbqi-instance'') (qo_within obs)
        ''z3.qi_queue.on_binding''
        (''Accepted nontrivial quantifier instances after redundancy and rewrite-to-true rejection, before lemma insertion; '' @
         ''discarded candidates and auxiliary-context search are not exposed, and engine attribution is made only when '' @
         ''this query disables the competing instantiation engine'')
        [string_field ''quantifier'' quantifier_reference, string_field ''instance'' instance_reference,
         string_field ''source_role'' (quantifier_role quantifier),
         string_field ''instantiation_engine''
           (if qo_ematching_enabled obs \<and> \<not> qo_mbqi_enabled obs then ''ematching-only-query''
            else if \<not> qo_ematching_enabled obs \<and> qo_mbqi_enabled obs then ''mbqi-only-query''
            else ''not-distinguished''),
         boolean_field ''ematching'' (qo_ematching_enabled obs), boolean_field ''mbqi'' (qo_mbqi_enabled obs),
         string_field ''relation'' ''quantifier-body-under-ground-binding'']) (\<lambda>event.
     thenA (remember_quantifier_instance quantifier_reference instance_reference event) (retA True))))"

section \<open>Clauses\<close>

definition number_array :: "nat list \<Rightarrow> string" where
  "number_array values = ''['' @ join_commas (map nat_to_string values) @ '']''"

text \<open>\<^verbatim>\<open>decl().name().str()\<close>; a proof hint is an application.\<close>

definition head_name :: "zexpr \<Rightarrow> fine_error + string" where
  "head_name e = (case e of ZApp d _ \<Rightarrow> Inr (zd_name d) | _ \<Rightarrow> Inl (Z3Failure ''invalid argument''))"

definition clause_labels :: "string \<Rightarrow> string \<times> string \<times> string" where
  "clause_labels hint_head =
     (if hint_head = ''assumption'' then (''z3.clause.assume'', ''constraint'', ''assumed'')
      else if hint_head = ''del'' then (''z3.clause.delete'', ''transition'', ''deleted'')
      else (''z3.clause.infer'', ''derive'', ''inferred''))"

definition is_bind :: "zexpr \<Rightarrow> bool" where
  "is_bind e = (case e of ZApp d _ \<Rightarrow> zd_name d = ''bind'' | _ \<Rightarrow> False)"

text \<open>The fields that join an \<^verbatim>\<open>inst\<close> hint to the accepted instance.\<close>

definition instance_fields :: "z3_world \<Rightarrow> zexpr \<Rightarrow> rainfall_field list recording" where
  "instance_fields w proof_hint =
     (let quantifier = z_args proof_hint ! 0; negated_instance = z_args proof_hint ! 1; bindings = z_args proof_hint ! 2 in
      if \<not> is_kind OP_NOT negated_instance \<or> length (z_args negated_instance) \<noteq> 1 \<or> \<not> is_app bindings \<or> \<not> is_bind bindings
      then throwA (RuntimeError ''unexpected Z3 inst proof-hint shape'')
      else
        bindA (rain_term w quantifier) (\<lambda>quantifier_reference.
        bindA (rain_term w (z_args negated_instance ! 0)) (\<lambda>instance_reference.
        bindA (take_quantifier_instance quantifier_reference instance_reference) (\<lambda>accepted.
        case accepted of
          None \<Rightarrow> throwA (RuntimeError ''quantifier lemma has no exact accepted-instance evidence'')
        | Some event \<Rightarrow>
          bindA (mapA (rain_term w) (z_args bindings)) (\<lambda>binding_references.
          retA [string_field ''quantifier_instance_event'' event, string_field ''quantifier'' quantifier_reference,
                string_field ''instance'' instance_reference, raw_field ''ground_bindings'' (string_array binding_references),
                string_field ''relation'' ''accepted-instance-became-admitted-clause''])))))"

definition on_clause :: "z3_world \<Rightarrow> string list \<Rightarrow> zexpr \<Rightarrow> nat list \<Rightarrow> zexpr list \<Rightarrow> unit recording" where
  "on_clause w within proof_hint dependencies clause =
     bindA (resultA (head_name proof_hint)) (\<lambda>hint_head.
     case clause_labels hint_head of (operation, kind, act) \<Rightarrow>
     bindA (mapA (\<lambda>l. register_term w l ''z3-cdcl-clause-literal'') clause) (\<lambda>literal_references.
     bindA (register_term w proof_hint ''z3-clause-proof-hint'') (\<lambda>hint_reference.
     bindA (if hint_head = ''inst'' \<and> 3 \<le> length (z_args proof_hint) then instance_fields w proof_hint else retA []) (\<lambda>more.
     thenA (record_event kind operation within ''z3.solver.on_clause''
       (''Clauses admitted to or removed from CDCL(T) through Z3's public on-clause callback after preprocessing; '' @
        ''inst proof hints are joined to the exact accepted qi_queue event and ground terms, but rejected candidates, '' @
        ''assignments, decisions, watched-literal activity, and causal contribution to the final result remain outside '' @
        ''this boundary'')
       ([string_field ''action'' act, string_field ''proof_hint'' hint_reference, string_field ''proof_hint_head'' hint_head,
         raw_field ''literals'' (string_array literal_references), number_field ''literal_count'' (length clause),
         raw_field ''dependency_indices'' (number_array dependencies)] @ more))
     (retA ())))))"

section \<open>A query\<close>

primrec run_callback :: "z3_world \<Rightarrow> quantifier_observer \<Rightarrow> solver_callback \<Rightarrow> unit recording" where
  "run_callback w obs (OnBinding quantifier inst) = thenA (on_binding w obs quantifier inst) (retA ())"
| "run_callback w obs (OnClause proof_hint dependencies clause) =
     on_clause w (qo_within obs) proof_hint dependencies clause"

text \<open>\<^verbatim>\<open>solver.check(assumptions)\<close> on a solver with the given parameters and assertions.  While an observer
  is attached, the callbacks run before the result is known.\<close>

definition solver_check ::
  "z3_world \<Rightarrow> (string \<times> bool) list \<Rightarrow> quantifier_observer option \<Rightarrow> zexpr list \<Rightarrow> zexpr list \<Rightarrow>
   ('z rain_state_scheme, fine_error, check_outcome) action" where
  "solver_check w params obs assertions assumptions =
     bindA (getA st_queries) (\<lambda>n.
     thenA (modifyA (\<lambda>s. s\<lparr>st_queries := Suc n\<rparr>))
     (case w_check w n params assertions assumptions of (callbacks, outcome) \<Rightarrow>
      thenA (case obs of None \<Rightarrow> retA () | Some ob \<Rightarrow> rain () (forA callbacks (run_callback w ob)))
      (retA outcome)))"

definition check_text :: "check_outcome \<Rightarrow> string" where
  "check_text r = (case r of Sat _ \<Rightarrow> ''sat'' | Unsat _ \<Rightarrow> ''unsat'' | Unknown _ \<Rightarrow> ''unknown'')"

section \<open>The theory rewriter\<close>

primrec on_rewrite :: "z3_world \<Rightarrow> string list \<Rightarrow> rewrite_step \<Rightarrow> unit recording" where
  "on_rewrite w within (Rewrite before after family status) =
     thenA (emit w ''transform'' ''z3.theory-rewrite'' within ''z3.th_rewriter.reduce_app''
       (''Successful builtin theory application reductions after child rewriting; excludes substitutions, variables, '' @
        ''quantifiers, other rewriter instantiations, and solver search'')
       [FTerm ''before'' before, FTerm ''after'' after, FString ''family'' family,
        FString ''declaration'' (case before of ZApp d _ \<Rightarrow> zd_name d | _ \<Rightarrow> []),
        FString ''continuation'' status, FString ''relation'' ''theory-equivalent''])
     (retA ())"

definition simplify_with_rainfall ::
  "z3_world \<Rightarrow> zexpr \<Rightarrow> string list \<Rightarrow> ('z rain_state_scheme, fine_error, zexpr) action" where
  "simplify_with_rainfall w e within =
     bindA (getA st_rainfall) (\<lambda>r.
     if r = None then retA (w_simplify w e)
     else case w_rewrite w e of (steps, result) \<Rightarrow> thenA (rain () (forA steps (on_rewrite w within))) (retA result))"

section \<open>The fixedpoint engine\<close>

record fixedpoint_observer =
  fo_within :: "string list"
  fo_failure :: "fine_error option"
  fo_predecessor_count :: nat
  fo_unfold_count :: nat

text \<open>The counts are 32-bit and wrap. \<open>guarded\<close> runs a callback that may throw: the first exception is kept and ends the observation.\<close>

definition guarded ::
  "(fixedpoint_observer \<times> recorder, fine_error, unit) action \<Rightarrow> fixedpoint_observer \<times> recorder \<Rightarrow> fixedpoint_observer \<times> recorder" where
  "guarded callback st =
     (if fo_failure (fst st) \<noteq> None then st
      else case callback st of
             (Inl e, (ob, r)) \<Rightarrow> (ob\<lparr>fo_failure := Some e\<rparr>, r)
           | (Inr _, st') \<Rightarrow> st')"

definition recording_pair :: "'a recording \<Rightarrow> ('o \<times> recorder, fine_error, unit) action" where
  "recording_pair p st = (case p (snd st) of (Inl e, r) \<Rightarrow> (Inl e, (fst st, r)) | (Inr _, r) \<Rightarrow> (Inr (), (fst st, r)))"

definition on_lemma :: "z3_world \<Rightarrow> zexpr \<Rightarrow> nat \<Rightarrow> fixedpoint_observer \<times> recorder \<Rightarrow> fixedpoint_observer \<times> recorder" where
  "on_lemma w e level st =
     guarded (recording_pair (emit w ''derive'' ''z3.spacer.lemma-export'' (fo_within (fst st))
       ''z3.fixedpoint.new-lemma-callback''
       (''Spacer lemma exported through the public fixedpoint callback after addition or duplicate encounter; '' @
        ''duplicates are possible and export does not establish causal contribution to the final result'')
       [FTerm ''lemma'' e, FNumber ''level'' level, FString ''relation'' ''learned-constraint-on-relation''])) st"

definition on_predecessor :: "z3_world \<Rightarrow> fixedpoint_observer \<times> recorder \<Rightarrow> fixedpoint_observer \<times> recorder" where
  "on_predecessor w st =
     guarded (thenA (modifyA (\<lambda>(ob, r). (ob\<lparr>fo_predecessor_count := Suc (fo_predecessor_count ob) mod 2 ^ 32\<rparr>, r)))
       (bindA (getA fst) (\<lambda>ob.
        recording_pair (emit w ''transition'' ''z3.spacer.predecessor'' (fo_within ob) ''z3.fixedpoint.predecessor-callback''
          ''Spacer crossed its public predecessor-search callback; the callback carries no rule, term, or success payload''
          [FNumber ''ordinal'' (fo_predecessor_count ob)])))) st"

definition on_unfold :: "z3_world \<Rightarrow> fixedpoint_observer \<times> recorder \<Rightarrow> fixedpoint_observer \<times> recorder" where
  "on_unfold w st =
     guarded (thenA (modifyA (\<lambda>(ob, r). (ob\<lparr>fo_unfold_count := Suc (fo_unfold_count ob) mod 2 ^ 32\<rparr>, r)))
       (bindA (getA fst) (\<lambda>ob.
        recording_pair (emit w ''transition'' ''z3.spacer.unfold'' (fo_within ob) ''z3.fixedpoint.unfold-callback''
          ''Spacer crossed its public unfold callback; the callback carries no relation, rule, or generated obligation''
          [FNumber ''ordinal'' (fo_unfold_count ob)])))) st"

definition rethrow_if_failed :: "fixedpoint_observer \<Rightarrow> fine_error + unit" where
  "rethrow_if_failed ob = (case fo_failure ob of Some e \<Rightarrow> Inl e | None \<Rightarrow> Inr ())"

lemmas observer_code [code] =
  on_binding_def [THEN fun_cong] instance_fields_def [THEN fun_cong] on_clause_def [THEN fun_cong]
  run_callback.simps [THEN fun_cong] solver_check_def [THEN fun_cong] on_rewrite.simps [THEN fun_cong]
  simplify_with_rainfall_def [THEN fun_cong]

end
