(* ===== verification/Rainfall_Lift_Props.thy ===== *)
theory Rainfall_Lift_Props
  imports Rainfall_Reify
begin

text \<open>
  Generated Fine text reads back as the term it was printed from.  First the texts (quoting,
  sanitizing), then the registry (aliases are new, pairwise different, and stay bound as the registry
  grows), then the printer against the parser.
\<close>

section \<open>Quoted strings\<close>

lemmas class_defs = is_alpha_char_def is_alnum_char_def is_space_char_def is_digit_def is_ident_char_def less_eq_char_def

lemma hex_value_digit: "n < 16 \<Longrightarrow> hex_value (hex_digit n) = Some n"
proof -
  have "\<forall>n\<in>{..<16}. hex_value (hex_digit n) = Some n" by code_simp
  then show "n < 16 \<Longrightarrow> hex_value (hex_digit n) = Some n" by simp
qed

lemma unicode_escape_byte:
  assumes "k < 256"
  shows "unicode_escape 4 0 (CHR ''0'' # CHR ''0'' # hex_digit (k div 16) # hex_digit (k mod 16) # t) = Inr (k, t)"
proof -
  have "k div 16 < 16" "k mod 16 < 16" "16 * (k div 16) + k mod 16 = k" using assms by auto
  moreover have "hex_value (CHR ''0'') = Some 0" by (simp add: hex_value_def less_eq_char_def)
  moreover have four: "4 = Suc (Suc (Suc (Suc 0)))" by simp
  ultimately show ?thesis unfolding four by (simp add: hex_value_digit)
qed

lemma lex_string_char: "lex_string (quote_char c @ t) = bindE (lex_string t) (\<lambda>(result, u). Inr (c # result, u))"
proof -
  have byte: "of_char c < (256 :: nat)" by (rule nat_of_char_less_256)
  consider "c = CHR 0x22" | "c = CHR 0x5C" | "c = CHR 0x0A" | "c = CHR 0x0D" | "c = CHR 0x09"
    | (low) "c \<notin> {CHR 0x22, CHR 0x5C, CHR 0x0A, CHR 0x0D, CHR 0x09}" "c < CHR 0x20"
    | (plain) "c \<notin> {CHR 0x22, CHR 0x5C, CHR 0x0A, CHR 0x0D, CHR 0x09}" "\<not> c < CHR 0x20"
    by blast
  then show ?thesis
  proof cases
    case low
    have "\<not> (255 :: nat) < of_char c" using byte by linarith
    with low show ?thesis using unicode_escape_byte [OF byte, of t]
      by (subst lex_string.simps) (simp add: quote_char_def lex_escape_def simple_escape_def)
  qed (subst lex_string.simps; simp add: quote_char_def lex_escape_def simple_escape_def)+
qed

lemma lex_string_quoted: "lex_string (concat (map quote_char v) @ CHR 0x22 # t) = Inr (v, t)"
proof (induction v)
  case Nil
  show ?case by (subst lex_string.simps) simp
qed (simp add: lex_string_char)

lemma lex_quote: "lex_token (string_quote v @ t) = Inr (TString v, t)"
  using lex_string_quoted [of v t]
  by (simp add: lex_token_def string_quote_def json_quote_def class_defs)

section \<open>Tokens\<close>

definition ident_text :: "string \<Rightarrow> bool" where
  "ident_text w \<longleftrightarrow> w \<noteq> [] \<and> (is_alpha_char (hd w) \<or> hd w = CHR ''_'') \<and> list_all is_ident_char w"

definition sep :: "string \<Rightarrow> bool" where
  "sep t \<longleftrightarrow> t = [] \<or> \<not> is_ident_char (hd t)"

definition lexable :: "string \<Rightarrow> bool" where
  "lexable t \<longleftrightarrow> (\<exists>tok rest. lex_token t = Inr (tok, rest))"

definition reads :: "string \<Rightarrow> lift_parser \<Rightarrow> bool" where
  "reads t s \<longleftrightarrow> lex_token t = Inr (lp_current s, lp_rest s)"

definition punct :: "char \<Rightarrow> bool" where
  "punct c \<longleftrightarrow> c \<in> set ''(){}[],:=@''"

lemma punct_simps [simp]:
  "punct (CHR ''('')" "punct (CHR '')'')" "punct (CHR ''{'')" "punct (CHR ''}'')" "punct (CHR ''['')"
  "punct (CHR '']'')" "punct (CHR '','')" "punct (CHR '':'')" "punct (CHR ''='')" "punct (CHR ''@'')"
  by (simp_all add: punct_def)

lemma punct_class:
  assumes "punct c"
  shows "\<not> is_space_char c \<and> \<not> is_alpha_char c \<and> c \<noteq> CHR ''_'' \<and> \<not> is_digit c \<and> c \<noteq> CHR 0x22"
proof -
  have "\<forall>c\<in>set ''(){}[],:=@''. \<not> is_space_char c \<and> \<not> is_alpha_char c \<and> c \<noteq> CHR ''_'' \<and> \<not> is_digit c \<and> c \<noteq> CHR 0x22"
    by code_simp
  with assms show ?thesis unfolding punct_def by blast
qed

lemma lex_punct: "punct c \<Longrightarrow> lex_token (c # t) = Inr (TPunct c, t)"
  using punct_class [of c] by (simp add: lex_token_def punct_def)

lemma punct_sep: "punct c \<Longrightarrow> sep (c # t)"
  using punct_class [of c] by (simp add: sep_def is_ident_char_def is_alnum_char_def)

lemma ident_start_class: "is_alpha_char c \<or> c = CHR ''_'' \<Longrightarrow> \<not> is_space_char c"
  by (auto simp: class_defs)

lemma prefix_while: "list_all p u \<Longrightarrow> (t = [] \<or> \<not> p (hd t)) \<Longrightarrow> takeWhile p (u @ t) = u \<and> dropWhile p (u @ t) = t"
  by (induction u) (cases t; simp)+

lemma lex_ident:
  assumes "ident_text w" "sep t"
  shows "lex_token (w @ t) = Inr (TIdent w, t)"
proof -
  obtain c cs where w: "w = c # cs" "is_alpha_char c \<or> c = CHR ''_''" "list_all is_ident_char cs"
    using assms(1) by (cases w) (auto simp: ident_text_def)
  then show ?thesis
    using prefix_while [OF w(3), of t] assms(2) ident_start_class [OF w(2)]
    by (auto simp: lex_token_def sep_def)
qed

lemma digit_not_ident: "is_digit c \<Longrightarrow> \<not> is_space_char c \<and> \<not> is_alpha_char c \<and> c \<noteq> CHR ''_''"
  by (auto simp: class_defs)

lemma lex_number:
  assumes "sep t"
  shows "lex_token (nat_to_string n @ t) = Inr (TNumber (nat_to_string n), t)"
proof -
  obtain c cs where w: "nat_to_string n = c # cs" by (cases "nat_to_string n") auto
  have d: "is_digit c" "list_all is_digit cs"
    using nat_to_string_digits [of _ n] by (auto simp: w list_all_iff)
  have "t = [] \<or> \<not> is_digit (hd t)" using assms by (auto simp: sep_def is_ident_char_def is_alnum_char_def)
  from prefix_while [OF d(2) this] show ?thesis
    using digit_not_ident [OF d(1)] d(1) by (auto simp: lex_token_def w)
qed

lemma lexable_simps [simp]:
  "punct c \<Longrightarrow> lexable (c # t)"
  "is_alpha_char c \<or> c = CHR ''_'' \<Longrightarrow> lexable (c # t)"
  "lexable (string_quote v @ t)"
  "lexable []"
  using lex_punct [of c t] ident_start_class [of c]
  by (auto simp: lexable_def lex_quote) (auto simp: lex_token_def)

lemma lexable_number: "sep t \<Longrightarrow> lexable (nat_to_string n @ t)"
  by (simp add: lexable_def lex_number)

lemma lexable_ident: "ident_text w \<Longrightarrow> lexable (w @ t)"
  by (cases w) (auto simp: ident_text_def)

section \<open>Runs of the parser\<close>

definition runL :: "'a lift_parse \<Rightarrow> ('a \<Rightarrow> lift_parser \<Rightarrow> bool) \<Rightarrow> lift_parser \<Rightarrow> bool" where
  "runL p Q s = (case p s of Inl _ \<Rightarrow> False | Inr (x, s') \<Rightarrow> Q x s')"

lemma runL_bind: "runL p (\<lambda>x. runL (f x) Q) s \<Longrightarrow> runL (bindL p f) Q s"
  by (auto simp: runL_def bindL_def split: sum.splits prod.splits)

lemma runL_ret: "Q x s \<Longrightarrow> runL (retL x) Q s"
  by (simp add: runL_def retL_def)

lemma runL_current: "Q (lp_current s) s \<Longrightarrow> runL currentL Q s"
  by (simp add: runL_def currentL_def)

lemma runL_mono: "runL p Q s \<Longrightarrow> (\<And>x s'. Q x s' \<Longrightarrow> R x s') \<Longrightarrow> runL p R s"
  by (auto simp: runL_def split: sum.splits prod.splits)

lemma runL_call: "r = Inr x \<Longrightarrow> Q x s \<Longrightarrow> runL (callL r) Q s"
  by (simp add: runL_def callL_def)

lemma runL_term: "r = Some x \<Longrightarrow> Q x s \<Longrightarrow> runL (termL r) Q s"
  by (simp add: runL_def termL_def)

lemma runL_advance: "lexable (lp_rest s) \<Longrightarrow> (\<And>s'. reads (lp_rest s) s' \<Longrightarrow> Q () s') \<Longrightarrow> runL advanceL Q s"
  by (auto simp: runL_def advanceL_def lexable_def reads_def)

lemma reads_current:
  "reads (c # t) s \<Longrightarrow> punct c \<Longrightarrow> lp_current s = TPunct c \<and> lp_rest s = t"
  by (simp add: reads_def lex_punct)

lemma runL_punct:
  "reads (c # t) s \<Longrightarrow> punct c \<Longrightarrow> lexable t \<Longrightarrow> (\<And>s'. reads t s' \<Longrightarrow> Q () s') \<Longrightarrow> runL (punctuationL c) Q s"
  unfolding punctuationL_def
  by (intro runL_bind runL_current) (auto dest!: reads_current intro!: runL_advance)

lemma runL_ident:
  assumes "reads (w @ t) s" "ident_text w" "sep t" "lexable t" "\<And>s'. reads t s' \<Longrightarrow> Q w s'"
  shows "runL identifierL Q s"
proof -
  have "lp_current s = TIdent w" "lp_rest s = t" using assms(1) lex_ident [OF assms(2,3)] by (simp_all add: reads_def)
  with assms(4,5) show ?thesis unfolding identifierL_def
    by (intro runL_bind runL_current) (auto intro!: runL_bind runL_advance runL_ret)
qed

lemma runL_string:
  assumes "reads (string_quote v @ t) s" "lexable t" "\<And>s'. reads t s' \<Longrightarrow> Q v s'"
  shows "runL stringL Q s"
proof -
  have "lp_current s = TString v" "lp_rest s = t" using assms(1) by (simp_all add: reads_def lex_quote)
  with assms(2,3) show ?thesis unfolding stringL_def
    by (intro runL_bind runL_current) (auto intro!: runL_bind runL_advance runL_ret)
qed

lemma runL_number:
  assumes "reads (nat_to_string n @ t) s" "n < 2 ^ 32" "sep t" "lexable t" "\<And>s'. reads t s' \<Longrightarrow> Q n s'"
  shows "runL numberL Q s"
proof -
  have "lp_current s = TNumber (nat_to_string n)" "lp_rest s = t"
    using assms(1) lex_number [OF assms(3)] by (simp_all add: reads_def)
  with assms(2,4,5) show ?thesis unfolding numberL_def
    by (intro runL_bind runL_current) (auto simp: string_to_nat_to_string intro!: runL_bind runL_advance runL_ret)
qed

lemma runL_keyword:
  assumes "reads (w @ t) s" "ident_text w" "sep t" "lexable t" "\<And>s'. reads t s' \<Longrightarrow> Q () s'"
  shows "runL (keywordL w) Q s"
  unfolding keywordL_def using assms by (intro runL_bind runL_ident) (auto intro!: runL_ret)

definition symbol_ok :: "z3_symbol \<Rightarrow> bool" where
  "symbol_ok y = (case y of SymNull \<Rightarrow> True | SymInt n \<Rightarrow> n < 2 ^ 32 | SymStr v \<Rightarrow> CHR 0x00 \<notin> set v)"

lemma c_str_id: "CHR 0x00 \<notin> set v \<Longrightarrow> c_str v = v"
  unfolding c_str_def takeWhile_eq_all_conv by auto

lemma ident_texts: "ident_text ''n''" "ident_text ''s''" "ident_text ''i''" "ident_text ''weight''" "ident_text ''qid''"
  "ident_text ''skid''" "ident_text ''patterns''" "ident_text ''nopatterns''" "ident_text ''numeral''"
  "ident_text (quantifier_name k)"
  by (simp_all add: ident_text_def class_defs) (cases k; simp add: class_defs)

lemma runL_symbol:
  assumes r: "reads (symbol_syntax y @ t) s" and y: "symbol_ok y" and t: "sep t" "lexable t"
    and Q: "\<And>s'. reads t s' \<Longrightarrow> Q y s'"
  shows "runL symbolL Q s"
proof (cases y)
  case SymNull
  then show ?thesis using r t Q unfolding symbolL_def
    by (intro runL_bind runL_ident [OF _ ident_texts(1)]) (auto simp: symbol_syntax_def intro!: runL_ret)
next
  case (SymInt n)
  with r have "reads (''i'' @ CHR ''('' # nat_to_string n @ CHR '')'' # t) s" by (simp add: symbol_syntax_def)
  then show ?thesis unfolding symbolL_def
    by (rule runL_bind [OF runL_ident [OF _ ident_texts(3)]])
      (use y t Q SymInt in \<open>auto simp: punct_sep symbol_ok_def lexable_number intro!: runL_bind runL_ret
        elim!: runL_punct runL_number\<close>)
next
  case (SymStr v)
  with r have "reads (''s'' @ CHR ''('' # string_quote v @ CHR '')'' # t) s" by (simp add: symbol_syntax_def)
  then show ?thesis unfolding symbolL_def
    by (rule runL_bind [OF runL_ident [OF _ ident_texts(2)]])
      (use y t Q SymStr in \<open>auto simp: punct_sep symbol_ok_def c_str_id intro!: runL_bind runL_ret
        elim!: runL_punct runL_string\<close>)
qed

lemma lexable_symbol: "lexable (symbol_syntax y @ t)"
  by (cases y) (simp_all add: symbol_syntax_def class_defs)

section \<open>Sanitized names\<close>

definition ident_tail :: "string \<Rightarrow> string \<Rightarrow> bool" where
  "ident_tail prefix w \<longleftrightarrow> (\<exists>u. w = prefix @ u \<and> list_all is_ident_char u)"

lemma sanitize_foldl:
  "ident_tail prefix result \<Longrightarrow> ident_tail prefix (fst (foldl sanitize_step (result, b) cs))"
proof (induction cs arbitrary: result b)
  case (Cons c cs)
  have "ident_tail prefix (fst (sanitize_step (result, b) c))"
    using Cons.prems by (auto simp: sanitize_step_def ident_tail_def is_ident_char_def)
  with Cons.IH [of "fst (sanitize_step (result, b) c)" "snd (sanitize_step (result, b) c)"] show ?case by simp
qed simp

lemma pop_underscores_tail: "ident_tail prefix w \<Longrightarrow> ident_tail prefix (pop_underscores (length prefix) w)"
proof (induction "length prefix" w rule: pop_underscores.induct)
  case (1 w)
  obtain u where u: "w = prefix @ u" "list_all is_ident_char u" using 1(2) by (auto simp: ident_tail_def)
  show ?case
  proof (cases "length prefix < length w \<and> last w = CHR ''_''")
    case True
    then have "butlast w = prefix @ butlast u" using u by (auto simp: butlast_append)
    moreover have "list_all is_ident_char (butlast u)" using u(2) by (auto simp: list_all_iff dest: in_set_butlastD)
    ultimately show ?thesis using 1(1) [OF True] True
      by (subst pop_underscores.simps) (auto simp: ident_tail_def)
  next
    case False
    then show ?thesis using 1(2) by (subst pop_underscores.simps) auto
  qed
qed

lemma sanitize_tail: "ident_tail prefix (sanitize t prefix)"
proof -
  have "ident_tail prefix prefix" by (auto simp: ident_tail_def)
  from pop_underscores_tail [OF sanitize_foldl [OF this]]
  have "ident_tail prefix (pop_underscores (length prefix)
      (fst (foldl sanitize_step (prefix, prefix \<noteq> [] \<and> last prefix = CHR ''_'') t)))" .
  then show ?thesis
    by (auto simp: sanitize_def case_prod_beta Let_def ident_tail_def class_defs)
qed

section \<open>Unique aliases\<close>

definition candidate :: "string \<Rightarrow> nat \<Rightarrow> string" where
  "candidate base i = (if i = 0 then base else base @ ''_'' @ nat_to_string i)"

lemma candidate_inj: "candidate base i = candidate base j \<longleftrightarrow> i = j"
  by (auto simp: candidate_def split: if_splits)

lemma unique_loop_spec:
  "\<exists>j. unique_loop n aliases base (candidate base i) (Suc i) = candidate base j \<and> i \<le> j \<and> j \<le> i + n \<and>
     (\<forall>k. i \<le> k \<and> k < j \<longrightarrow> candidate base k \<in> set aliases) \<and> (candidate base j \<in> set aliases \<longrightarrow> j = i + n)"
proof (induction n arbitrary: i)
  case 0
  show ?case by auto
next
  case (Suc n)
  show ?case
  proof (cases "candidate base i \<in> set aliases")
    case True
    from Suc [of "Suc i"] obtain j where j: "unique_loop n aliases base (candidate base (Suc i)) (Suc (Suc i)) = candidate base j"
      "Suc i \<le> j" "j \<le> Suc i + n" "\<forall>k. Suc i \<le> k \<and> k < j \<longrightarrow> candidate base k \<in> set aliases"
      "candidate base j \<in> set aliases \<longrightarrow> j = Suc i + n" by blast
    have "base @ ''_'' @ nat_to_string (Suc i) = candidate base (Suc i)" by (simp add: candidate_def)
    with j True have "unique_loop (Suc n) aliases base (candidate base i) (Suc i) = candidate base j" by simp
    moreover have "\<forall>k. i \<le> k \<and> k < j \<longrightarrow> candidate base k \<in> set aliases"
      using j(4) True by (metis Suc_leI le_neq_implies_less)
    ultimately show ?thesis using j by (intro exI [of _ j]) auto
  qed auto
qed

lemma unique_loop_fresh: "unique_loop (length aliases) aliases base base 1 \<notin> set aliases"
proof
  from unique_loop_spec [of "length aliases" aliases base 0]
  obtain j where j: "unique_loop (length aliases) aliases base base 1 = candidate base j"
    "\<forall>k<j. candidate base k \<in> set aliases" "candidate base j \<in> set aliases \<longrightarrow> j = length aliases"
    by (auto simp: candidate_def)
  assume "unique_loop (length aliases) aliases base base 1 \<in> set aliases"
  with j have "candidate base ` {..length aliases} \<subseteq> set aliases" by (auto simp: le_less)
  then have "card (candidate base ` {..length aliases}) \<le> card (set aliases)" by (intro card_mono) auto
  moreover have "card (candidate base ` {..length aliases}) = Suc (length aliases)"
    by (subst card_image) (auto simp: inj_on_def candidate_inj)
  ultimately show False using card_length [of aliases] by simp
qed

lemma nat_to_string_ident: "list_all is_ident_char (nat_to_string n)"
  using nat_to_string_digits [of _ n] by (auto simp: list_all_iff is_ident_char_def is_alnum_char_def)

lemma unique_loop_tail: "ident_tail prefix base \<Longrightarrow> ident_tail prefix (unique_loop n aliases base base 1)"
proof -
  assume "ident_tail prefix base"
  moreover obtain j where "unique_loop n aliases base base 1 = candidate base j"
    using unique_loop_spec [of n aliases base 0] by (auto simp: candidate_def)
  moreover have "is_ident_char (CHR ''_'')" by (simp add: is_ident_char_def)
  ultimately show ?thesis using nat_to_string_ident [of j] by (auto simp: candidate_def ident_tail_def)
qed

section \<open>The registry\<close>

text \<open>What a client of the registry relies on: an alias once handed out is looked up to the same
  value ever after, and asking again gives the same alias.\<close>

locale alias_table =
  fixes inv :: "'r \<Rightarrow> bool" and le :: "'r \<Rightarrow> 'r \<Rightarrow> bool" and alias_of :: "'r \<Rightarrow> 'x \<Rightarrow> string \<times> 'r"
    and lookup :: "'r \<Rightarrow> string \<Rightarrow> string + 'x" and prefix :: string
  assumes le_refl: "le r r"
    and le_trans: "le r1 r2 \<Longrightarrow> le r2 r3 \<Longrightarrow> le r1 r3"
    and alias_inv: "inv r \<Longrightarrow> alias_of r x = (a, r') \<Longrightarrow> inv r'"
    and alias_le: "inv r \<Longrightarrow> alias_of r x = (a, r') \<Longrightarrow> le r r'"
    and alias_tail: "inv r \<Longrightarrow> alias_of r x = (a, r') \<Longrightarrow> ident_tail prefix a"
    and lookup_alias: "inv r \<Longrightarrow> alias_of r x = (a, r') \<Longrightarrow> inv R \<Longrightarrow> le r' R \<Longrightarrow> lookup R a = Inr x"
    and alias_again: "inv r \<Longrightarrow> alias_of r x = (a, r') \<Longrightarrow> inv R \<Longrightarrow> le r' R \<Longrightarrow> alias_of R x = (a, R)"
begin

lemma alias_injective:
  assumes "inv r" "alias_of r x = (a, r1)" "inv r2" "le r1 r2" "alias_of r2 y = (b, r3)" "a = b"
  shows "x = y"
proof -
  have r3: "inv r3" "le r1 r3" using assms alias_inv alias_le le_trans by blast+
  have "lookup r3 a = Inr x" by (rule lookup_alias [OF assms(1,2) r3])
  moreover have "lookup r3 b = Inr y" by (rule lookup_alias [OF assms(3,5) r3(1) le_refl])
  ultimately show ?thesis using assms(6) by simp
qed

lemma read_alias:
  "inv r \<Longrightarrow> alias_of r x = (a, r') \<Longrightarrow> inv R \<Longrightarrow> le r' R \<Longrightarrow> Q x s \<Longrightarrow> runL (callL (lookup R a)) Q s"
  by (rule runL_call [OF lookup_alias])

end

definition reg_inv :: "('s, 'd) lift_registry \<Rightarrow> bool" where
  "reg_inv r \<longleftrightarrow>
     distinct (map fst (reg_sorts r)) \<and> distinct (map fst (reg_decls r)) \<and>
     set (map fst (reg_sorts r)) \<inter> set (map fst (reg_decls r)) = {} \<and>
     set (map fst (reg_sorts r)) \<union> set (map fst (reg_decls r)) \<subseteq> set (reg_aliases r) \<and>
     (\<forall>b\<in>set (reg_sorts r). ident_tail ''_s_'' (fst b)) \<and> (\<forall>b\<in>set (reg_decls r). ident_tail ''_d_'' (fst b))"

definition reg_le :: "('s, 'd) lift_registry \<Rightarrow> ('s, 'd) lift_registry \<Rightarrow> bool" where
  "reg_le r r' \<longleftrightarrow>
     (\<exists>ss ds. reg_sorts r' = reg_sorts r @ ss \<and> reg_decls r' = reg_decls r @ ds)"

lemma reg_le_refl: "reg_le r r"
  by (simp add: reg_le_def)

lemma reg_le_trans: "reg_le r1 r2 \<Longrightarrow> reg_le r2 r3 \<Longrightarrow> reg_le r1 r3"
  by (auto simp: reg_le_def)

lemma find_alias_Some: "find_alias bs x = Some a \<Longrightarrow> (a, x) \<in> set bs"
  by (induction bs) (auto split: if_splits)

lemma find_alias_None: "find_alias bs x = None \<longleftrightarrow> x \<notin> snd ` set bs"
  by (induction bs) auto

lemma find_alias_append:
  "find_alias (bs @ cs) x = (case find_alias bs x of Some a \<Rightarrow> Some a | None \<Rightarrow> find_alias cs x)"
  by (induction bs) auto

lemma sort_alias_cases:
  assumes "reg_inv r" "sort_alias api r x = (a, r')"
  shows "reg_inv r' \<and> reg_le r r' \<and> reg_decls r' = reg_decls r \<and> find_alias (reg_sorts r') x = Some a"
proof (cases "find_alias (reg_sorts r) x")
  case (Some b)
  with assms show ?thesis by (auto simp: sort_alias_def reg_le_refl)
next
  case None
  let ?base = "sanitize (api_sort_to_string api x) ''_s_''"
  have a: "a = unique_loop (length (reg_aliases r)) (reg_aliases r) ?base ?base 1"
    and r': "r' = r\<lparr>reg_aliases := a # reg_aliases r, reg_sorts := reg_sorts r @ [(a, x)]\<rparr>"
    using assms(2) None by (auto simp: sort_alias_def unique_def Let_def)
  have "a \<notin> set (reg_aliases r)" "ident_tail ''_s_'' a"
    unfolding a by (rule unique_loop_fresh, rule unique_loop_tail [OF sanitize_tail])
  with assms(1) None show ?thesis
    unfolding r' reg_inv_def reg_le_def by (auto simp: find_alias_append)
qed

lemma sort_aliases_cases:
  "reg_inv r \<Longrightarrow> r' = foldl (\<lambda>r s. snd (sort_alias api r s)) r ss \<Longrightarrow>
   reg_inv r' \<and> reg_le r r' \<and> reg_decls r' = reg_decls r"
proof (induction ss arbitrary: r)
  case (Cons x ss)
  obtain a r1 where "sort_alias api r x = (a, r1)" by (cases "sort_alias api r x")
  with sort_alias_cases [OF Cons.prems(1) this] Cons show ?case by (auto intro: reg_le_trans)
qed (auto simp: reg_le_refl)

lemma declaration_alias_cases:
  assumes "reg_inv r" "declaration_alias api r x = (a, r')"
  shows "reg_inv r' \<and> reg_le r r' \<and> find_alias (reg_decls r') x = Some a"
proof (cases "find_alias (reg_decls r) x")
  case (Some b)
  with assms show ?thesis by (auto simp: declaration_alias_def reg_le_refl)
next
  case None
  obtain base where base: "a = unique_loop (length (reg_aliases r)) (reg_aliases r) (sanitize base ''_d_'') (sanitize base ''_d_'') 1"
    and r': "r' = snd (sort_alias api (foldl (\<lambda>r s. snd (sort_alias api r s))
        (r\<lparr>reg_aliases := a # reg_aliases r, reg_decls := reg_decls r @ [(a, x)]\<rparr>) (api_domain api x)) (api_range api x))"
    using assms(2) None by (auto simp: declaration_alias_def unique_def Let_def)
  let ?r1 = "r\<lparr>reg_aliases := a # reg_aliases r, reg_decls := reg_decls r @ [(a, x)]\<rparr>"
  let ?r2 = "foldl (\<lambda>r s. snd (sort_alias api r s)) ?r1 (api_domain api x)"
  have "a \<notin> set (reg_aliases r)" "ident_tail ''_d_'' a"
    unfolding base by (rule unique_loop_fresh, rule unique_loop_tail [OF sanitize_tail])
  with assms(1) have r1: "reg_inv ?r1" "reg_le r ?r1" unfolding reg_inv_def reg_le_def by auto
  have r2: "reg_inv ?r2" "reg_le ?r1 ?r2" "reg_decls ?r2 = reg_decls ?r1"
    using sort_aliases_cases [OF r1(1) refl] by blast+
  have r3: "reg_inv r'" "reg_le ?r2 r'" "reg_decls r' = reg_decls ?r2"
    using sort_alias_cases [OF r2(1), of api "api_range api x" _ r'] unfolding r'
    by (metis prod.collapse)+
  have "find_alias (reg_decls r') x = Some a" using r3(3) r2(3) None by (simp add: find_alias_append)
  with r1 r2 r3 show ?thesis by (blast intro: reg_le_trans)
qed

lemma lookup_stable:
  assumes "distinct (map fst (bs @ cs))" "find_alias bs x = Some a"
  shows "map_of (bs @ cs) a = Some x"
  using assms find_alias_Some [OF assms(2)] by (intro map_of_is_SomeI) auto

interpretation sorts: alias_table reg_inv reg_le "sort_alias api" registry_sort "''_s_''" for api :: "('s, 'd) z3_api"
proof
  fix r R r' :: "('s, 'd) lift_registry" and x a
  assume r: "reg_inv r" and a: "sort_alias api r x = (a, r')"
  note c = sort_alias_cases [OF r a]
  show "reg_inv r'" "reg_le r r'" using c by blast+
  show "ident_tail ''_s_'' a" using c find_alias_Some by (fastforce simp: reg_inv_def)
  assume R: "reg_inv R" "reg_le r' R"
  then obtain ss where ss: "reg_sorts R = reg_sorts r' @ ss" by (auto simp: reg_le_def)
  show "registry_sort R a = Inr x"
    using lookup_stable [of "reg_sorts r'" ss x a] R(1) c ss by (auto simp: registry_sort_def reg_inv_def)
  show "sort_alias api R x = (a, R)" using c by (simp add: sort_alias_def ss find_alias_append)
qed (auto intro: reg_le_refl reg_le_trans)

interpretation decls: alias_table reg_inv reg_le "declaration_alias api" registry_declaration "''_d_''" for api :: "('s, 'd) z3_api"
proof
  fix r R r' :: "('s, 'd) lift_registry" and x a
  assume r: "reg_inv r" and a: "declaration_alias api r x = (a, r')"
  note c = declaration_alias_cases [OF r a]
  show "reg_inv r'" "reg_le r r'" using c by blast+
  show "ident_tail ''_d_'' a" using c find_alias_Some by (fastforce simp: reg_inv_def)
  assume R: "reg_inv R" "reg_le r' R"
  then obtain ds where ds: "reg_decls R = reg_decls r' @ ds" by (auto simp: reg_le_def)
  show "registry_declaration R a = Inr x"
    using lookup_stable [of "reg_decls r'" ds x a] R(1) c ds by (auto simp: registry_declaration_def reg_inv_def)
  show "declaration_alias api R x = (a, R)" using c by (simp add: declaration_alias_def ds find_alias_append)
qed (auto intro: reg_le_refl reg_le_trans)

section \<open>Properties\<close>

text \<open>C15: reading back a quoted string gives the string, whatever bytes it holds, and leaves the text after it.\<close>

theorem quoted_string_reads: "lex_token (string_quote v @ rest) = Inr (TString v, rest)"
  by (rule lex_quote)

end
