(* ===== verification/Rainfall_Round_Trip.thy ===== *)
theory Rainfall_Round_Trip
  imports Rainfall_Lift_Props
begin

text \<open>
  The printer of \<open>Rainfall_Lift\<close> against the parser of \<open>Rainfall_Reify\<close>: the text of every term that
  Z3 can rebuild from its parts reads back as that term, so that the identity check of
  \<open>lift_rainfall_term\<close> never fails and lifting never throws.
\<close>

section \<open>Terms\<close>

text \<open>A term the manager can hold: its bound variables have the index and sort of an enclosing
  binder, and Z3 rebuilds each of its nodes from the parts the API reads off it.  \<open>bound\<close> lists the
  sorts of the enclosing binders, the innermost last.\<close>

fun wf_term :: "('s, 'd) z3_api \<Rightarrow> 's list \<Rightarrow> ('s, 'd) z3_expr \<Rightarrow> bool" where
  "wf_term api bound (ZNumeral v s) \<longleftrightarrow> api_mk_numeral api v s = Some (ZNumeral v s) \<and> CHR 0x00 \<notin> set v"
| "wf_term api bound (ZApp d args) \<longleftrightarrow>
     api_mk_app api d args = Some (ZApp d args) \<and> (\<forall>e\<in>set args. wf_term api bound e)"
| "wf_term api bound (ZVar i s) \<longleftrightarrow> i < length bound \<and> bound ! (length bound - 1 - i) = s"
| "wf_term api bound (ZQuant k w qid skid bs body pats nopats) \<longleftrightarrow>
     w < 2 ^ 32 \<and> symbol_ok qid \<and> symbol_ok skid \<and> (\<forall>b\<in>set bs. symbol_ok (fst b)) \<and>
     (if k = QLambda
      then w = 0 \<and> pats = [] \<and> nopats = [] \<and>
           api_mk_lambda api bs body = Some (ZQuant k w qid skid bs body pats nopats)
      else api_mk_quantifier api (k = QForall) w qid skid bs body pats nopats =
           Some (ZQuant k w qid skid bs body pats nopats)) \<and>
     wf_term api (bound @ map snd bs) body \<and>
     (\<forall>p\<in>set pats. \<forall>e\<in>set p. wf_term api (bound @ map snd bs) e) \<and>
     (\<forall>e\<in>set nopats. wf_term api (bound @ map snd bs) e)"

section \<open>Lists of items\<close>

definition closing :: "string \<Rightarrow> bool" where
  "closing t \<longleftrightarrow> t = [] \<or> hd t \<in> set '',)]}''"

lemma closing_sep: "closing t \<Longrightarrow> sep t \<and> lexable t"
  by (cases t) (auto simp: closing_def sep_def class_defs)

lemma closing_Cons [simp]:
  "closing (CHR '','' # t)" "closing (CHR '')'' # t)" "closing (CHR '']'' # t)" "closing (CHR ''}'' # t)"
  by (simp_all add: closing_def)

text \<open>An item parser reads the text \<open>u\<close> as \<open>x\<close>; the text does not start like the end of a list.\<close>

definition item_reads :: "'a lift_parse \<Rightarrow> 'a \<Rightarrow> string \<Rightarrow> bool" where
  "item_reads item x u \<longleftrightarrow>
     (\<forall>t. lexable (u @ t)) \<and>
     (\<forall>t s. reads (u @ t) s \<longrightarrow> lp_current s \<noteq> TPunct (CHR '')'') \<and> lp_current s \<noteq> TPunct (CHR '']'')) \<and>
     (\<forall>t s. closing t \<longrightarrow> reads (u @ t) s \<longrightarrow> runL item (\<lambda>y s'. y = x \<and> reads t s') s)"

lemma item_reads_run:
  assumes "item_reads item x u" "reads (u @ t) s" "closing t" "\<And>s'. reads t s' \<Longrightarrow> Q x s'"
  shows "runL item Q s"
proof (rule runL_mono)
  show "runL item (\<lambda>y s'. y = x \<and> reads t s') s" using assms(1-3) by (simp add: item_reads_def)
qed (use assms(4) in auto)

lemma join_commas_Cons: "join_commas (t # ts) = t @ concat (map (\<lambda>u. '','' @ u) ts)"
  by (induction ts arbitrary: t) auto

lemma item_current: "item_reads item x u \<Longrightarrow> reads (u @ t) s \<Longrightarrow> close \<in> set '')]'' \<Longrightarrow> lp_current s \<noteq> TPunct close"
  unfolding item_reads_def by auto

lemma listL_run:
  assumes "list_all2 (item_reads item) xs texts" "close \<in> set '')]''" "length xs < m"
    and "reads (join_commas texts @ close # t) s" and Q: "\<And>s'. reads (close # t) s' \<Longrightarrow> Q xs s'"
  shows "runL (listL m close msg item) Q s"
  using assms
proof (induction xs arbitrary: texts m s Q)
  case Nil
  obtain k where m: "m = Suc k" using Nil.prems(3) by (cases m) auto
  have "punct close" using Nil.prems(2) by auto
  with Nil.prems reads_current [of close t s] show ?case
    unfolding m listL.simps by (intro runL_bind runL_current) (auto intro!: runL_ret)
next
  case (Cons x xs)
  obtain u us where us: "texts = u # us" "item_reads item x u" "list_all2 (item_reads item) xs us"
    using Cons.prems(1) by (cases texts) auto
  obtain k where m: "m = Suc k" using Cons.prems(3) by (cases m) auto
  have p: "punct close" and comma: "close \<noteq> CHR '',''" using Cons.prems(2) by auto
  let ?rest = "(if us = [] then [] else '','' @ join_commas us) @ close # t"
  have r: "reads (u @ ?rest) s" using Cons.prems(4) us(1) by (cases us) (auto simp: join_commas_Cons)
  have cl: "closing ?rest" using Cons.prems(2) by (cases us) (auto simp: closing_def)
  have tail: "runL (listL k close msg item) (\<lambda>ys. runL (retL (x # ys)) Q) s'"
    if "reads (join_commas us @ close # t) s'" for s'
    using Cons.prems(3) m by (intro Cons.IH [OF us(3) Cons.prems(2) _ that] runL_ret Cons.prems(5)) auto
  have next_item: "runL (bindL currentL (\<lambda>t. bindL (if t = TPunct (CHR '','') then punctuationL (CHR '','')
        else if t \<noteq> TPunct close then failL msg else retL ()) (\<lambda>_.
        bindL (listL k close msg item) (\<lambda>xs. retL (x # xs))))) Q s'" if "reads ?rest s'" for s'
  proof (cases us)
    case Nil
    with that have c: "reads (close # t) s'" by simp
    with reads_current [OF c p] comma Nil tail [of s'] show ?thesis
      by (intro runL_bind runL_current) (auto intro!: runL_ret runL_bind)
  next
    case (Cons v vs)
    with that have c: "reads (CHR '','' # join_commas us @ close # t) s'" by simp
    have "lexable (join_commas us @ close # t)"
      using us(3) Cons by (auto simp: join_commas_Cons item_reads_def list_all2_Cons2)
    with reads_current [OF c] tail show ?thesis
      by (intro runL_bind runL_current) (auto intro!: runL_bind runL_punct [OF c])
  qed
  have "runL item (\<lambda>y. runL (bindL currentL (\<lambda>t. bindL (if t = TPunct (CHR '','') then punctuationL (CHR '','')
        else if t \<noteq> TPunct close then failL msg else retL ()) (\<lambda>_.
        bindL (listL k close msg item) (\<lambda>xs. retL (y # xs))))) Q) s"
    by (rule item_reads_run [OF us(2) r cl]) (rule next_item)
  then show ?case unfolding m listL.simps using item_current [OF us(2) r Cons.prems(2)]
    by (intro runL_bind runL_current) (auto intro!: runL_bind)
qed

section \<open>Binders\<close>

lemma ident_tail_text:
  "ident_tail ''_s_'' w \<Longrightarrow> ident_text w" "ident_tail ''_d_'' w \<Longrightarrow> ident_text w" "ident_text (bound_name n)"
  using nat_to_string_ident [of n]
  by (auto simp: ident_tail_def ident_text_def is_ident_char_def is_alnum_char_def bound_name_def class_defs)

lemma bound_name_inject [simp]: "bound_name m = bound_name n \<longleftrightarrow> m = n"
  by (simp add: bound_name_def)

lemma ident_reads_current:
  assumes "ident_text w" "reads (w @ t) s"
  shows "\<exists>v. lp_current s = TIdent v"
proof -
  obtain c cs where "w = c # cs" "is_alpha_char c \<or> c = CHR ''_''" using assms(1) by (cases w) (auto simp: ident_text_def)
  then show ?thesis using assms(2) ident_start_class [of c]
    by (intro exI [of _ "c # takeWhile is_ident_char (cs @ t)"]) (auto simp: reads_def lex_token_def)
qed

lemma binder_reads:
  assumes "ident_text alias" "symbol_ok y" "ident_text srt" "registry_sort R srt = Inr x"
  shows "item_reads (binderL R) (alias, y, x) (alias @ ''@'' @ symbol_syntax y @ '':'' @ srt)"
  unfolding item_reads_def
proof (intro conjI allI impI)
  show "lexable ((alias @ ''@'' @ symbol_syntax y @ '':'' @ srt) @ t)" for t
    by (simp add: lexable_ident assms(1))
  fix t s assume r: "reads ((alias @ ''@'' @ symbol_syntax y @ '':'' @ srt) @ t) s"
  then have r': "reads (alias @ CHR ''@'' # symbol_syntax y @ CHR '':'' # srt @ t) s" by simp
  from ident_reads_current [OF assms(1) r'] show
    "lp_current s \<noteq> TPunct (CHR '')'')" "lp_current s \<noteq> TPunct (CHR '']'')" by auto
  assume t: "closing t"
  show "runL (binderL R) (\<lambda>z s'. z = (alias, y, x) \<and> reads t s') s"
    unfolding binderL_def
    by (rule runL_bind, rule runL_ident [OF r' assms(1)])
      (auto simp: punct_sep closing_sep [OF t] assms lexable_symbol lexable_ident intro!: runL_bind runL_ret runL_call
        elim!: runL_punct runL_symbol runL_ident)
qed

definition binder_values :: "(string \<times> 's) list \<Rightarrow> (z3_symbol \<times> 's) list \<Rightarrow> (string \<times> z3_symbol \<times> 's) list" where
  "binder_values bindings bs = map (\<lambda>(b, c). (fst b, fst c, snd b)) (zip bindings bs)"

definition binders_ok ::
  "('s, 'd) printer_state \<Rightarrow> (z3_symbol \<times> 's) list \<Rightarrow> string list \<Rightarrow> (string \<times> 's) list \<Rightarrow> ('s, 'd) printer_state \<Rightarrow> bool" where
  "binders_ok st bs texts bindings st' \<longleftrightarrow>
     reg_inv (pr_registry st') \<and> reg_le (pr_registry st) (pr_registry st') \<and>
     pr_next_bound st' = pr_next_bound st + length bs \<and>
     map snd bindings = map snd bs \<and>
     map fst bindings = map bound_name [pr_next_bound st..<pr_next_bound st'] \<and>
     (\<forall>R. reg_inv R \<longrightarrow> reg_le (pr_registry st') R \<longrightarrow>
        list_all2 (item_reads (binderL R)) (binder_values bindings bs) texts)"

lemma binders_text_ok:
  "reg_inv (pr_registry st) \<Longrightarrow> binders_text api bs st = (texts, bindings, st') \<Longrightarrow> \<forall>b\<in>set bs. symbol_ok (fst b) \<Longrightarrow>
   binders_ok st bs texts bindings st'"
proof (induction bs arbitrary: st texts bindings)
  case Nil
  then show ?case by (auto simp: binders_ok_def binder_values_def reg_le_refl)
next
  case (Cons b bs)
  obtain srt r where a: "sort_alias api (pr_registry st) (snd b) = (srt, r)" by (cases "sort_alias api (pr_registry st) (snd b)")
  let ?st = "\<lparr>pr_registry = r, pr_next_bound = Suc (pr_next_bound st)\<rparr>"
  obtain us cs where rec: "binders_text api bs ?st = (us, cs, st')"
    and texts: "texts = (bound_name (pr_next_bound st) @ ''@'' @ symbol_syntax (fst b) @ '':'' @ srt) # us"
    and bindings: "bindings = (bound_name (pr_next_bound st), snd b) # cs"
    using Cons.prems(2) a by (auto simp: Let_def split: prod.splits)
  have r: "reg_inv r" "reg_le (pr_registry st) r" "ident_text srt"
    using sorts.alias_inv [OF Cons.prems(1) a] sorts.alias_le [OF Cons.prems(1) a]
      ident_tail_text(1) [OF sorts.alias_tail [OF Cons.prems(1) a]] by blast+
  have ih: "binders_ok ?st bs us cs st'" using Cons.IH [OF _ rec] r(1) Cons.prems(3) by simp
  then have le: "reg_le r (pr_registry st')" by (simp add: binders_ok_def)
  have "item_reads (binderL R) (bound_name (pr_next_bound st), fst b, snd b)
      (bound_name (pr_next_bound st) @ ''@'' @ symbol_syntax (fst b) @ '':'' @ srt)"
    if "reg_inv R" "reg_le (pr_registry st') R" for R
    using Cons.prems(3) that
    by (intro binder_reads ident_tail_text r(3) sorts.lookup_alias [OF Cons.prems(1) a]) (auto intro: reg_le_trans [OF le])
  with ih r(2) le show ?case
    by (auto simp: binders_ok_def texts bindings binder_values_def upt_conv_Cons simp del: upt_Suc intro: reg_le_trans)
qed

section \<open>The fixed parts of a quantifier\<close>

lemmas keyword_rules =
  runL_keyword [OF _ ident_texts(4), simplified] runL_keyword [OF _ ident_texts(5), simplified]
  runL_keyword [OF _ ident_texts(6), simplified] runL_keyword [OF _ ident_texts(7), simplified]
  runL_keyword [OF _ ident_texts(8), simplified]

lemma alpha_simps: "is_alpha_char (CHR ''w'')" "is_alpha_char (CHR ''q'')" "is_alpha_char (CHR ''s'')"
  "is_alpha_char (CHR ''p'')" "is_alpha_char (CHR ''n'')"
  by (simp_all add: class_defs)

lemma headerL_run:
  assumes r: "reads (''[weight='' @ nat_to_string w @ '',qid='' @ symbol_syntax q @ '',skid='' @ symbol_syntax k @ CHR '']'' # t) s"
    and ok: "w < 2 ^ 32" "symbol_ok q" "symbol_ok k" "lexable t" and Q: "\<And>s'. reads t s' \<Longrightarrow> Q (w, q, k) s'"
  shows "runL headerL Q s"
  unfolding headerL_def using r ok
  by (auto simp: punct_sep alpha_simps lexable_symbol lexable_number intro!: runL_bind runL_ret Q
      elim!: runL_punct keyword_rules runL_number runL_symbol)

lemma patternL_reads:
  assumes "list_all2 (item_reads rec) es us" "length es < n"
  shows "item_reads (patternL n rec) es (''['' @ join_commas us @ '']'')"
  unfolding item_reads_def
proof (intro conjI allI impI)
  fix t s assume r: "reads ((''['' @ join_commas us @ '']'') @ t) s"
  then have r': "reads (CHR ''['' # join_commas us @ CHR '']'' # t) s" by simp
  from reads_current [OF r'] show "lp_current s \<noteq> TPunct (CHR '')'')" "lp_current s \<noteq> TPunct (CHR '']'')" by auto
  assume t: "closing t"
  have l: "lexable (join_commas us @ CHR '']'' # t)"
    using assms(1) by (cases us) (auto simp: join_commas_Cons item_reads_def list_all2_Cons2)
  show "runL (patternL n rec) (\<lambda>y s'. y = es \<and> reads t s') s"
    unfolding patternL_def
    by (rule runL_bind, rule runL_punct [OF r' _ l], simp, rule runL_bind, rule listL_run [OF assms(1) _ assms(2)])
      (use closing_sep [OF t] in \<open>auto intro!: runL_bind runL_ret elim!: runL_punct\<close>)
qed simp

lemma trailerL_run:
  assumes ps: "list_all2 (item_reads (patternL n rec)) ps us" "length ps < n"
    and es: "list_all2 (item_reads rec) es vs" "length es < n" and t: "lexable t"
    and r: "reads (''[patterns=['' @ join_commas us @ ''],nopatterns=['' @ join_commas vs @ '']]'' @ t) s"
    and Q: "\<And>s'. reads t s' \<Longrightarrow> Q (ps, es) s'"
  shows "runL (trailerL n rec) Q s"
proof -
  have l: "lexable (join_commas us @ CHR '']'' # x)" "lexable (join_commas vs @ CHR '']'' # x)" for x
    using ps(1) es(1) by (cases us; cases vs; auto simp: join_commas_Cons item_reads_def list_all2_Cons2)+
  show ?thesis unfolding trailerL_def using r t l
    by (auto simp: punct_sep alpha_simps intro!: runL_bind runL_ret Q listL_run [OF ps(1) _ ps(2)] listL_run [OF es(1) _ es(2)]
      elim!: runL_punct keyword_rules)
qed

section \<open>Expressions\<close>

definition grows :: "('s, 'd) printer_state \<Rightarrow> ('s, 'd) printer_state \<Rightarrow> bool" where
  "grows st st' \<longleftrightarrow> reg_inv (pr_registry st') \<and> reg_le (pr_registry st) (pr_registry st') \<and>
     pr_next_bound st \<le> pr_next_bound st'"

lemma grows_trans: "grows st st' \<Longrightarrow> grows st' st'' \<Longrightarrow> grows st st''"
  by (auto simp: grows_def intro: reg_le_trans)

lemma grows_alias:
  "reg_inv (pr_registry st) \<Longrightarrow> sort_alias api (pr_registry st) x = (a, r) \<Longrightarrow> grows st (st\<lparr>pr_registry := r\<rparr>)"
  "reg_inv (pr_registry st) \<Longrightarrow> declaration_alias api (pr_registry st) d = (a, r) \<Longrightarrow> grows st (st\<lparr>pr_registry := r\<rparr>)"
  by (auto simp: grows_def dest: sorts.alias_inv sorts.alias_le) (auto simp: grows_def dest: decls.alias_inv decls.alias_le)

text \<open>The names of the enclosing binders are different, and the counter has passed all of them.\<close>

definition bound_ok :: "(string \<times> 's) list \<Rightarrow> ('s, 'd) printer_state \<Rightarrow> bool" where
  "bound_ok bound st \<longleftrightarrow> distinct (map fst bound) \<and> fst ` set bound \<subseteq> bound_name ` {..<pr_next_bound st}"

lemma bound_ok_grows: "bound_ok bound st \<Longrightarrow> grows st st' \<Longrightarrow> bound_ok bound st'"
  unfolding bound_ok_def grows_def by (elim conjE, intro conjI, assumption, erule order.trans, rule image_mono) simp

lemma bound_ok_binders:
  assumes "bound_ok bound st" "binders_ok st bs texts bindings st'"
  shows "bound_ok (bound @ bindings) st'" "grows st st'"
proof -
  have n: "pr_next_bound st' = pr_next_bound st + length bs"
    and names: "map fst bindings = map bound_name [pr_next_bound st..<pr_next_bound st']"
    using assms(2) by (auto simp: binders_ok_def)
  have new: "fst ` set bindings = bound_name ` {pr_next_bound st..<pr_next_bound st'}"
    unfolding set_map [symmetric] names by simp
  have "bound_name ` {..<pr_next_bound st} \<inter> bound_name ` {pr_next_bound st..<pr_next_bound st'} = {}" by auto
  with assms(1) new have "fst ` set bound \<inter> fst ` set bindings = {}" by (auto simp: bound_ok_def)
  moreover have "distinct (map fst bindings)" unfolding names by (simp add: distinct_map inj_on_def)
  moreover have "fst ` set (bound @ bindings) \<subseteq> bound_name ` {..<pr_next_bound st'}"
    using assms(1) n unfolding bound_ok_def set_append image_Un new by auto
  ultimately show "bound_ok (bound @ bindings) st'" using assms(1) by (simp add: bound_ok_def)
  show "grows st st'" using assms(2) by (simp add: binders_ok_def grows_def)
qed

lemma bound_position_nth:
  "distinct (map fst bound) \<Longrightarrow> i < length bound \<Longrightarrow> bound_position bound (fst (bound ! i)) = Some (i, snd (bound ! i))"
  by (induction bound arbitrary: i) (auto simp: nth_Cons split: nat.splits)

lemma bound_position_None: "name \<notin> fst ` set bound \<Longrightarrow> bound_position bound name = None"
  by (induction bound) auto

definition dispatchL ::
  "nat \<Rightarrow> ('s, 'd) z3_api \<Rightarrow> ('s, 'd) lift_registry \<Rightarrow> (string \<times> 's) list \<Rightarrow> string \<Rightarrow> ('s, 'd) z3_expr lift_parse" where
  "dispatchL n api reg bound name =
     (if name = ''numeral'' then numeralL api reg
      else if name = ''forall'' \<or> name = ''exists'' \<or> name = ''lambda''
      then quantifierL api reg n (expressionL n api reg) bound name
      else case bound_position bound name of
             Some (i, srt) \<Rightarrow> retL (ZVar (length bound - 1 - i) srt)
           | None \<Rightarrow> applicationL api reg n (expressionL n api reg bound) name)"

lemma expression_reads:
  assumes w: "ident_text w" and u: "\<And>t. closing t \<Longrightarrow> sep (u @ t) \<and> lexable (u @ t)"
    and run: "\<And>t s. closing t \<Longrightarrow> reads (u @ t) s \<Longrightarrow> runL (dispatchL n api R bound w) (\<lambda>y s'. y = x \<and> reads t s') s"
  shows "item_reads (expressionL (Suc n) api R bound) x (w @ u)"
  unfolding item_reads_def
proof (intro conjI allI impI)
  show "lexable ((w @ u) @ t)" for t by (simp add: lexable_ident w)
  fix t s assume "reads ((w @ u) @ t) s"
  then have r: "reads (w @ u @ t) s" by simp
  from ident_reads_current [OF w this] obtain v where v: "lp_current s = TIdent v" by blast
  then show "lp_current s \<noteq> TPunct (CHR '')'')" "lp_current s \<noteq> TPunct (CHR '']'')" by auto
  assume t: "closing t"
  show "runL (expressionL (Suc n) api R bound) (\<lambda>y s'. y = x \<and> reads t s') s"
    unfolding expressionL.simps dispatchL_def [symmetric] using u [OF t] run [OF t]
    by (intro runL_bind runL_current) (auto simp: v intro!: runL_bind runL_ident [OF r w])
qed

lemma word_reads:
  assumes "ident_text w"
    and "\<And>t s. closing t \<Longrightarrow> reads t s \<Longrightarrow> runL (dispatchL n api R bound w) (\<lambda>y s'. y = x \<and> reads t s') s"
  shows "item_reads (expressionL (Suc n) api R bound) x w"
  using expression_reads [OF assms(1), of "[]" n api R bound x] assms(2) closing_sep
  by (simp del: expressionL.simps)

lemma not_keywords:
  "ident_tail ''_d_'' a \<Longrightarrow> a \<notin> {''numeral'', ''forall'', ''exists'', ''lambda''}"
  "bound_name k \<notin> {''numeral'', ''forall'', ''exists'', ''lambda''}"
  by (auto simp: ident_tail_def bound_name_def)

lemma not_bound: "ident_tail ''_d_'' a \<Longrightarrow> bound_ok bound st \<Longrightarrow> bound_position bound a = None"
  by (rule bound_position_None) (auto simp: ident_tail_def bound_ok_def bound_name_def)

lemma numeral_reads:
  assumes "ident_text a" "registry_sort R a = Inr srt" "wf_term api ss (ZNumeral v srt)"
  shows "item_reads (expressionL (Suc n) api R bound) (ZNumeral v srt) (''numeral'' @ ''('' @ string_quote v @ '','' @ a @ '')'')"
proof (rule expression_reads [OF ident_texts(9)])
  fix t s assume "closing t" "reads ((''('' @ string_quote v @ '','' @ a @ '')'') @ t) s"
  with assms show "runL (dispatchL n api R bound ''numeral'') (\<lambda>y s'. y = ZNumeral v srt \<and> reads t s') s"
    unfolding dispatchL_def if_P [OF refl] numeralL_def
    by (auto simp: punct_sep lexable_ident closing_sep c_str_id intro!: runL_bind runL_call runL_term
        elim!: runL_punct runL_string runL_ident)
qed (simp add: punct_sep)

lemma var_reads:
  assumes "bound_ok bound st" "i < length bound" "snd (bound ! (length bound - 1 - i)) = srt"
  shows "item_reads (expressionL (Suc n) api R bound) (ZVar i srt) (fst (bound ! (length bound - 1 - i)))"
proof -
  let ?j = "length bound - 1 - i"
  have "bound ! ?j \<in> set bound" using assms(2) by simp
  then obtain k where k: "fst (bound ! ?j) = bound_name k" using assms(1) unfolding bound_ok_def by blast
  have "bound_position bound (bound_name k) = Some (?j, srt)"
    using bound_position_nth [of bound ?j] assms k by (simp add: bound_ok_def)
  moreover have "length bound - 1 - ?j = i" using assms(2) by simp
  ultimately have "runL (dispatchL n api R bound (bound_name k)) (\<lambda>y s'. y = ZVar i srt \<and> reads t s') s" if "reads t s" for t s
    using not_keywords(2) [of k] that by (auto simp: dispatchL_def intro!: runL_ret)
  then show ?thesis unfolding k by (rule word_reads [OF ident_tail_text(3)])
qed

lemma closing_current: "reads t s \<Longrightarrow> closing t \<Longrightarrow> lp_current s \<noteq> TPunct (CHR ''('')"
proof (cases t)
  case (Cons c u)
  assume "reads t s" "closing t"
  with Cons show ?thesis using reads_current [of c u s] by (auto simp: closing_def)
qed (auto simp: reads_def lex_token_def)

lemma constant_reads:
  assumes a: "ident_tail ''_d_'' a" and "bound_ok bound st" "registry_declaration R a = Inr d" "wf_term api ss (ZApp d [])"
  shows "item_reads (expressionL (Suc n) api R bound) (ZApp d []) a"
proof -
  have "runL (dispatchL n api R bound a) (\<lambda>y s'. y = ZApp d [] \<and> reads t s') s" if "closing t" "reads t s" for t s
    using not_keywords(1) [OF a] assms(3,4) that closing_current [OF that(2,1)]
    by (auto simp: dispatchL_def not_bound [OF a assms(2)] applicationL_def
        intro!: runL_bind runL_call runL_current runL_ret runL_term)
  then show ?thesis by (rule word_reads [OF ident_tail_text(2) [OF a]])
qed

lemma lexable_list:
  "list_all2 (item_reads item) xs us \<Longrightarrow> lexable (close # t) \<Longrightarrow> lexable (join_commas us @ close # t)"
  by (cases us) (auto simp: join_commas_Cons item_reads_def list_all2_Cons2)

lemma application_reads:
  assumes a: "ident_tail ''_d_'' a" and "bound_ok bound st" "registry_declaration R a = Inr d" "wf_term api ss (ZApp d args)"
    and args: "list_all2 (item_reads (expressionL n api R bound)) args us" "length args < n"
  shows "item_reads (expressionL (Suc n) api R bound) (ZApp d args) (a @ ''('' @ join_commas us @ '')'')"
proof (rule expression_reads [OF ident_tail_text(2) [OF a]])
  fix t s assume t: "closing t" and "reads ((''('' @ join_commas us @ '')'') @ t) s"
  then have r: "reads (CHR ''('' # join_commas us @ CHR '')'' # t) s" by simp
  have "lexable (join_commas us @ CHR '')'' # t)" by (rule lexable_list [OF args(1)]) simp
  with r t have args_run: "runL (bindL (punctuationL (CHR ''('')) (\<lambda>_.
      bindL (listL n (CHR '')'') msg (expressionL n api R bound)) (\<lambda>xs. bindL (punctuationL (CHR '')'')) (\<lambda>_. retL xs))))
      (\<lambda>xs s'. xs = args \<and> reads t s') s" for msg
    by (auto simp: closing_sep intro!: runL_bind runL_ret listL_run [OF args(1) _ args(2)] elim!: runL_punct)
  from reads_current [OF r] have c: "lp_current s = TPunct (CHR ''('')" by simp
  show "runL (dispatchL n api R bound a) (\<lambda>y s'. y = ZApp d args \<and> reads t s') s"
    using not_keywords(1) [OF a] assms(4) unfolding dispatchL_def applicationL_def
    by (simp add: not_bound [OF a assms(2)])
      (intro runL_bind runL_call [OF assms(3)] runL_current, simp add: c, rule runL_mono [OF args_run], auto intro: runL_term)
qed (simp add: punct_sep)

lemma binder_values_split:
  assumes "map snd bindings = map snd bs"
  shows "map (\<lambda>(a, _, srt). (a, srt)) (binder_values bindings bs) = bindings" "map snd (binder_values bindings bs) = bs"
    "length (binder_values bindings bs) = length bs"
proof -
  have "length bindings = length bs" using assms by (metis length_map)
  then show "map (\<lambda>(a, _, srt). (a, srt)) (binder_values bindings bs) = bindings"
    "map snd (binder_values bindings bs) = bs" "length (binder_values bindings bs) = length bs"
    using assms by (induction bindings bs rule: list_induct2) (auto simp: binder_values_def)
qed

lemma quantifier_reads:
  assumes bs: "map snd bindings = map snd bs"
      "list_all2 (item_reads (binderL R)) (binder_values bindings bs) texts" "length bs < n"
    and body: "item_reads (expressionL n api R (bound @ bindings)) body b"
    and ps: "list_all2 (item_reads (patternL n (expressionL n api R (bound @ bindings)))) pats us" "length pats < n"
    and ns: "list_all2 (item_reads (expressionL n api R (bound @ bindings))) nopats vs" "length nopats < n"
    and wf: "wf_term api ss (ZQuant k w q sk bs body pats nopats)"
  shows "item_reads (expressionL (Suc n) api R bound) (ZQuant k w q sk bs body pats nopats)
    (quantifier_name k @ ''[weight='' @ nat_to_string w @ '',qid='' @ symbol_syntax q @
              '',skid='' @ symbol_syntax sk @ '']'' @ ''('' @ join_commas texts @ '')'' @ ''{'' @ b @ ''}'' @
              ''[patterns=['' @ join_commas us @ ''],nopatterns=['' @ join_commas vs @ '']]'')"
proof (rule expression_reads [OF ident_texts(10)], goal_cases)
  case (2 t s)
  let ?e = "ZQuant k w q sk bs body pats nopats"
  let ?tail = "''[patterns=['' @ join_commas us @ ''],nopatterns=['' @ join_commas vs @ '']]'' @ t"
  let ?body = "CHR ''{'' # b @ CHR ''}'' # ?tail"
  let ?binders = "join_commas texts @ CHR '')'' # ?body"
  have r: "reads (''[weight='' @ nat_to_string w @ '',qid='' @ symbol_syntax q @ '',skid='' @ symbol_syntax sk @
      CHR '']'' # CHR ''('' # ?binders) s" using 2(2) by simp
  have l: "lexable ?binders" "lexable (b @ CHR ''}'' # ?tail)" "lexable ?tail"
    using lexable_list [OF bs(2)] body by (auto simp: item_reads_def)
  have finish: "runL (if quantifier_name k = ''lambda''
     then if pats \<noteq> [] \<or> nopats \<noteq> [] \<or> w \<noteq> 0 then failL m else termL (api_mk_lambda api bs body)
     else termL (api_mk_quantifier api (quantifier_name k = ''forall'') w q sk bs body pats nopats))
       (\<lambda>y s'. y = ?e \<and> reads t s') s'" if "reads t s'" for s' m
    using wf that by (cases k) (auto intro: runL_term)
  have kw: "dispatchL n api R bound (quantifier_name k) = quantifierL api R n (expressionL n api R) bound (quantifier_name k)"
    by (cases k) (simp_all add: dispatchL_def)
  have wf': "w < 2 ^ 32" "symbol_ok q" "symbol_ok sk" using wf by simp_all
  show ?case
    unfolding kw quantifierL_def
    apply (rule runL_bind, rule headerL_run [OF r wf'], simp, simp only: prod.case)
    apply (rule runL_bind, erule runL_punct, simp, rule l)
    apply (rule runL_bind, rule listL_run [OF bs(2)], simp, simp add: binder_values_split [OF bs(1)] bs(3), assumption)
    apply (simp only: Let_def binder_values_split [OF bs(1)])
    apply (rule runL_bind, erule runL_punct, simp, simp)
    apply (rule runL_bind, erule runL_punct, simp, rule l)
    apply (rule runL_bind, erule item_reads_run [OF body], simp)
    apply (rule runL_bind, erule runL_punct, simp, rule l)
    apply (rule runL_bind, rule trailerL_run [where t = t, OF ps ns], simp add: closing_sep [OF 2(1)], assumption)
    apply (simp only: prod.case, erule finish)
    done
qed (simp add: punct_sep)

section \<open>The printed text of every term\<close>

text \<open>A printing step returns a text, keeps the registry invariant and only adds aliases, and the text
  satisfies \<open>P\<close> for every later registry and for every fuel above its length.\<close>

definition printed_as ::
  "('s, 'd) printer_state \<Rightarrow> ('s, 'd) printed \<Rightarrow> (('s, 'd) lift_registry \<Rightarrow> nat \<Rightarrow> string \<Rightarrow> bool) \<Rightarrow> bool" where
  "printed_as st r P \<longleftrightarrow> (\<exists>text st'. r = Inr (text, st') \<and> grows st st' \<and>
     (\<forall>R n. reg_inv R \<longrightarrow> reg_le (pr_registry st') R \<longrightarrow> length text < n \<longrightarrow> P R n text))"

lemma printed_asE:
  assumes "printed_as st r P"
  obtains u st' where "r = Inr (u, st')" "grows st st'"
    "\<And>R n. reg_inv R \<Longrightarrow> reg_le (pr_registry st') R \<Longrightarrow> length u < n \<Longrightarrow> P R n u"
  using assms unfolding printed_as_def by blast

lemma printed_asI:
  "r = Inr (u, st') \<Longrightarrow> grows st st' \<Longrightarrow>
   (\<And>R n. reg_inv R \<Longrightarrow> reg_le (pr_registry st') R \<Longrightarrow> length u < Suc n \<Longrightarrow> P R (Suc n) u) \<Longrightarrow> printed_as st r P"
  unfolding printed_as_def by (metis gr0_implies_Suc not_less_zero gr_zeroI)

lemma grows_le: "grows st st' \<Longrightarrow> reg_le (pr_registry st') R \<Longrightarrow> reg_le (pr_registry st) R"
  by (auto simp: grows_def intro: reg_le_trans)

lemma join_commas_length: "length us \<le> Suc (length (join_commas us))"
  by (induction us rule: join_commas.induct) auto

definition reads_list :: "'a lift_parse \<Rightarrow> 'a list \<Rightarrow> string \<Rightarrow> bool" where
  "reads_list item xs u \<longleftrightarrow> (\<exists>us. u = join_commas us \<and> list_all2 (item_reads item) xs us)"

lemma reads_list_Nil: "reads_list item [] []"
  unfolding reads_list_def by (intro exI [of _ "[]"]) simp

lemma reads_list_single: "item_reads item x u \<Longrightarrow> reads_list item [x] u"
  unfolding reads_list_def by (intro exI [of _ "[u]"]) simp

lemma reads_list_Cons:
  assumes "item_reads item x u" "reads_list item xs v" "xs \<noteq> []"
  shows "reads_list item (x # xs) (u @ '','' @ v)"
proof -
  obtain us where us: "v = join_commas us" "list_all2 (item_reads item) xs us" using assms(2) by (auto simp: reads_list_def)
  with assms(3) obtain w ws where "us = w # ws" by (cases us) auto
  with us assms(1) show ?thesis unfolding reads_list_def by (intro exI [of _ "u # us"]) simp
qed

lemma reads_list_length: "reads_list item xs u \<Longrightarrow> length xs \<le> Suc (length u)"
  using join_commas_length by (auto simp: reads_list_def dest!: list_all2_lengthD)

lemma list_printed_as:
  assumes head: "printed_as st (f st) (\<lambda>R n. item_reads (P R n) x)"
    and tail: "\<And>st'. xs \<noteq> [] \<Longrightarrow> grows st st' \<Longrightarrow> printed_as st' (g st') (\<lambda>R n. reads_list (P R n) xs)"
    and r: "r = bindE (f st) (\<lambda>(t, st). if xs = [] then Inr (t, st) else bindE (g st) (\<lambda>(u, st). Inr (t @ '','' @ u, st)))"
  shows "printed_as st r (\<lambda>R n. reads_list (P R n) (x # xs))"
proof (cases "xs = []")
  case True
  with head r show ?thesis by (auto simp: printed_as_def intro!: reads_list_single)
next
  case False
  from head obtain u st1 where u: "f st = Inr (u, st1)" "grows st st1"
    "\<And>R n. reg_inv R \<Longrightarrow> reg_le (pr_registry st1) R \<Longrightarrow> length u < n \<Longrightarrow> item_reads (P R n) x u" by (rule printed_asE) blast
  from tail [OF False u(2)] obtain v st2 where v: "g st1 = Inr (v, st2)" "grows st1 st2"
    "\<And>R n. reg_inv R \<Longrightarrow> reg_le (pr_registry st2) R \<Longrightarrow> length v < n \<Longrightarrow> reads_list (P R n) xs v" by (rule printed_asE) blast
  show ?thesis
  proof (rule printed_asI)
    show "r = Inr (u @ '','' @ v, st2)" using r u(1) v(1) False by simp
    show "grows st st2" by (rule grows_trans [OF u(2) v(2)])
    fix R n assume R: "reg_inv R" "reg_le (pr_registry st2) R" "length (u @ '','' @ v) < Suc n"
    then show "reads_list (P R (Suc n)) (x # xs) (u @ '','' @ v)"
      by (intro reads_list_Cons u(3) v(3) grows_le [OF v(2)] False) auto
  qed
qed

definition term_prints :: "('s, 'd) z3_api \<Rightarrow> ('s, 'd) z3_expr \<Rightarrow> bool" where
  "term_prints api e \<longleftrightarrow> (\<forall>bound st. reg_inv (pr_registry st) \<longrightarrow> bound_ok bound st \<longrightarrow> wf_term api (map snd bound) e \<longrightarrow>
     printed_as st (expression_text api bound e st) (\<lambda>R n. item_reads (expressionL n api R bound) e))"

lemma term_printsD:
  "term_prints api e \<Longrightarrow> reg_inv (pr_registry st) \<Longrightarrow> bound_ok bound st \<Longrightarrow> wf_term api (map snd bound) e \<Longrightarrow>
   printed_as st (expression_text api bound e st) (\<lambda>R n. item_reads (expressionL n api R bound) e)"
  by (simp add: term_prints_def)

lemma grows_inv: "grows st st' \<Longrightarrow> reg_inv (pr_registry st')"
  by (simp add: grows_def)

lemma grows_refl: "reg_inv (pr_registry st) \<Longrightarrow> grows st st"
  by (simp add: grows_def reg_le_refl)

lemma expressions_printed:
  "\<forall>e\<in>set es. term_prints api e \<and> wf_term api (map snd bound) e \<Longrightarrow> reg_inv (pr_registry st) \<Longrightarrow> bound_ok bound st \<Longrightarrow>
   printed_as st (expressions_text api bound es st) (\<lambda>R n. reads_list (expressionL n api R bound) es)"
proof (induction es arbitrary: st)
  case Nil
  then show ?case by (auto simp: printed_as_def reads_list_Nil grows_refl)
next
  case (Cons e es)
  show ?case
  proof (rule list_printed_as [where f = "expression_text api bound e" and g = "expressions_text api bound es"])
    show "printed_as st (expression_text api bound e st) (\<lambda>R n. item_reads (expressionL n api R bound) e)"
      using Cons.prems by (intro term_printsD) auto
    fix st' assume "grows st st'"
    then show "printed_as st' (expressions_text api bound es st') (\<lambda>R n. reads_list (expressionL n api R bound) es)"
      using Cons.prems by (intro Cons.IH) (auto simp: grows_inv bound_ok_grows)
  qed simp
qed

lemma pattern_printed:
  assumes "printed_as st r (\<lambda>R n. reads_list (expressionL n api R bound) p)"
  shows "printed_as st (bindE r (\<lambda>(t, st). Inr (''['' @ t @ '']'', st))) (\<lambda>R n. item_reads (patternL n (expressionL n api R bound)) p)"
proof -
  from assms obtain u st' where u: "r = Inr (u, st')" "grows st st'"
    "\<And>R n. reg_inv R \<Longrightarrow> reg_le (pr_registry st') R \<Longrightarrow> length u < n \<Longrightarrow> reads_list (expressionL n api R bound) p u"
    by (rule printed_asE) blast
  show ?thesis
  proof (rule printed_asI)
    show "bindE r (\<lambda>(t, st). Inr (''['' @ t @ '']'', st)) = Inr (''['' @ u @ '']'', st')" by (simp add: u(1))
    fix R n assume "reg_inv R" "reg_le (pr_registry st') R" and n: "length (''['' @ u @ '']'') < Suc n"
    then have "reads_list (expressionL (Suc n) api R bound) p u" by (intro u(3)) auto
    with reads_list_length [OF this] n show "item_reads (patternL (Suc n) (expressionL (Suc n) api R bound)) p (''['' @ u @ '']'')"
      unfolding reads_list_def by (auto simp del: expressionL.simps intro: patternL_reads [simplified])
  qed (rule u(2))
qed

lemma patterns_printed:
  "\<forall>p\<in>set ps. \<forall>e\<in>set p. term_prints api e \<and> wf_term api (map snd bound) e \<Longrightarrow> reg_inv (pr_registry st) \<Longrightarrow> bound_ok bound st \<Longrightarrow>
   printed_as st (patterns_text api bound ps st) (\<lambda>R n. reads_list (patternL n (expressionL n api R bound)) ps)"
proof (induction ps arbitrary: st)
  case Nil
  then show ?case by (auto simp: printed_as_def reads_list_Nil grows_refl)
next
  case (Cons p ps)
  let ?f = "\<lambda>st. bindE (expressions_text api bound p st) (\<lambda>(t, st). Inr (''['' @ t @ '']'', st))"
  show ?case
  proof (rule list_printed_as [where f = ?f and g = "patterns_text api bound ps"])
    show "printed_as st (?f st) (\<lambda>R n. item_reads (patternL n (expressionL n api R bound)) p)"
      using Cons.prems by (intro pattern_printed expressions_printed) auto
    fix st' assume "grows st st'"
    then show "printed_as st' (patterns_text api bound ps st') (\<lambda>R n. reads_list (patternL n (expressionL n api R bound)) ps)"
      using Cons.prems by (intro Cons.IH) (auto simp: grows_inv bound_ok_grows)
  qed (auto simp: bindE_def split: sum.splits)
qed

lemma term_prints_numeral: "term_prints api (ZNumeral v srt)"
  unfolding term_prints_def
proof (intro allI impI)
  fix bound :: "(string \<times> 'a) list" and st :: "('a, 'b) printer_state"
  assume st: "reg_inv (pr_registry st)" and wf: "wf_term api (map snd bound) (ZNumeral v srt)"
  obtain a r where a: "sort_alias api (pr_registry st) srt = (a, r)" by (cases "sort_alias api (pr_registry st) srt")
  show "printed_as st (expression_text api bound (ZNumeral v srt) st) (\<lambda>R n. item_reads (expressionL n api R bound) (ZNumeral v srt))"
  proof (rule printed_asI)
    show "expression_text api bound (ZNumeral v srt) st =
      Inr (''numeral'' @ ''('' @ string_quote v @ '','' @ a @ '')'', st\<lparr>pr_registry := r\<rparr>)" by (simp add: a)
    show "grows st (st\<lparr>pr_registry := r\<rparr>)" by (rule grows_alias(1) [OF st a])
    fix R n assume "reg_inv R" "reg_le (pr_registry (st\<lparr>pr_registry := r\<rparr>)) R"
    then show "item_reads (expressionL (Suc n) api R bound) (ZNumeral v srt) (''numeral'' @ ''('' @ string_quote v @ '','' @ a @ '')'')"
      by (intro numeral_reads [OF ident_tail_text(1) [OF sorts.alias_tail [OF st a]] _ wf] sorts.lookup_alias [OF st a]) simp_all
  qed
qed

lemma term_prints_var: "term_prints api (ZVar i srt)"
  unfolding term_prints_def
proof (intro allI impI)
  fix bound :: "(string \<times> 'a) list" and st :: "('a, 'b) printer_state"
  assume st: "reg_inv (pr_registry st)" and bound: "bound_ok bound st" and wf: "wf_term api (map snd bound) (ZVar i srt)"
  show "printed_as st (expression_text api bound (ZVar i srt) st) (\<lambda>R n. item_reads (expressionL n api R bound) (ZVar i srt))"
  proof (rule printed_asI)
    show "expression_text api bound (ZVar i srt) st = Inr (fst (bound ! (length bound - 1 - i)), st)"
      using wf by (simp add: bound_text_def)
    show "item_reads (expressionL (Suc n) api R bound) (ZVar i srt) (fst (bound ! (length bound - 1 - i)))" for R n
      using wf by (intro var_reads [OF bound]) auto
  qed (rule grows_refl [OF st])
qed

lemma term_prints_app:
  assumes args: "\<And>e. e \<in> set args \<Longrightarrow> term_prints api e"
  shows "term_prints api (ZApp d args)"
  unfolding term_prints_def
proof (intro allI impI)
  fix bound :: "(string \<times> 'a) list" and st :: "('a, 'b) printer_state"
  assume st: "reg_inv (pr_registry st)" and bound: "bound_ok bound st" and wf: "wf_term api (map snd bound) (ZApp d args)"
  obtain a r where a: "declaration_alias api (pr_registry st) d = (a, r)" by (cases "declaration_alias api (pr_registry st) d")
  let ?st = "st\<lparr>pr_registry := r\<rparr>"
  have g: "grows st ?st" by (rule grows_alias(2) [OF st a])
  have tail: "ident_tail ''_d_'' a" by (rule decls.alias_tail [OF st a])
  have look: "registry_declaration R a = Inr d" if "reg_inv R" "reg_le (pr_registry ?st) R" for R
    using decls.lookup_alias [OF st a] that by simp
  show "printed_as st (expression_text api bound (ZApp d args) st) (\<lambda>R n. item_reads (expressionL n api R bound) (ZApp d args))"
  proof (cases "args = []")
    case True
    with g tail look wf bound show ?thesis by (intro printed_asI) (auto simp: a simp del: expressionL.simps wf_term.simps intro: constant_reads)
  next
    case False
    have "printed_as ?st (expressions_text api bound args ?st) (\<lambda>R n. reads_list (expressionL n api R bound) args)"
      using args wf by (intro expressions_printed bound_ok_grows [OF bound g] grows_inv [OF g]) auto
    then obtain u st' where u: "expressions_text api bound args ?st = Inr (u, st')" "grows ?st st'"
      "\<And>R n. reg_inv R \<Longrightarrow> reg_le (pr_registry st') R \<Longrightarrow> length u < n \<Longrightarrow> reads_list (expressionL n api R bound) args u"
      by (rule printed_asE) blast
    show ?thesis
    proof (rule printed_asI)
      show "expression_text api bound (ZApp d args) st = Inr (a @ ''('' @ u @ '')'', st')" using False by (simp add: a u(1))
      show "grows st st'" by (rule grows_trans [OF g u(2)])
      fix R n assume R: "reg_inv R" "reg_le (pr_registry st') R" and n: "length (a @ ''('' @ u @ '')'') < Suc n"
      from n have "reads_list (expressionL n api R bound) args u" by (intro u(3) R) auto
      with reads_list_length [OF this] n show "item_reads (expressionL (Suc n) api R bound) (ZApp d args) (a @ ''('' @ u @ '')'')"
        using application_reads [OF tail bound look [OF R(1) grows_le [OF u(2) R(2)]] wf]
        by (auto simp: reads_list_def simp del: expressionL.simps wf_term.simps)
    qed
  qed
qed

lemma term_prints_quant:
  assumes body: "term_prints api body" and pats: "\<And>p e. p \<in> set pats \<Longrightarrow> e \<in> set p \<Longrightarrow> term_prints api e"
    and nopats: "\<And>e. e \<in> set nopats \<Longrightarrow> term_prints api e"
  shows "term_prints api (ZQuant k w q sk bs body pats nopats)"
  unfolding term_prints_def
proof (intro allI impI)
  fix bound :: "(string \<times> 'a) list" and st :: "('a, 'b) printer_state"
  let ?e = "ZQuant k w q sk bs body pats nopats"
  assume st: "reg_inv (pr_registry st)" and bound: "bound_ok bound st" and wf: "wf_term api (map snd bound) ?e"
  obtain texts bindings st1 where b: "binders_text api bs st = (texts, bindings, st1)" by (cases "binders_text api bs st")
  have bo: "binders_ok st bs texts bindings st1" using binders_text_ok [OF st b] wf by simp
  note inner = bound_ok_binders [OF bound bo]
  have sorts_eq: "map snd (bound @ bindings) = map snd bound @ map snd bs" using bo by (simp add: binders_ok_def)
  have "printed_as st1 (expression_text api (bound @ bindings) body st1) (\<lambda>R n. item_reads (expressionL n api R (bound @ bindings)) body)"
    using wf by (intro term_printsD [OF body grows_inv [OF inner(2)] inner(1)]) (simp add: sorts_eq del: map_append)
  then obtain t1 st2 where t1: "expression_text api (bound @ bindings) body st1 = Inr (t1, st2)" "grows st1 st2"
    "\<And>R n. reg_inv R \<Longrightarrow> reg_le (pr_registry st2) R \<Longrightarrow> length t1 < n \<Longrightarrow> item_reads (expressionL n api R (bound @ bindings)) body t1"
    by (rule printed_asE) blast
  have "printed_as st2 (patterns_text api (bound @ bindings) pats st2) (\<lambda>R n. reads_list (patternL n (expressionL n api R (bound @ bindings))) pats)"
    using wf pats by (intro patterns_printed grows_inv [OF t1(2)] bound_ok_grows [OF inner(1) t1(2)]) (simp add: sorts_eq del: map_append)
  then obtain t2 st3 where t2: "patterns_text api (bound @ bindings) pats st2 = Inr (t2, st3)" "grows st2 st3"
    "\<And>R n. reg_inv R \<Longrightarrow> reg_le (pr_registry st3) R \<Longrightarrow> length t2 < n \<Longrightarrow> reads_list (patternL n (expressionL n api R (bound @ bindings))) pats t2"
    by (rule printed_asE) blast
  note g3 = grows_trans [OF t1(2) t2(2)]
  have "printed_as st3 (expressions_text api (bound @ bindings) nopats st3) (\<lambda>R n. reads_list (expressionL n api R (bound @ bindings)) nopats)"
    using wf nopats by (intro expressions_printed grows_inv [OF g3] bound_ok_grows [OF inner(1) g3]) (simp add: sorts_eq del: map_append)
  then obtain t3 st4 where t3: "expressions_text api (bound @ bindings) nopats st3 = Inr (t3, st4)" "grows st3 st4"
    "\<And>R n. reg_inv R \<Longrightarrow> reg_le (pr_registry st4) R \<Longrightarrow> length t3 < n \<Longrightarrow> reads_list (expressionL n api R (bound @ bindings)) nopats t3"
    by (rule printed_asE) blast
  let ?text = "quantifier_name k @ ''[weight='' @ nat_to_string w @ '',qid='' @ symbol_syntax q @
              '',skid='' @ symbol_syntax sk @ '']'' @ ''('' @ join_commas texts @ '')'' @ ''{'' @ t1 @ ''}'' @
              ''[patterns=['' @ t2 @ ''],nopatterns=['' @ t3 @ '']]''"
  show "printed_as st (expression_text api bound ?e st) (\<lambda>R n. item_reads (expressionL n api R bound) ?e)"
  proof (rule printed_asI)
    show "expression_text api bound ?e st = Inr (?text, st4)" by (simp add: b t1(1) t2(1) t3(1))
    show "grows st st4" by (rule grows_trans [OF inner(2) grows_trans [OF g3 t3(2)]])
    fix R n assume R: "reg_inv R" "reg_le (pr_registry st4) R" and n: "length ?text < Suc n"
    have le: "reg_le (pr_registry st3) R" "reg_le (pr_registry st2) R" "reg_le (pr_registry st1) R"
      using grows_le [OF t3(2) R(2)] t1(2) t2(2) by (auto intro: grows_le)
    have texts: "list_all2 (item_reads (binderL R)) (binder_values bindings bs) texts" "map snd bindings = map snd bs"
      using bo R(1) le(3) by (auto simp: binders_ok_def)
    have lens: "length bs < n" "length pats < n" "length nopats < n" using n
        join_commas_length [of texts] list_all2_lengthD [OF texts(1)] binder_values_split(3) [OF texts(2)]
        reads_list_length [OF t2(3) [OF R(1) le(1) lessI]] reads_list_length [OF t3(3) [OF R lessI]] by auto
    from n show "item_reads (expressionL (Suc n) api R bound) ?e ?text"
      using t1(3) [OF R(1) le(2), of n] t2(3) [OF R(1) le(1), of n] t3(3) [OF R, of n]
        quantifier_reads [OF texts(2,1) lens(1) _ _ lens(2) _ lens(3) wf]
      by (auto simp: reads_list_def simp del: expressionL.simps wf_term.simps)
  qed
qed

lemma term_prints: "term_prints api e"
proof (induction e)
  case (ZApp d args)
  then show ?case by (rule term_prints_app)
next
  case (ZQuant k w q sk bs body pats nopats)
  then show ?case by (intro term_prints_quant) auto
qed (rule term_prints_numeral term_prints_var)+

section \<open>Lifting\<close>

lemma print_then_reify:
  assumes "wf_term api [] e"
  shows "\<exists>text reg. print_term api e = Inr (text, reg) \<and> reg_inv reg \<and> reify api reg text = Inr e"
proof -
  let ?st = "\<lparr>pr_registry = empty_registry, pr_next_bound = 0\<rparr>"
  have "printed_as ?st (expression_text api [] e ?st) (\<lambda>R n. item_reads (expressionL n api R []) e)"
    using assms by (intro term_printsD [OF term_prints]) (auto simp: reg_inv_def empty_registry_def bound_ok_def)
  then obtain u st where u: "expression_text api [] e ?st = Inr (u, st)" "grows ?st st"
    "\<And>R n. reg_inv R \<Longrightarrow> reg_le (pr_registry st) R \<Longrightarrow> length u < n \<Longrightarrow> item_reads (expressionL n api R []) e u"
    by (rule printed_asE) blast
  let ?R = "pr_registry st"
  have inv: "reg_inv ?R" by (rule grows_inv [OF u(2)])
  have it: "item_reads (expressionL (lift_fuel u) api ?R []) e u"
    by (rule u(3) [OF inv reg_le_refl]) (simp add: lift_fuel_def)
  then have "lexable (u @ [])" unfolding item_reads_def by blast
  then obtain t rest where l: "lex_token u = Inr (t, rest)" by (auto simp: lexable_def)
  have r: "reads (u @ []) \<lparr>lp_current = t, lp_rest = rest\<rparr>" by (simp add: reads_def l)
  have "runL (expressionL (lift_fuel u) api ?R []) (\<lambda>y s. y = e \<and> lp_current s = TEnd) \<lparr>lp_current = t, lp_rest = rest\<rparr>"
    by (rule item_reads_run [OF it r]) (auto simp: closing_def reads_def lex_token_def)
  then have "reify api ?R u = Inr e" by (auto simp: reify_def l runL_def split: sum.splits prod.splits)
  with u(1) inv show ?thesis by (auto simp: print_term_def)
qed

text \<open>Every sort a registered declaration mentions is registered.\<close>

definition reg_closed :: "('s, 'd) z3_api \<Rightarrow> ('s, 'd) lift_registry \<Rightarrow> bool" where
  "reg_closed api r \<longleftrightarrow>
     (\<forall>b\<in>set (reg_decls r). set (api_domain api (snd b)) \<union> {api_range api (snd b)} \<subseteq> snd ` set (reg_sorts r))"

lemma sort_alias_sorts:
  "sort_alias api r x = (a, r') \<Longrightarrow> reg_decls r' = reg_decls r \<and> snd ` set (reg_sorts r') = insert x (snd ` set (reg_sorts r))"
  using find_alias_Some by (force simp: sort_alias_def unique_def Let_def split: option.splits)

lemma sort_alias_closed: "sort_alias api r x = (a, r') \<Longrightarrow> reg_closed api r \<Longrightarrow> reg_closed api r'"
  using sort_alias_sorts [of api r x a r'] by (auto simp: reg_closed_def)

lemma sort_aliases_sorts:
  "reg_decls (foldl (\<lambda>r s. snd (sort_alias api r s)) r ss) = reg_decls r \<and>
   snd ` set (reg_sorts (foldl (\<lambda>r s. snd (sort_alias api r s)) r ss)) = set ss \<union> snd ` set (reg_sorts r)"
proof (induction ss arbitrary: r)
  case (Cons x ss)
  from sort_alias_sorts [of api r x] Cons [of "snd (sort_alias api r x)"] show ?case by (cases "sort_alias api r x") auto
qed simp

lemma declaration_alias_closed:
  assumes "declaration_alias api r d = (a, r')" "reg_closed api r"
  shows "reg_closed api r'"
proof (cases "find_alias (reg_decls r) d")
  case None
  let ?r1 = "r\<lparr>reg_aliases := a # reg_aliases r, reg_decls := reg_decls r @ [(a, d)]\<rparr>"
  let ?r2 = "foldl (\<lambda>r s. snd (sort_alias api r s)) ?r1 (api_domain api d)"
  have r': "r' = snd (sort_alias api ?r2 (api_range api d))"
    using assms(1) None by (auto simp: declaration_alias_def unique_def Let_def)
  have "reg_decls r' = reg_decls ?r2" "snd ` set (reg_sorts r') = insert (api_range api d) (snd ` set (reg_sorts ?r2))"
    using sort_alias_sorts [of api ?r2 "api_range api d" _ r'] unfolding r' by (metis prod.collapse)+
  with assms(2) sort_aliases_sorts [of api ?r1 "api_domain api d"] show ?thesis
    by (auto simp: reg_closed_def)
qed (use assms in \<open>auto simp: declaration_alias_def\<close>)

lemma binders_text_closed:
  "binders_text api bs st = (texts, bindings, st') \<Longrightarrow> reg_closed api (pr_registry st) \<Longrightarrow> reg_closed api (pr_registry st')"
  by (induction bs arbitrary: st texts bindings) (auto simp: Let_def split: prod.splits dest: sort_alias_closed)

definition keeps_closed :: "('s, 'd) z3_api \<Rightarrow> ('s, 'd) printer_state \<Rightarrow> ('s, 'd) printed \<Rightarrow> bool" where
  "keeps_closed api st r \<longleftrightarrow>
     (\<forall>t st'. r = Inr (t, st') \<longrightarrow> reg_closed api (pr_registry st) \<longrightarrow> reg_closed api (pr_registry st'))"

lemma keeps_closed_ret: "keeps_closed api st (Inr (t, st))"
  by (simp add: keeps_closed_def)

lemma keeps_closed_bind:
  assumes "keeps_closed api st r" "\<And>t st'. keeps_closed api st' (f (t, st'))"
  shows "keeps_closed api st (bindE r f)"
  using assms unfolding keeps_closed_def by (cases r) (auto simp: bindE_def)

lemma keeps_closed_step:
  "keeps_closed api st' r \<Longrightarrow> (reg_closed api (pr_registry st) \<Longrightarrow> reg_closed api (pr_registry st')) \<Longrightarrow> keeps_closed api st r"
  by (simp add: keeps_closed_def)

lemma expressions_text_closed:
  "(\<And>e st. e \<in> set es \<Longrightarrow> keeps_closed api st (expression_text api bound e st)) \<Longrightarrow>
   keeps_closed api st (expressions_text api bound es st)"
  by (induction es arbitrary: st) (auto intro!: keeps_closed_ret keeps_closed_bind)

lemma patterns_text_closed:
  "(\<And>p e st. p \<in> set ps \<Longrightarrow> e \<in> set p \<Longrightarrow> keeps_closed api st (expression_text api bound e st)) \<Longrightarrow>
   keeps_closed api st (patterns_text api bound ps st)"
proof (induction ps arbitrary: st)
  case (Cons p ps)
  then have "keeps_closed api st (expressions_text api bound p st)" for st
    by (intro expressions_text_closed) (simp add: Cons.prems [of p])
  moreover have "keeps_closed api st (patterns_text api bound ps st)" for st
    by (rule Cons.IH) (rule Cons.prems, auto)
  ultimately show ?case by (auto intro!: keeps_closed_ret keeps_closed_bind)
qed (simp add: keeps_closed_ret)

lemma expression_text_closed: "keeps_closed api st (expression_text api bound e st)"
proof (induction e arbitrary: bound st)
  case (ZNumeral v srt)
  then show ?case by (cases "sort_alias api (pr_registry st) srt") (auto simp: keeps_closed_def dest: sort_alias_closed)
next
  case (ZApp d args)
  obtain a r where a: "declaration_alias api (pr_registry st) d = (a, r)" by (cases "declaration_alias api (pr_registry st) d")
  have "keeps_closed api st' (expressions_text api bound args st')" for st'
    using ZApp by (intro expressions_text_closed)
  then show ?case
    by - (rule keeps_closed_step [of api "st\<lparr>pr_registry := r\<rparr>"],
      auto simp: a intro!: keeps_closed_ret keeps_closed_bind dest: declaration_alias_closed [OF a])
next
  case (ZVar i srt)
  then show ?case by (auto simp: keeps_closed_def bound_text_def)
next
  case (ZQuant k w q sk bs body pats nopats)
  obtain texts bindings st1 where b: "binders_text api bs st = (texts, bindings, st1)" by (cases "binders_text api bs st")
  have parts: "keeps_closed api st' (patterns_text api (bound @ bindings) pats st')"
    "keeps_closed api st' (expressions_text api (bound @ bindings) nopats st')" for st'
    using ZQuant.IH by (auto intro!: patterns_text_closed expressions_text_closed)
  show ?case
    unfolding expression_text.simps b Let_def prod.case
    by (rule keeps_closed_step [OF _ binders_text_closed [OF b]])
      (simp_all only: prod.case keeps_closed_bind keeps_closed_ret parts ZQuant.IH)
qed

lemma mapE_total: "(\<And>x. x \<in> set xs \<Longrightarrow> \<exists>y. f x = Inr y) \<Longrightarrow> \<exists>ys. mapE f xs = Inr ys"
  by (induction xs) (auto, fastforce)

lemma find_sort_alias_total: "srt \<in> snd ` set (reg_sorts r) \<Longrightarrow> \<exists>a. find_sort_alias r srt = Inr a"
  using find_alias_None [of "reg_sorts r" srt] by (auto simp: find_sort_alias_def split: option.splits)

lemma declarations_json_total:
  assumes "reg_closed api r"
  shows "\<exists>t. declarations_json api r = Inr t"
proof -
  have "\<exists>t. declaration_json api r b = Inr t" if b: "b \<in> set (reg_decls r)" for b
  proof -
    have "\<exists>xs. mapE (find_sort_alias r) (api_domain api (snd b)) = Inr xs" "\<exists>x. find_sort_alias r (api_range api (snd b)) = Inr x"
      using assms b unfolding reg_closed_def by (intro mapE_total find_sort_alias_total; blast)+
    then show ?thesis by (auto simp: declaration_json_def Let_def)
  qed
  from mapE_total [of "reg_decls r" "declaration_json api r", OF this] show ?thesis by (auto simp: declarations_json_def)
qed

text \<open>Lifting succeeds with or without the identity check, and the result is the same.\<close>

lemma lift_total:
  assumes "wf_term api [] e"
  shows "\<exists>t reg. print_term api e = Inr (lifted_text t, reg) \<and> reify api reg (lifted_text t) = Inr e \<and>
           lift_rainfall_term api e exact = Inr t"
proof -
  obtain u reg where u: "print_term api e = Inr (u, reg)" "reify api reg u = Inr e"
    using print_then_reify [OF assms] by blast
  have "reg_closed api empty_registry" by (simp add: reg_closed_def empty_registry_def)
  with expression_text_closed [of api "\<lparr>pr_registry = empty_registry, pr_next_bound = 0\<rparr>" "[]" e] u(1)
  have "reg_closed api reg" by (auto simp: keeps_closed_def print_term_def bindE_def split: sum.splits)
  then obtain d where "declarations_json api reg = Inr d" using declarations_json_total by blast
  with u show ?thesis
    by (intro exI [of _ "\<lparr>lifted_text = u, lifted_sorts_json = sorts_json api reg, lifted_declarations_json = d\<rparr>"] exI [of _ reg])
      (simp add: lift_rainfall_term_def as_lift_error_def)
qed

end
