(* ===== verification/Rainfall_Recorder_Props.thy ===== *)
theory Rainfall_Recorder_Props
  imports Rainfall_Recorder Rainfall_Round_Trip
begin

text \<open>
  What the recorder promises: the lines of a trace are numbered in the order they are written, a term
  and a source node have one reference each, a pending instance is handed out once, and validation of
  terms that Z3 can rebuild always succeeds.
\<close>

section \<open>The invariant\<close>

definition line_ok :: "string \<Rightarrow> nat \<Rightarrow> string \<Rightarrow> bool" where
  "line_ok run i l \<longleftrightarrow> (\<exists>kind operation within producer coverage data.
     l = event_text run i kind operation within producer coverage data)"

definition lines_ok :: "recorder \<Rightarrow> bool" where
  "lines_ok r \<longleftrightarrow> length (rc_lines r) = rc_sequence r \<and> (\<forall>i<rc_sequence r. line_ok (rc_run r) i (rc_lines r ! i))"

text \<open>What holds of the recorder even after an exception.\<close>

definition rec_weak :: "recorder \<Rightarrow> bool" where
  "rec_weak r \<longleftrightarrow> lines_ok r \<and> distinct (rc_terms r) \<and> distinct (map fst (rc_pending r)) \<and>
     (\<forall>n ref. (n, ref) \<in> set (rc_source_nodes r) \<longrightarrow> ref = ''source:'' @ nat_to_string n) \<and>
     distinct (map fst (rc_source_nodes r))"

definition lifted_ok :: "z3_world \<Rightarrow> recorder \<Rightarrow> bool" where
  "lifted_ok w r \<longleftrightarrow> length (rc_lifted_texts r) = length (rc_terms r) \<and>
     length (rc_lifted_text_hashes r) = length (rc_terms r) \<and> rc_validated_terms r \<le> length (rc_terms r) \<and>
     (\<forall>i<length (rc_terms r). (\<exists>l. lift_rainfall_term (w_api w) (rc_terms r ! i) False = Inr l \<and> rc_lifted_texts r ! i = lifted_text l) \<and>
        rc_lifted_text_hashes r ! i = exact_content_hash (rc_lifted_texts r ! i))"

definition rec_inv :: "z3_world \<Rightarrow> recorder \<Rightarrow> bool" where
  "rec_inv w r \<longleftrightarrow> rec_weak r \<and> lifted_ok w r"

definition rec_le :: "recorder \<Rightarrow> recorder \<Rightarrow> bool" where
  "rec_le r r' \<longleftrightarrow> rc_run r' = rc_run r \<and> rc_snapshot r' = rc_snapshot r \<and>
     (\<exists>ts. rc_terms r' = rc_terms r @ ts) \<and> (\<exists>ls. rc_lines r' = rc_lines r @ ls) \<and>
     (\<forall>n ref. map_of (rc_source_nodes r) n = Some ref \<longrightarrow> map_of (rc_source_nodes r') n = Some ref)"

lemma rec_le_refl: "rec_le r r"
  by (simp add: rec_le_def)

lemma rec_le_trans: "rec_le r s \<Longrightarrow> rec_le s t \<Longrightarrow> rec_le r t"
  by (auto simp: rec_le_def)

interpretation rec: action_invariant "rec_inv w" rec_weak rec_le for w
  by unfold_locales (auto simp: rec_inv_def rec_le_refl intro: rec_le_trans)

section \<open>The operations keep it\<close>

lemma record_event_result:
  "record_event kind operation within producer coverage data r =
     (Inr (event_reference (rc_sequence r)), r\<lparr>rc_sequence := Suc (rc_sequence r),
        rc_lines := rc_lines r @ [event_text (rc_run r) (rc_sequence r) kind operation within producer coverage data]\<rparr>)"
  by (simp add: record_event_def Let_def)

lemma lines_ok_snoc:
  "lines_ok r \<Longrightarrow> line_ok (rc_run r) (rc_sequence r) l \<Longrightarrow>
   lines_ok (r\<lparr>rc_sequence := Suc (rc_sequence r), rc_lines := rc_lines r @ [l]\<rparr>)"
  by (auto simp: lines_ok_def nth_append less_Suc_eq)

lemma lines_ok_validated [simp]: "lines_ok (r\<lparr>rc_validated_terms := n\<rparr>) = lines_ok r"
  by (simp add: lines_ok_def)

lemma line_ok_event: "line_ok run i (event_text run i kind operation within producer coverage data)"
  unfolding line_ok_def by blast

lemma keeps_record_event: "rec.keeps w (record_event kind operation within producer coverage data)"
  by (rule rec.keepsI)
    (auto simp: vcA_def record_event_result rec_inv_def rec_weak_def lifted_ok_def rec_le_def
      intro!: lines_ok_snoc line_ok_event)

lemma position_of_Some: "position_of xs x = Some i \<Longrightarrow> i < length xs \<and> xs ! i = x"
  by (induction xs arbitrary: i) (auto split: if_splits)

lemma position_of_None: "position_of xs x = None \<longleftrightarrow> x \<notin> set xs"
  by (induction xs) auto

lemma position_of_nth: "distinct xs \<Longrightarrow> i < length xs \<Longrightarrow> position_of xs (xs ! i) = Some i"
  by (induction xs arbitrary: i) (auto simp: nth_Cons split: nat.splits)

text \<open>A term that is registered: its reference is its place in the registry.\<close>

definition registered :: "zexpr \<Rightarrow> string \<Rightarrow> recorder \<Rightarrow> bool" where
  "registered e ref r \<longleftrightarrow> (\<exists>i<length (rc_terms r). rc_terms r ! i = e \<and> ref = term_reference i)"

lemma registered_le: "registered e ref r \<Longrightarrow> rec_le r r' \<Longrightarrow> registered e ref r'"
  unfolding registered_def rec_le_def by (metis length_append nth_append trans_less_add1)

lemma register_term_vc:
  assumes "rec_inv w r"
  shows "vcA (register_term w e representation) (\<lambda>ref r'. rec_inv w r' \<and> rec_le r r' \<and> registered e ref r')
    (\<lambda>_ r'. rec_weak r' \<and> rec_le r r') r"
proof -
  let ?Q = "\<lambda>ref r'. rec_inv w r' \<and> rec_le r r' \<and> registered e ref r'" and ?E = "\<lambda>_ r'. rec_weak r' \<and> rec_le r r'"
  let ?lift = "lift_rainfall_term (w_api w) e False"
  show ?thesis
  proof (cases "position_of (rc_terms r) e")
    case (Some i)
    with position_of_Some [OF this] assms show ?thesis
      unfolding register_term_def by (intro act_rule) (auto simp: rec_le_refl registered_def)
  next
    case None
    define r1 where "r1 = r\<lparr>rc_terms := rc_terms r @ [e]\<rparr>"
    have weak: "rec_weak r1" "rec_le r r1"
      using assms None by (auto simp: r1_def rec_inv_def rec_weak_def lines_ok_def rec_le_def position_of_None)
    show ?thesis
    proof (cases ?lift)
      case (Inl x)
      then show ?thesis unfolding register_term_def using weak
        by (intro act_rule) (auto simp: None Let_def r1_def intro!: act_rule)
    next
      case (Inr l)
      define r2 where "r2 = r1\<lparr>rc_lifted_texts := rc_lifted_texts r @ [lifted_text l],
        rc_lifted_text_hashes := rc_lifted_text_hashes r @ [exact_content_hash (lifted_text l)]\<rparr>"
      have r2: "rec_inv w r2" "rec_le r r2" "registered e (term_reference (length (rc_terms r))) r2"
        using assms weak Inr
        by (auto simp: r1_def r2_def rec_inv_def lifted_ok_def rec_weak_def lines_ok_def rec_le_def registered_def nth_append less_Suc_eq)
      have "vcA (record_event kind operation within producer coverage data) (\<lambda>_. vcA (retA (term_reference (length (rc_terms r)))) ?Q ?E) ?E r2"
        for kind operation within producer coverage data
        by (intro act_rule rec.keeps_use [OF keeps_record_event r2(1)])
          (use r2(2,3) in \<open>auto intro: rec_le_trans registered_le\<close>)
      then show ?thesis unfolding register_term_def using Inr
        by (intro act_rule) (auto simp: None Let_def r1_def r2_def intro!: act_rule)
    qed
  qed
qed

lemma keeps_register_term: "rec.keeps w (register_term w e representation)"
  by (rule rec.keepsI, rule vcA_mono [OF register_term_vc]) auto

lemma keeps_rain_term: "rec.keeps w (rain_term w e)"
  unfolding rain_term_def by (rule keeps_register_term)

definition node_reference :: "nat \<Rightarrow> string" where
  "node_reference n = ''source:'' @ nat_to_string n"

lemma source_node_vc:
  assumes "rec_inv w r"
  shows "vcA (source_node n span kind)
    (\<lambda>ref r'. rec_inv w r' \<and> rec_le r r' \<and> ref = node_reference n \<and> map_of (rc_source_nodes r') n = Some ref)
    (\<lambda>_ r'. r' = r \<and> rc_snapshot r = None) r"
proof (cases "map_of (rc_source_nodes r) n")
  case None
  define r1 where "r1 = r\<lparr>rc_source_nodes := (n, ''source:'' @ nat_to_string n) # rc_source_nodes r\<rparr>"
  have r1: "rec_inv w r1" "rec_le r r1" "map_of (rc_source_nodes r1) n = Some (node_reference n)"
    using assms None
    by (auto simp: r1_def rec_inv_def rec_weak_def lines_ok_def lifted_ok_def rec_le_def node_reference_def map_of_eq_None_iff dest: map_of_SomeD)
  have "vcA (record_event kind operation within producer coverage data)
      (\<lambda>_ r'. rec_inv w r' \<and> rec_le r r' \<and> map_of (rc_source_nodes r') n = Some (node_reference n)) (\<lambda>_ r'. r' = r \<and> rc_snapshot r = None) r1"
    for kind operation within producer coverage data
    using rec.keepsD [OF keeps_record_event r1(1), of kind operation within producer coverage data] r1
    by (auto simp: vcA_def record_event_result rec_le_def)
  then have "vcA (record_event kind operation within producer coverage data)
      (\<lambda>_. vcA (retA (node_reference n)) (\<lambda>ref r'. rec_inv w r' \<and> rec_le r r' \<and> ref = node_reference n \<and> map_of (rc_source_nodes r') n = Some ref) E)
      (\<lambda>_ r'. r' = r \<and> rc_snapshot r = None) r1" for kind operation within producer coverage data and E :: "fine_error \<Rightarrow> recorder \<Rightarrow> bool"
    by (rule vcA_mono) (auto intro: act_rule)
  then show ?thesis unfolding source_node_def
    by (intro act_rule) (auto simp: None Let_def r1_def node_reference_def intro!: act_rule)
next
  case (Some ref)
  then have "ref = node_reference n"
    using assms map_of_SomeD [OF Some] by (auto simp: rec_inv_def rec_weak_def node_reference_def)
  with assms Some show ?thesis unfolding source_node_def
    by (intro act_rule) (auto simp: rec_le_refl intro!: act_rule)
qed

lemma keeps_source_node: "rec.keeps w (source_node n span kind)"
  by (rule rec.keepsI, rule vcA_mono [OF source_node_vc]) (auto simp: rec_le_refl rec_inv_def)

lemmas rec_rules = rec.keeps_rules keeps_record_event keeps_rain_term keeps_register_term keeps_source_node

lemma keeps_source_term: "rec.keeps w (source_term w n span kind e correspondence within)"
  unfolding source_term_def by (intro rec_rules)

lemma keeps_remember: "rec.keeps w (remember_quantifier_instance q i event)"
  by (rule rec.keepsI)
    (auto simp: vcA_def remember_quantifier_instance_def rec_inv_def rec_weak_def lines_ok_def lifted_ok_def rec_le_def
      map_of_eq_None_iff split: option.splits)

lemma keeps_take: "rec.keeps w (take_quantifier_instance q i)"
  by (rule rec.keepsI)
    (auto simp: vcA_def take_quantifier_instance_def rec_inv_def rec_weak_def lines_ok_def lifted_ok_def rec_le_def
      distinct_map inj_on_def split: option.splits)

lemma keeps_ref_array: "rec.keeps w (ref_array w es)"
  unfolding ref_array_def by (intro rec_rules)

lemma keeps_eval_field: "rec.keeps w (eval_field w spec)"
  by (cases spec) (auto intro!: rec_rules keeps_ref_array)

lemma keeps_emit: "rec.keeps w (emit w kind operation within producer coverage specs)"
  unfolding emit_def by (intro rec_rules keeps_eval_field)

section \<open>Validation\<close>

text \<open>Terms that Z3 rebuilds from their parts, as in \<open>Rainfall_Round_Trip\<close>.\<close>

definition terms_rebuild :: "z3_world \<Rightarrow> recorder \<Rightarrow> bool" where
  "terms_rebuild w r \<longleftrightarrow> (\<forall>e\<in>set (rc_terms r). wf_term (w_api w) [] e)"

lemma lift_exact_same:
  assumes "wf_term api [] e" "lift_rainfall_term api e False = Inr l"
  shows "lift_rainfall_term api e True = Inr l"
  using lift_total [OF assms(1), of True] assms(2)
  by (auto simp: lift_rainfall_term_def as_lift_error_def bindE_def split: sum.splits prod.splits if_splits)

definition validated_to :: "nat \<Rightarrow> recorder \<Rightarrow> recorder \<Rightarrow> bool" where
  "validated_to n r r' \<longleftrightarrow> rec_le r r' \<and> rc_terms r' = rc_terms r \<and> rc_validated_terms r' = n \<and>
     length (rc_lines r') = length (rc_lines r) + (n - rc_validated_terms r)"

lemma validate_term_vc:
  assumes "rec_inv w r" "terms_rebuild w r" "rc_validated_terms r < length (rc_terms r)"
  shows "vcA (validate_term w) (\<lambda>_ r'. rec_inv w r' \<and> validated_to (Suc (rc_validated_terms r)) r r') (\<lambda>_ _. False) r"
proof -
  let ?h = "rc_validated_terms r"
  obtain l where l: "lift_rainfall_term (w_api w) (rc_terms r ! ?h) False = Inr l" "rc_lifted_texts r ! ?h = lifted_text l"
    using assms(1,3) by (auto simp: rec_inv_def lifted_ok_def)
  have "lift_rainfall_term (w_api w) (rc_terms r ! ?h) True = Inr l"
    using assms(2,3) l(1) by (intro lift_exact_same) (auto simp: terms_rebuild_def)
  with l(2) assms show ?thesis unfolding validate_term_def
    by (intro act_rule)
      (auto simp: vcA_def record_event_result retA_def rec_inv_def rec_weak_def lifted_ok_def validated_to_def rec_le_def
        intro!: act_rule lines_ok_snoc [of "r\<lparr>rc_validated_terms := Suc ?h\<rparr>", simplified] line_ok_event)
qed

lemma validate_loop_vc:
  "rec_inv w r \<Longrightarrow> terms_rebuild w r \<Longrightarrow> n = length (rc_terms r) - rc_validated_terms r \<Longrightarrow>
   vcA (validate_loop n w) (\<lambda>_ r'. rec_inv w r' \<and> validated_to (length (rc_terms r)) r r') (\<lambda>_ _. False) r"
proof (induction n arbitrary: r)
  case 0
  then show ?case by (auto simp: vcA_def retA_def validated_to_def rec_le_refl rec_inv_def lifted_ok_def)
next
  case (Suc n)
  have "vcA (validate_loop n w) (\<lambda>_ r'. rec_inv w r' \<and> validated_to (length (rc_terms r)) r r') (\<lambda>_ _. False) r1"
    if r1: "rec_inv w r1" "validated_to (Suc (rc_validated_terms r)) r r1" for r1
  proof -
    have "terms_rebuild w r1" "n = length (rc_terms r1) - rc_validated_terms r1"
      using Suc.prems r1 by (auto simp: terms_rebuild_def validated_to_def)
    from Suc.IH [OF r1(1) this] show ?thesis
      by (rule vcA_mono) (use r1(2) Suc.prems(3) in \<open>auto simp: validated_to_def intro: rec_le_trans\<close>)
  qed
  then have "vcA (validate_term w) (\<lambda>_. vcA (validate_loop n w) (\<lambda>_ r'. rec_inv w r' \<and> validated_to (length (rc_terms r)) r r') (\<lambda>_ _. False))
      (\<lambda>_ _. False) r"
    by (intro vcA_mono [OF validate_term_vc [OF Suc.prems(1,2)]]) (use Suc.prems(3) in auto)
  then show ?case by (simp add: vcA_then)
qed

lemma validate_terms_vc:
  "rec_inv w r \<Longrightarrow> terms_rebuild w r \<Longrightarrow>
   vcA (validate_terms w) (\<lambda>_ r'. rec_inv w r' \<and> validated_to (length (rc_terms r)) r r') (\<lambda>_ _. False) r"
  unfolding validate_terms_def by (intro act_rule validate_loop_vc) auto

text \<open>Without that assumption validation may throw, but it keeps the weaker invariant.\<close>

lemma keeps_validate_term: "rec_inv w r \<Longrightarrow> rc_validated_terms r < length (rc_terms r) \<Longrightarrow>
  vcA (validate_term w) (\<lambda>_ r'. rec_inv w r' \<and> rec_le r r' \<and> rc_terms r' = rc_terms r \<and>
      rc_validated_terms r' = Suc (rc_validated_terms r)) (\<lambda>_ r'. rec_weak r' \<and> rec_le r r') r"
  unfolding validate_term_def
  by (intro act_rule)
    (auto simp: vcA_def record_event_result retA_def rec_inv_def rec_weak_def lifted_ok_def rec_le_def
      intro!: act_rule lines_ok_snoc [of "r\<lparr>rc_validated_terms := Suc (rc_validated_terms r)\<rparr>", simplified] line_ok_event)

lemma keeps_validate_loop:
  "rec_inv w r \<Longrightarrow> n = length (rc_terms r) - rc_validated_terms r \<Longrightarrow>
   vcA (validate_loop n w) (\<lambda>_ r'. rec_inv w r' \<and> rec_le r r') (\<lambda>_ r'. rec_weak r' \<and> rec_le r r') r"
proof (induction n arbitrary: r)
  case 0
  then show ?case by (simp add: vcA_def retA_def rec_le_refl)
next
  case (Suc n)
  have "vcA (validate_term w) (\<lambda>_. vcA (validate_loop n w) (\<lambda>_ r'. rec_inv w r' \<and> rec_le r r') (\<lambda>_ r'. rec_weak r' \<and> rec_le r r'))
      (\<lambda>_ r'. rec_weak r' \<and> rec_le r r') r"
  proof (rule vcA_mono [OF keeps_validate_term [OF Suc.prems(1)]])
    fix x r1 assume r1: "rec_inv w r1 \<and> rec_le r r1 \<and> rc_terms r1 = rc_terms r \<and> rc_validated_terms r1 = Suc (rc_validated_terms r)"
    with Suc.prems(2) have "vcA (validate_loop n w) (\<lambda>_ r'. rec_inv w r' \<and> rec_le r1 r') (\<lambda>_ r'. rec_weak r' \<and> rec_le r1 r') r1"
      by (intro Suc.IH) auto
    then show "vcA (validate_loop n w) (\<lambda>_ r'. rec_inv w r' \<and> rec_le r r') (\<lambda>_ r'. rec_weak r' \<and> rec_le r r') r1"
      by (rule vcA_mono) (use r1 in \<open>auto intro: rec_le_trans\<close>)
  qed (use Suc.prems(2) in auto)
  then show ?case by (simp add: vcA_then)
qed

lemma keeps_validate_terms: "rec.keeps w (validate_terms w)"
  unfolding validate_terms_def by (rule rec.keepsI) (intro act_rule keeps_validate_loop; simp)

section \<open>Code that holds a recorder\<close>

lemma rec_inv_new: "rec_inv w (new_recorder random run snapshot)"
proof -
  define r where "r = \<lparr>rc_run = (if run = [] then fresh_run random else run), rc_snapshot = snapshot, rc_terms = [],
      rc_lifted_texts = [], rc_lifted_text_hashes = [], rc_validated_terms = 0, rc_pending = [], rc_source_nodes = [],
      rc_sequence = 0, rc_lines = []\<rparr>"
  have init: "rec_inv w r" by (simp add: r_def rec_inv_def rec_weak_def lines_ok_def lifted_ok_def)
  have "rec_inv w (snd (thenA (record_event a b c d e f) (record_event a' b' c' d' e' f') r))" for a b c d e f a' b' c' d' e' f'
    using rec.keepsD [OF rec.keeps_then [OF keeps_record_event keeps_record_event] init, of a b c d e f a' b' c' d' e' f']
    by (simp add: vcA_def thenA_def bindA_def record_event_result)
  with init show ?thesis unfolding new_recorder_def r_def [symmetric] Let_def by (cases snapshot) simp_all
qed

definition rain_inv :: "z3_world \<Rightarrow> 'z rain_state_scheme \<Rightarrow> bool" where
  "rain_inv w s \<longleftrightarrow> (\<forall>r. st_rainfall s = Some r \<longrightarrow> rec_inv w r)"

definition rain_weak :: "'z rain_state_scheme \<Rightarrow> bool" where
  "rain_weak s \<longleftrightarrow> (\<forall>r. st_rainfall s = Some r \<longrightarrow> rec_weak r)"

definition rain_le :: "'z rain_state_scheme \<Rightarrow> 'z rain_state_scheme \<Rightarrow> bool" where
  "rain_le s s' \<longleftrightarrow> (case (st_rainfall s, st_rainfall s') of
     (None, None) \<Rightarrow> True | (Some r, Some r') \<Rightarrow> rec_le r r' | _ \<Rightarrow> False) \<and> st_queries s \<le> st_queries s'"

lemma rain_le_refl: "rain_le s s"
  by (simp add: rain_le_def rec_le_refl split: option.splits)

lemma rain_le_trans: "rain_le s t \<Longrightarrow> rain_le t u \<Longrightarrow> rain_le s u"
  by (auto simp: rain_le_def intro: rec_le_trans split: option.splits)

interpretation rains: action_invariant "rain_inv w" rain_weak rain_le for w
  by unfold_locales (auto simp: rain_inv_def rain_weak_def rec_inv_def intro: rain_le_refl rain_le_trans)

lemma keeps_rain: "rec.keeps w p \<Longrightarrow> rains.keeps w (rain d p)"
  by (rule rains.keepsI)
    (fastforce simp: vcA_def rain_def rain_inv_def rain_weak_def rain_le_def rec.keeps_def rec_le_refl
      split: option.splits prod.splits sum.splits)

lemma keeps_rain_event: "rains.keeps w (rain_event w kind operation within producer coverage specs)"
  unfolding rain_event_def by (intro keeps_rain rec_rules keeps_emit)

lemmas rain_rules = rains.keeps_rules keeps_rain_event

end
