(* ===== verification/Rainfall_Observers_Props.thy ===== *)
theory Rainfall_Observers_Props
  imports Rainfall_Observers Rainfall_Recorder_Props
begin

text \<open>
  The observers keep the recorder's invariant whatever Z3 reports, and a clause that comes from a
  quantifier instance is joined to the event of exactly that instance.
\<close>

lemmas recording_rules = rec_rules keeps_source_term keeps_remember keeps_take keeps_ref_array keeps_emit

lemma keeps_on_binding: "rec.keeps w (on_binding w obs q i)"
  unfolding on_binding_def by (intro recording_rules)

lemma keeps_instance_fields: "rec.keeps w (instance_fields w hint)"
  unfolding instance_fields_def by (intro recording_rules)

lemma keeps_on_clause: "rec.keeps w (on_clause w within hint deps clause)"
  unfolding on_clause_def by (intro recording_rules keeps_instance_fields)

lemma keeps_run_callback: "rec.keeps w (run_callback w obs c)"
  by (cases c) (auto intro!: recording_rules keeps_on_binding keeps_on_clause)

lemma keeps_on_rewrite: "rec.keeps w (on_rewrite w within r)"
  by (cases r) (auto intro!: recording_rules)

lemma keeps_solver_check: "rains.keeps w (solver_check w params obs assertions assumptions)"
proof -
  have k: "rains.keeps w (thenA (case obs of None \<Rightarrow> retA () | Some ob \<Rightarrow> rain () (forA cs (run_callback w ob))) (retA outcome))"
    for cs outcome
    by (intro rain_rules keeps_rain recording_rules keeps_run_callback)
  show ?thesis
  proof (rule rains.keepsI)
    fix s :: "'b rain_state_scheme" assume s: "rain_inv w s"
    obtain cs outcome where c: "w_check w (st_queries s) params assertions assumptions = (cs, outcome)"
      by (cases "w_check w (st_queries s) params assertions assumptions")
    let ?s = "s\<lparr>st_queries := Suc (st_queries s)\<rparr>"
    have s': "rain_inv w ?s" "rain_le s ?s"
      using s by (auto simp: rain_inv_def rain_le_def rec_le_refl split: option.splits)
    have "vcA (thenA (case obs of None \<Rightarrow> retA () | Some ob \<Rightarrow> rain () (forA cs (run_callback w ob))) (retA outcome))
        (\<lambda>_ t. rain_inv w t \<and> rain_le s t) (\<lambda>_ t. rain_weak t \<and> rain_le s t) ?s"
      by (rule rains.keeps_use [OF k s'(1)]) (use s'(2) in \<open>auto intro: rain_le_trans\<close>)
    then show "vcA (solver_check w params obs assertions assumptions) (\<lambda>_ t. rain_inv w t \<and> rain_le s t)
        (\<lambda>_ t. rain_weak t \<and> rain_le s t) s"
      unfolding solver_check_def by (simp add: vcA_def bindA_def thenA_def getA_def modifyA_def c)
  qed
qed

lemma keeps_simplify: "rains.keeps w (simplify_with_rainfall w e within)"
  unfolding simplify_with_rainfall_def
  by (intro rain_rules keeps_rain recording_rules keeps_on_rewrite)

lemmas world_rules = rain_rules keeps_solver_check keeps_simplify

end
