(* ===== verification/Fine_Sample_World.thy ===== *)
theory Fine_Sample_World
  imports Fine_Z3 Rainfall_Round_Trip
begin

text \<open>
  One concrete solver, on which the parameters of the model are instantiated when a property is applied
  to an input. Its constructors build the terms they are asked for, so that every closed term is rebuilt
  from its parts; it answers every query with \<open>unknown\<close> and simplifies nothing.
\<close>

primrec sort_text :: "zsort \<Rightarrow> string" where
  "sort_text SBool = ''Bool''"
| "sort_text SInt = ''Int''"
| "sort_text (SDatatype name) = name"
| "sort_text (SArray d r) = ''(Array '' @ sort_text d @ '' '' @ sort_text r @ '')''"

primrec sort_number :: "zsort \<Rightarrow> nat" where
  "sort_number SBool = 1"
| "sort_number SInt = 2"
| "sort_number (SDatatype name) = 6"
| "sort_number (SArray d r) = 5"

definition decl_kind_of :: "zdecl \<Rightarrow> decl_kind" where
  "decl_kind_of d = (case zd_family d of Builtin k \<Rightarrow> k | _ \<Rightarrow> OP_OTHER 0)"

definition sample_api :: "(zsort, zdecl) z3_api" where
  "sample_api =
     \<lparr>api_sort_to_string = sort_text, api_sort_kind = sort_number, api_sort_id = size,
      api_decl_name = (\<lambda>d. SymStr (zd_name d)), api_decl_kind = decl_kind_of, api_decl_kind_number = (\<lambda>_. 0),
      api_decl_parameters = (\<lambda>_. []), api_decl_to_string = zd_name, api_decl_id = size,
      api_domain = zd_domain, api_range = zd_range,
      api_mk_numeral = (\<lambda>v s. Some (ZNumeral v s)), api_mk_app = (\<lambda>d args. Some (ZApp d args)),
      api_mk_quantifier = (\<lambda>u weight qid skid bs body pats nopats.
        Some (ZQuant (if u then QForall else QExists) weight qid skid bs body pats nopats)),
      api_mk_lambda = (\<lambda>bs body. Some (ZQuant QLambda 0 SymNull SymNull bs body [] []))\<rparr>"

definition sample_world :: z3_world where
  "sample_world =
     \<lparr>w_api = sample_api, w_ast_id = size, w_to_string = (\<lambda>_. ''term''), w_check = (\<lambda>_ _ _ _. ([], Unknown ''sample'')),
      w_simplify = (\<lambda>e. e), w_rewrite = (\<lambda>e. ([], e)), w_datatype_error = (\<lambda>_ _. None),
      w_query = (\<lambda>_ _ _ _ q. ([], QueryUnknown ''sample'', q))\<rparr>"

text \<open>\<open>forall n. x + n >= 1\<close>\<close>

definition sample_term :: zexpr where
  "sample_term = ZQuant QForall 0 (SymStr ''q'') SymNull [(SymStr ''n'', SInt)]
     (mk_ge (mk_add (mk_const ''x'' SInt) (ZVar 0 SInt)) (int_val ''1'')) [] []"

lemma nat_to_string_no_null: "CHR 0x00 \<notin> set (nat_to_string n)"
  by (auto simp: is_digit_def less_eq_char_def dest: nat_to_string_digits)

lemma sample_term_ok: "wf_term sample_api [] sample_term"
  by (simp add: sample_term_def sample_api_def mk_ge_def mk_add_def mk_const_def int_val_def builtin_def numeral_text_def symbol_ok_def
      nat_to_string_no_null)

end
