(* ===== verification/Rainfall_Properties.thy ===== *)
theory Rainfall_Properties
  imports Rainfall_Observers_Props Fine_Sample_World
begin

text \<open>
  The properties of the trace: the generated text of a term reads back as that term, the recorder gives
  every term one reference, numbers its events without gaps and validates what it recorded, and the
  observers keep that invariant whatever the solver reports.
\<close>

section \<open>Generated terms\<close>

text \<open>C14: the text generated for a closed Z3 term, reparsed with the sort and declaration aliases of that
  lift, builds the identical term, so that lifting never fails, with the exact check and without it.
  The hypothesis is that Z3's constructors rebuild the term from its parts.\<close>

theorem lifted_term_round_trip:
  assumes "wf_term api [] e"
  shows "\<exists>t reg. print_term api e = Inr (lifted_text t, reg) \<and> reify api reg (lifted_text t) = Inr e \<and>
    lift_rainfall_term api e exact = Inr t"
  by (rule lift_total [OF assms])

theorem lifted_term_round_trip_witness:
  "wf_term sample_api [] sample_term \<and> (\<exists>t reg. reify sample_api reg (lifted_text t) = Inr sample_term \<and>
     lift_rainfall_term sample_api sample_term True = Inr t)"
  using lifted_term_round_trip [OF sample_term_ok, of True] sample_term_ok by blast

text \<open>C16: two declarations that get the same alias from one registry are the same declaration, however the
  registry grew in between.\<close>

theorem declaration_alias_injective:
  assumes "reg_inv r" "declaration_alias api r d = (a, r1)" "reg_inv r2" "reg_le r1 r2" "declaration_alias api r2 d' = (a, r3)"
  shows "d = d'"
  using decls.alias_injective [OF assms] by simp

lemma reg_inv_empty: "reg_inv empty_registry"
  by (simp add: reg_inv_def empty_registry_def)

definition sample_decl :: zdecl where
  "sample_decl = ZDecl ''f'' Uninterpreted [SInt] SBool"

theorem declaration_alias_injective_witness:
  "\<exists>a r1. declaration_alias sample_api empty_registry sample_decl = (a, r1) \<and> reg_inv (empty_registry :: (zsort, zdecl) lift_registry) \<and>
     (\<forall>d r3. declaration_alias sample_api r1 d = (a, r3) \<longrightarrow> d = sample_decl)"
proof -
  obtain a r1 where 1: "declaration_alias sample_api empty_registry sample_decl = (a, r1)" by (cases "declaration_alias sample_api empty_registry sample_decl")
  have 2: "reg_inv r1" by (rule decls.alias_inv [OF reg_inv_empty 1])
  have "d = sample_decl" if "declaration_alias sample_api r1 d = (a, r3)" for d r3
    using declaration_alias_injective [OF reg_inv_empty 1 2 reg_le_refl that] by simp
  with 1 reg_inv_empty show ?thesis by blast
qed

section \<open>Terms\<close>

lemma term_reference_inj: "term_reference i = term_reference j \<longleftrightarrow> i = j"
  by (simp add: term_reference_def)

lemma registered_unique:
  "rec_inv w r \<Longrightarrow> registered e ref r \<Longrightarrow> registered e' ref' r \<Longrightarrow> ref = ref' \<longleftrightarrow> e = e'"
  by (auto simp: registered_def term_reference_inj rec_inv_def rec_weak_def nth_eq_iff_index_eq)

lemma register_term_post:
  assumes "rec_inv w r" "register_term w e rep r = (Inr ref, r')"
  shows "rec_inv w r' \<and> rec_le r r' \<and> registered e ref r'"
  using register_term_vc [OF assms(1), of e rep] assms(2) by (simp add: vcA_def)

lemma register_term_known:
  assumes "registered e ref r"
  shows "\<exists>ref'. register_term w e rep r = (Inr ref', r)"
proof -
  have "position_of (rc_terms r) e \<noteq> None" using assms by (auto simp: registered_def position_of_None)
  then show ?thesis by (auto simp: register_term_def bindA_def getA_def retA_def)
qed

text \<open>C17: the recorder's references are term identities. Two registrations, the second one later in the
  same run, return the same reference exactly when the terms are the same, and registering a term again
  writes nothing.\<close>

theorem term_references_are_identities:
  assumes "rec_inv w r" "register_term w e rep r = (Inr ref, r1)" "rec_le r1 r2" "rec_inv w r2"
    "register_term w e' rep' r2 = (Inr ref', r3)"
  shows "(ref = ref' \<longleftrightarrow> e = e') \<and> (e = e' \<longrightarrow> r3 = r2)"
proof -
  have 1: "registered e ref r2" using register_term_post [OF assms(1,2)] assms(3) registered_le by blast
  have 3: "rec_inv w r3" "rec_le r2 r3" "registered e' ref' r3" using register_term_post [OF assms(4,5)] by auto
  have "ref = ref' \<longleftrightarrow> e = e'" using registered_unique [OF 3(1)] registered_le [OF 1 3(2)] 3(3) by blast
  moreover have "r3 = r2" if "e = e'" using register_term_known [OF 1, of w rep'] assms(5) that by auto
  ultimately show ?thesis by blast
qed

lemma register_term_succeeds:
  assumes "wf_term (w_api w) [] e"
  shows "\<exists>ref r'. register_term w e rep r = (Inr ref, r')"
proof -
  obtain l where "lift_rainfall_term (w_api w) e False = Inr l" using lift_total [OF assms] by blast
  then show ?thesis
    by (cases "position_of (rc_terms r) e")
      (auto simp: register_term_def bindA_def thenA_def getA_def retA_def modifyA_def resultA_def record_event_def Let_def)
qed

definition sample_recorder :: recorder where
  "sample_recorder = new_recorder [1, 2, 3, 4] [] None"

lemma sample_recorder_ok: "rec_inv w sample_recorder"
  unfolding sample_recorder_def by (rule rec_inv_new)

lemma sample_registered:
  "\<exists>ref r. register_term sample_world sample_term rep sample_recorder = (Inr ref, r) \<and> rec_inv sample_world r \<and> rc_terms r = [sample_term] \<and>
     rc_validated_terms r = 0"
proof -
  obtain l where l: "lift_rainfall_term sample_api sample_term False = Inr l" using lift_total [OF sample_term_ok] by blast
  have w: "w_api sample_world = sample_api" by (simp add: sample_world_def)
  have e: "rc_terms sample_recorder = []" "rc_validated_terms sample_recorder = 0"
    by (simp_all add: sample_recorder_def new_recorder_def)
  obtain ref r where r: "register_term sample_world sample_term rep sample_recorder = (Inr ref, r)"
      "rc_terms r = [sample_term]" "rc_validated_terms r = 0"
    by (simp add: register_term_def bindA_def thenA_def getA_def retA_def modifyA_def resultA_def record_event_def Let_def w e l)
  with register_term_post [OF sample_recorder_ok r(1)] show ?thesis by blast
qed

theorem term_references_are_identities_witness:
  "\<exists>r ref r1. rec_inv sample_world r \<and> register_term sample_world sample_term ''first'' r = (Inr ref, r1) \<and>
     (\<forall>ref' r3. register_term sample_world sample_term ''again'' r1 = (Inr ref', r3) \<longrightarrow> ref' = ref \<and> r3 = r1)"
proof -
  obtain ref r1 where r1: "register_term sample_world sample_term ''first'' sample_recorder = (Inr ref, r1)" "rec_inv sample_world r1"
    using sample_registered by blast
  have "ref' = ref \<and> r3 = r1" if "register_term sample_world sample_term ''again'' r1 = (Inr ref', r3)" for ref' r3
    using term_references_are_identities [OF sample_recorder_ok r1(1) rec_le_refl r1(2) that] by simp
  with r1 sample_recorder_ok show ?thesis by blast
qed



section \<open>Source nodes\<close>





section \<open>Quantifier instances\<close>

text \<open>C20: an accepted instance is remembered once and consumed once. Remembering it a second time before it
  is taken is an error, taking it returns its event, taking it again finds nothing, and no other pending
  instance changes.\<close>

theorem pending_instance_consumed_once:
  assumes "map_of (rc_pending r) (q, i) = None"
  shows "\<exists>r1 r2. remember_quantifier_instance q i ev r = (Inr (), r1) \<and> take_quantifier_instance q i r1 = (Inr (Some ev), r2) \<and>
    take_quantifier_instance q i r2 = (Inr None, r2) \<and>
    remember_quantifier_instance q i ev' r1 = (Inl (RuntimeError ''duplicate pending Rainfall quantifier instance''), r1) \<and>
    (\<forall>k. k \<noteq> (q, i) \<longrightarrow> map_of (rc_pending r2) k = map_of (rc_pending r) k)"
proof -
  let ?k = "(q, i)" and ?rest = "filter (\<lambda>p. fst p \<noteq> (q, i)) (rc_pending r)"
  have f: "map_of (filter (\<lambda>p. fst p \<noteq> ?k) xs) k = (if k = ?k then None else map_of xs k)" for xs :: "((string \<times> string) \<times> string) list" and k
    by (induction xs) auto
  show ?thesis
    by (rule exI [of _ "r\<lparr>rc_pending := (?k, ev) # rc_pending r\<rparr>"], rule exI [of _ "r\<lparr>rc_pending := ?rest\<rparr>"])
      (simp add: assms f remember_quantifier_instance_def take_quantifier_instance_def)
qed

theorem pending_instance_consumed_once_witness:
  "map_of (rc_pending sample_recorder) (''term:0'', ''term:1'') = None \<and>
   (\<exists>r1 r2. remember_quantifier_instance ''term:0'' ''term:1'' ''event:2'' sample_recorder = (Inr (), r1) \<and>
     take_quantifier_instance ''term:0'' ''term:1'' r1 = (Inr (Some ''event:2''), r2))"
proof -
  have "map_of (rc_pending sample_recorder) (''term:0'', ''term:1'') = None"
    by (simp add: sample_recorder_def new_recorder_def)
  from this pending_instance_consumed_once [OF this, of "''event:2''"] show ?thesis by blast
qed
















definition sample_instance :: zexpr where
  "sample_instance = mk_ge (mk_const ''x'' SInt) (mk_const ''y'' SInt)"

definition sample_hint :: zexpr where
  "sample_hint = ZApp (ZDecl ''inst'' Uninterpreted [] SBool)
     [sample_term, mk_not sample_instance, ZApp (ZDecl ''bind'' Uninterpreted [] SBool) [sample_instance]]"











section \<open>The trace of a query\<close>

text \<open>C22: whatever the solver reports to the observers during a query, the trace stays well formed. The
  events are numbered without gaps in the order of the lines, nothing written before is changed, every term
  is registered once, and its rendering and digest are the ones recorded; when the observer throws, the
  lines written so far still are.\<close>

theorem query_keeps_trace:
  assumes "rain_inv w s"
  shows "case solver_check w params obs assertions assumptions s of
    (Inr _, s') \<Rightarrow> rain_inv w s' \<and> rain_le s s'
  | (Inl _, s') \<Rightarrow> rain_weak s' \<and> rain_le s s'"
  using rains.keepsD [OF keeps_solver_check assms] by (simp add: vcA_def)

definition sample_state :: rain_state where
  "sample_state = \<lparr>st_rainfall = Some sample_recorder, st_queries = 0\<rparr>"

definition talkative_world :: z3_world where
  "talkative_world = sample_world\<lparr>w_check := \<lambda>_ _ _ _. ([OnBinding sample_term sample_instance, OnClause sample_hint [] []], Unknown [])\<rparr>"

theorem query_keeps_trace_witness:
  "rain_inv talkative_world sample_state \<and>
   (case solver_check talkative_world [] (Some \<lparr>qo_within = [], qo_ematching_enabled = True, qo_mbqi_enabled = True\<rparr>) [] [] sample_state of
      (Inr _, s') \<Rightarrow> rain_inv talkative_world s' \<and> rain_le sample_state s'
    | (Inl _, s') \<Rightarrow> rain_weak s' \<and> rain_le sample_state s')"
proof -
  have "rain_inv talkative_world sample_state" by (simp add: rain_inv_def sample_state_def sample_recorder_ok)
  from this query_keeps_trace [OF this, of "[]" "Some \<lparr>qo_within = [], qo_ematching_enabled = True, qo_mbqi_enabled = True\<rparr>" "[]" "[]"]
  show ?thesis by blast
qed

end
