(* ===== verification/Fine_Synthesis.thy ===== *)
theory Fine_Synthesis
  imports Rainfall_Observers
begin

text \<open>
  \<^verbatim>\<open>src/src/fine/synthesis.h\<close> and \<^verbatim>\<open>synthesis.cpp\<close>: the enumeration of candidate terms by size and the
  refutation loop.  The two loops of \<^verbatim>\<open>run\<close> need not end (the header of the file says so), so they
  take fuel; \<open>OutOfTime\<close> marks a run whose fuel was used up.
\<close>

section \<open>Candidates\<close>

record candidate =
  ca_size :: nat
  ca_term :: zexpr

record enumerator =
  en_by_size :: "zexpr list list"
  en_current_size :: nat
  en_current_index :: nat

definition add_unique :: "zexpr list \<Rightarrow> zexpr \<Rightarrow> zexpr list" where
  "add_unique terms t = (if t \<in> set terms then terms else terms @ [t])"

definition mk_enumerator :: "zexpr list \<Rightarrow> enumerator" where
  "mk_enumerator parameters =
     (let leaves = foldl add_unique [] (filter (\<lambda>p. sort_of p = SInt) parameters)
      in \<lparr>en_by_size = [[], add_unique (add_unique leaves (int_val ''0'')) (int_val ''1'')],
          en_current_size = 1, en_current_index = 0\<rparr>)"

text \<open>The terms of one size from those of the smaller sizes: for each split of the size, each left and
  each right operand, their sum and their difference.\<close>

definition combine_pair :: "zexpr \<Rightarrow> zexpr list \<Rightarrow> zexpr \<Rightarrow> zexpr list" where
  "combine_pair l terms r = add_unique (add_unique terms (mk_add l r)) (mk_sub l r)"

definition combine_sizes :: "zexpr list list \<Rightarrow> nat \<Rightarrow> zexpr list \<Rightarrow> nat \<Rightarrow> zexpr list" where
  "combine_sizes by_size target terms left_size =
     (let right_size = target - left_size - 1 in
      if right_size = 0 \<or> length by_size \<le> left_size \<or> length by_size \<le> right_size then terms
      else foldl (\<lambda>terms l. foldl (combine_pair l) terms (by_size ! right_size)) terms (by_size ! left_size))"

definition new_level :: "zexpr list list \<Rightarrow> zexpr list" where
  "new_level by_size =
     (let target = length by_size in
      if target < 3 then [] else foldl (combine_sizes (by_size @ [[]]) target) [] [1..<target - 1])"

function ensure_size :: "nat \<Rightarrow> zexpr list list \<Rightarrow> zexpr list list" where
  "ensure_size size' by_size =
     (if length by_size \<le> size' then ensure_size size' (by_size @ [new_level by_size]) else by_size)"
  by pat_completeness auto
termination
  by (relation "measure (\<lambda>(n, ls). Suc n - length ls)") auto

declare ensure_size.simps [simp del]

text \<open>One round of the loop of \<^verbatim>\<open>next\<close>; three rounds always find a candidate.\<close>

primrec next_rounds :: "nat \<Rightarrow> enumerator \<Rightarrow> (candidate \<times> enumerator) option" where
  "next_rounds 0 en = None"
| "next_rounds (Suc n) en =
     (let by_size = ensure_size (en_current_size en) (en_by_size en);
          terms = by_size ! en_current_size en
      in if en_current_index en < length terms
         then Some (\<lparr>ca_size = en_current_size en, ca_term = terms ! en_current_index en\<rparr>,
                    en\<lparr>en_by_size := by_size, en_current_index := Suc (en_current_index en)\<rparr>)
         else next_rounds n (en\<lparr>en_by_size := by_size, en_current_size := Suc (en_current_size en), en_current_index := 0\<rparr>))"

definition next_candidate :: "enumerator \<Rightarrow> (candidate \<times> enumerator) option" where
  "next_candidate en = next_rounds 3 en"

definition contains_expr :: "zexpr list \<Rightarrow> zexpr \<Rightarrow> bool" where
  "contains_expr expressions sought = list_ex (\<lambda>e. e = sought) expressions"

section \<open>The synthesizer\<close>

record selection =
  sel_grammar_size :: nat
  sel_term :: zexpr
  sel_ground_instance :: zexpr
  sel_label :: zexpr

record synthesis_result =
  sr_assembled :: zexpr
  sr_witness :: zexpr
  sr_selections :: "selection list"
  sr_core_indices :: "nat list"

record synthesizer =
  sz_declaration_name :: string
  sz_parameters :: "zexpr list"
  sz_result_placeholder :: zexpr
  sz_specification :: zexpr
  sz_grammar_inputs :: "zexpr list"
  sz_arm_scope :: bool

definition mk_synthesizer :: "string \<Rightarrow> zexpr list \<Rightarrow> zexpr \<Rightarrow> zexpr \<Rightarrow> zexpr list \<Rightarrow> bool \<Rightarrow> synthesizer" where
  "mk_synthesizer name parameters result_placeholder specification grammar_inputs arm_scope =
     \<lparr>sz_declaration_name = name, sz_parameters = parameters, sz_result_placeholder = result_placeholder,
      sz_specification = specification,
      sz_grammar_inputs = (if grammar_inputs = [] then parameters else grammar_inputs), sz_arm_scope = arm_scope\<rparr>"

definition model_assignments :: "z3_world \<Rightarrow> zexpr list \<Rightarrow> zexpr list \<Rightarrow> string recording" where
  \<open>model_assignments w symbols values =
     bindA (mapA (\<lambda>(x, v). bindA (rain_term w x) (\<lambda>xr. bindA (rain_term w v) (\<lambda>vr.
              retA (''{"symbol":'' @ rain_quote xr @ '',"value":'' @ rain_quote vr @ ''}'')))) (zip symbols values)) (\<lambda>items.
     retA (''['' @ join_commas items @ '']''))\<close>

text \<open>What the loops of \<^verbatim>\<open>run\<close> carry: the enumerator, the assertions of the solver \<^verbatim>\<open>gamma\<close>, the selections,
  the assumptions and the number of queries.\<close>

record synth_loop =
  sl_candidates :: enumerator
  sl_gamma :: "zexpr list"
  sl_selections :: "selection list"
  sl_active :: "zexpr list"
  sl_query_sequence :: nat

definition run_scope :: "synthesizer \<Rightarrow> string" where
  "run_scope sz = (if sz_arm_scope sz then ''synth-arm:'' else ''synth:'') @ sz_declaration_name sz"

definition query_name :: "nat \<Rightarrow> string" where
  "query_name n = ''query:'' @ nat_to_string n"

definition counterexample_parameters :: "synthesizer \<Rightarrow> zexpr list" where
  "counterexample_parameters sz =
     map (\<lambda>(i, p). mk_const (''Fine.synth.'' @ sz_declaration_name sz @ ''.k'' @ nat_to_string i) (sort_of p))
       (zip [0..<length (sz_parameters sz)] (sz_parameters sz))"

definition ground_instance :: "synthesizer \<Rightarrow> zexpr \<Rightarrow> zexpr" where
  "ground_instance sz t =
     (let ks = counterexample_parameters sz;
          candidate_at_k = z_substitute (sz_parameters sz) ks t
      in z_substitute (sz_parameters sz @ [sz_result_placeholder sz]) (ks @ [candidate_at_k]) (sz_specification sz))"

definition instance_label :: "synthesizer \<Rightarrow> nat \<Rightarrow> zexpr" where
  "instance_label sz n = mk_const (''Fine.synth.'' @ sz_declaration_name sz @ ''.instance'' @ nat_to_string n) SBool"

definition take_candidate :: "synth_loop \<Rightarrow> ('z rain_state_scheme, fine_error, candidate \<times> synth_loop) action" where
  "take_candidate l =
     (case next_candidate (sl_candidates l) of
        None \<Rightarrow> throwA OutOfTime
      | Some (c, en) \<Rightarrow> retA (c, l\<lparr>sl_candidates := en\<rparr>))"

definition open_selection_query ::
  "z3_world \<Rightarrow> synthesizer \<Rightarrow> synth_loop \<Rightarrow> string \<Rightarrow> candidate \<Rightarrow> zexpr \<Rightarrow> ('z rain_state_scheme, fine_error, unit) action" where
  "open_selection_query w sz l query selected inst =
     rain_event w ''scope'' ''solver.query.open'' [run_scope sz, query] ''fine.synthesis''
       ''Public solver assertion and assumption boundary''
       [FString ''id'' query,
        FString ''purpose'' ''test whether a candidate covers one live counterexample'',
        FTerm ''candidate'' (ca_term selected), FNumber ''grammar_size'' (ca_size selected),
        FTerm ''instance'' inst, FTerms ''assumptions'' (sl_active l),
        FString ''polarity'' ''candidate-has-compatible-ground-instance'']"

definition close_selection_query ::
  "z3_world \<Rightarrow> synthesizer \<Rightarrow> string \<Rightarrow> check_outcome \<Rightarrow> ('z rain_state_scheme, fine_error, unit) action" where
  "close_selection_query w sz query useful =
     bindA (case useful of
              Sat model \<Rightarrow>
                bindA (rain [] (model_assignments w (counterexample_parameters sz) (map model (counterexample_parameters sz)))) (\<lambda>json.
                retA [FRaw ''model_assignments'' json, FBool ''model_completion'' True,
                      FString ''relation'' ''equality-under-this-model''])
            | _ \<Rightarrow> retA []) (\<lambda>more.
     thenA (rain_event w ''transition'' ''solver.query.result'' [run_scope sz, query] ''z3.public-api''
        ''Final public check result and completed values for Fine's counterexample symbols''
        ([FString ''query'' query, FString ''status'' (check_text useful),
          FString ''polarity'' ''candidate-has-compatible-ground-instance''] @ more))
     (rain_event w ''scope'' ''solver.query.close'' [run_scope sz, query] ''fine.synthesis''
        ''Public solver query lifetime'' [FString ''id'' query]))"

definition activate_instance ::
  "z3_world \<Rightarrow> synthesizer \<Rightarrow> synth_loop \<Rightarrow> string \<Rightarrow> candidate \<Rightarrow> zexpr \<Rightarrow> ('z rain_state_scheme, fine_error, synth_loop) action" where
  "activate_instance w sz l query selected inst =
     thenA (rain_event w ''derive'' ''synth.candidate.select'' [run_scope sz] ''fine.synthesis''
       ''Deterministic first satisfiable candidate in exact-size enumeration order''
       [FTerm ''candidate'' (ca_term selected), FNumber ''grammar_size'' (ca_size selected),
        FString ''evidence_query'' query, FString ''policy'' ''first-enumerated-with-satisfiable-coverage''])
     (let label = instance_label sz (length (sl_selections l)) in
      thenA (rain_event w ''constraint'' ''synth.instance.activate'' [run_scope sz] ''fine.synthesis''
        ''Labelled negated ground instances asserted into gamma''
        [FTerm ''label'' label, FTerm ''instance'' inst, FTerm ''candidate'' (ca_term selected),
         FString ''evidence_query'' query])
      (retA (l\<lparr>sl_gamma := sl_gamma l @ [mk_implies label (mk_not inst)], sl_active := sl_active l @ [label],
               sl_selections := sl_selections l @ [\<lparr>sel_grammar_size = ca_size selected, sel_term = ca_term selected,
                 sel_ground_instance = inst, sel_label = label\<rparr>]\<rparr>)))"

primrec select_loop ::
  "nat \<Rightarrow> z3_world \<Rightarrow> synthesizer \<Rightarrow> synth_loop \<Rightarrow> candidate \<Rightarrow> ('z rain_state_scheme, fine_error, synth_loop) action" where
  "select_loop 0 w sz l selected = throwA OutOfTime"
| "select_loop (Suc n) w sz l selected =
     (let inst = ground_instance sz (ca_term selected);
          query = query_name (sl_query_sequence l);
          l = l\<lparr>sl_query_sequence := Suc (sl_query_sequence l)\<rparr>
      in
      thenA (open_selection_query w sz l query selected inst)
      (bindA (solver_check w [] None (sl_gamma l @ [inst]) (sl_active l)) (\<lambda>useful.
       thenA (close_selection_query w sz query useful)
       (case useful of
          Unknown reason \<Rightarrow> throwA (RuntimeError (''candidate selection was unknown: '' @ reason))
        | Sat _ \<Rightarrow> activate_instance w sz l query selected inst
        | Unsat _ \<Rightarrow>
            thenA (rain_event w ''derive'' ''synth.candidate.reject'' [run_scope sz] ''fine.synthesis''
              ''Candidate rejected only by its unsatisfiable ground coverage query''
              [FTerm ''candidate'' (ca_term selected), FNumber ''grammar_size'' (ca_size selected),
               FString ''evidence_query'' query])
            (bindA (take_candidate l) (\<lambda>(selected, l). select_loop n w sz l selected))))))"

definition open_state_query ::
  "z3_world \<Rightarrow> synthesizer \<Rightarrow> synth_loop \<Rightarrow> string \<Rightarrow> ('z rain_state_scheme, fine_error, unit) action" where
  "open_state_query w sz l query =
     rain_event w ''scope'' ''solver.query.open'' [run_scope sz, query] ''fine.synthesis''
       ''Public solver assertion and assumption boundary''
       [FString ''id'' query, FString ''purpose'' ''find a counterexample not covered by active instances'',
        FTerms ''assumptions'' (sl_active l), FString ''polarity'' ''uncovered-counterexample-exists'']"

definition close_state_query ::
  "z3_world \<Rightarrow> synthesizer \<Rightarrow> string \<Rightarrow> check_outcome \<Rightarrow> ('z rain_state_scheme, fine_error, unit) action" where
  "close_state_query w sz query state =
     thenA (rain_event w ''transition'' ''solver.query.result'' [run_scope sz, query] ''z3.public-api''
       ''Final public check result only; no claim about internal cause''
       [FString ''query'' query, FString ''status'' (check_text state), FString ''polarity'' ''uncovered-counterexample-exists''])
     (rain_event w ''scope'' ''solver.query.close'' [run_scope sz, query] ''fine.synthesis''
       ''Public solver query lifetime'' [FString ''id'' query])"

text \<open>The result is the core, the query it comes from, and what the loop carried.\<close>

primrec refute_loop ::
  "nat \<Rightarrow> z3_world \<Rightarrow> synthesizer \<Rightarrow> synth_loop \<Rightarrow> ('z rain_state_scheme, fine_error, zexpr list \<times> string \<times> synth_loop) action" where
  "refute_loop 0 w sz l = throwA OutOfTime"
| "refute_loop (Suc n) w sz l =
     (let query = query_name (sl_query_sequence l);
          l = l\<lparr>sl_query_sequence := Suc (sl_query_sequence l)\<rparr>
      in
      thenA (open_state_query w sz l query)
      (bindA (solver_check w [] None (sl_gamma l) (sl_active l)) (\<lambda>state.
       thenA (close_state_query w sz query state)
       (case state of
          Unsat core \<Rightarrow>
            thenA (rain_event w ''object'' ''solver.unsat-core'' [run_scope sz] ''z3.public-api''
              ''Assumption core returned for the immediately preceding unsatisfiable query''
              [FString ''query'' query, FTerms ''members'' core])
            (retA (core, query, l))
        | Unknown reason \<Rightarrow> throwA (RuntimeError (''synthesis context was unknown: '' @ reason))
        | Sat _ \<Rightarrow>
            bindA (take_candidate l) (\<lambda>(selected, l).
            bindA (select_loop n w sz l selected) (\<lambda>l. refute_loop n w sz l))))))"

definition core_indices :: "zexpr list \<Rightarrow> selection list \<Rightarrow> nat list" where
  "core_indices core sels = filter (\<lambda>i. contains_expr core (sel_label (sels ! i))) [0..<length sels]"

definition assemble :: "synthesizer \<Rightarrow> selection list \<Rightarrow> nat list \<Rightarrow> zexpr" where
  "assemble sz sels indices =
     foldl (\<lambda>assembled i.
        let t = sel_term (sels ! i); condition = z_substitute [sz_result_placeholder sz] [t] (sz_specification sz)
        in mk_ite condition t assembled)
       (sel_term (sels ! hd indices)) (tl indices)"

definition open_synthesis :: "z3_world \<Rightarrow> synthesizer \<Rightarrow> ('z rain_state_scheme, fine_error, unit) action" where
  "open_synthesis w sz =
     rain_event w ''scope'' (if sz_arm_scope sz then ''synth.arm.open'' else ''synth.run.open'') [run_scope sz] ''fine.synthesis''
       ''Fine's native QF-LIA refutation loop; excludes Z3-internal rewrites and search steps''
       [FString ''name'' (sz_declaration_name sz), FTerms ''parameters'' (sz_parameters sz),
        FTerm ''result'' (sz_result_placeholder sz), FTerm ''specification'' (sz_specification sz),
        FString ''candidate_policy'' ''first size-stratified term whose ground coverage query is satisfiable'']"

definition assemble_core ::
  "z3_world \<Rightarrow> synthesizer \<Rightarrow> selection list \<Rightarrow> nat list \<Rightarrow> string \<Rightarrow> ('z rain_state_scheme, fine_error, zexpr \<times> zexpr) action" where
  "assemble_core w sz sels indices core_query =
     (let assembled = assemble sz sels indices in
      thenA (rain_event w ''derive'' ''synth.assemble-core'' [run_scope sz] ''fine.synthesis''
        ''Insertion-ordered unsat-core members assembled with Fine's Reynolds-style conditional recipe''
        [FTerms ''inputs'' (map (\<lambda>i. sel_term (sels ! i)) indices), FTerm ''output'' assembled,
         FNumber ''core_size'' (length indices), FString ''evidence_query'' core_query])
      (bindA (simplify_with_rainfall w assembled [run_scope sz, ''transform:public-simplify'']) (\<lambda>witness.
       thenA (rain_event w ''transform'' ''z3.simplify'' [run_scope sz] ''z3.public-api''
         ''One public simplify call; excludes the internal rewrite sequence''
         [FTerm ''before'' assembled, FTerm ''after'' witness, FString ''relation'' ''theory-equivalent''])
       (retA (assembled, witness)))))"

definition verify_witness ::
  "z3_world \<Rightarrow> synthesizer \<Rightarrow> string \<Rightarrow> zexpr \<Rightarrow> ('z rain_state_scheme, fine_error, unit) action" where
  "verify_witness w sz query witness =
     (let verified = z_substitute [sz_result_placeholder sz] [witness] (sz_specification sz) in
      thenA (rain_event w ''scope'' ''solver.query.open'' [run_scope sz, query] ''fine.synthesis''
        ''Fresh solver containing only the negated original specification''
        [FString ''id'' query, FString ''purpose'' ''independently search for a witness counterexample'',
         FTerm ''candidate'' witness, FTerm ''assertion'' (mk_not verified), FString ''polarity'' ''counterexample-exists''])
      (bindA (solver_check w [] None [mk_not verified] []) (\<lambda>verification.
       thenA (rain_event w ''transition'' ''solver.query.result'' [run_scope sz, query] ''z3.public-api''
         ''Final public check result only; independent of synthesis gamma''
         [FString ''query'' query, FString ''status'' (check_text verification),
          FString ''polarity'' ''counterexample-exists'',
          FString ''domain_outcome'' (case verification of Unsat _ \<Rightarrow> ''verified'' | _ \<Rightarrow> ''not-verified'')])
       (thenA (rain_event w ''scope'' ''solver.query.close'' [run_scope sz, query] ''fine.synthesis''
         ''Fresh verification solver query lifetime'' [FString ''id'' query])
       (case verification of
          Unknown reason \<Rightarrow> throwA (RuntimeError (''synthesized candidate verification was unknown: '' @ reason))
        | Sat _ \<Rightarrow> throwA (RuntimeError ''synthesized candidate failed independent verification'')
        | Unsat _ \<Rightarrow>
            rain_event w ''transition'' ''synth.backend.accept'' [run_scope sz] ''fine.synthesis''
              ''Semantic candidate accepted after a fresh unsatisfiable counterexample query''
              [FTerm ''candidate'' witness, FString ''evidence_query'' query, FString ''status'' ''verified''])))))"

definition run_synthesizer ::
  "nat \<Rightarrow> z3_world \<Rightarrow> synthesizer \<Rightarrow> ('z rain_state_scheme, fine_error, synthesis_result) action" where
  "run_synthesizer fuel w sz =
     thenA (open_synthesis w sz)
     (bindA (refute_loop fuel w sz \<lparr>sl_candidates = mk_enumerator (sz_grammar_inputs sz), sl_gamma = [], sl_selections = [],
               sl_active = [], sl_query_sequence = 0\<rparr>) (\<lambda>(core, core_query, l).
      let indices = core_indices core (sl_selections l) in
      thenA (guardA (indices \<noteq> []) (RuntimeError ''synthesis refutation produced an empty core''))
      (bindA (assemble_core w sz (sl_selections l) indices core_query) (\<lambda>(assembled, witness).
       thenA (verify_witness w sz (query_name (sl_query_sequence l)) witness)
       (retA \<lparr>sr_assembled = assembled, sr_witness = witness, sr_selections = sl_selections l, sr_core_indices = indices\<rparr>)))))"

lemmas synthesis_code [code] =
  model_assignments_def [THEN fun_cong] take_candidate_def [THEN fun_cong] open_selection_query_def [THEN fun_cong]
  close_selection_query_def [THEN fun_cong] activate_instance_def [THEN fun_cong] select_loop.simps [THEN fun_cong]
  open_state_query_def [THEN fun_cong] close_state_query_def [THEN fun_cong] refute_loop.simps [THEN fun_cong]
  open_synthesis_def [THEN fun_cong] assemble_core_def [THEN fun_cong] verify_witness_def [THEN fun_cong]
  run_synthesizer_def [THEN fun_cong]

end
