(* ===== verification/Fine_Enumerator_Props.thy ===== *)
theory Fine_Enumerator_Props
  imports Fine_Synthesis
begin

text \<open>
  The candidate enumerator against the grammar it enumerates: level \<open>n\<close> holds exactly the grammar terms
  of size \<open>n\<close>, each once, and the calls of \<open>next_candidate\<close> run through the levels in order, so that
  every grammar term is reached after finitely many calls.
\<close>

section \<open>The grammar\<close>

inductive grammar :: "zexpr list \<Rightarrow> nat \<Rightarrow> zexpr \<Rightarrow> bool" for inputs where
  grammar_input: "p \<in> set inputs \<Longrightarrow> sort_of p = SInt \<Longrightarrow> grammar inputs (Suc 0) p"
| grammar_zero: "grammar inputs (Suc 0) (int_val ''0'')"
| grammar_one: "grammar inputs (Suc 0) (int_val ''1'')"
| grammar_add: "grammar inputs m l \<Longrightarrow> grammar inputs n r \<Longrightarrow> grammar inputs (Suc (m + n)) (mk_add l r)"
| grammar_sub: "grammar inputs m l \<Longrightarrow> grammar inputs n r \<Longrightarrow> grammar inputs (Suc (m + n)) (mk_sub l r)"

lemma grammar_odd: "grammar inputs n t \<Longrightarrow> odd n"
  by (induction rule: grammar.induct) auto

lemma grammar_pos: "grammar inputs n t \<Longrightarrow> 0 < n"
  by (drule grammar_odd) (cases n; simp)

lemma grammar_one_iff:
  "grammar inputs (Suc 0) t \<longleftrightarrow> t \<in> {p \<in> set inputs. sort_of p = SInt} \<union> {int_val ''0'', int_val ''1''}"
proof
  assume "grammar inputs (Suc 0) t"
  then show "t \<in> {p \<in> set inputs. sort_of p = SInt} \<union> {int_val ''0'', int_val ''1''}"
    by (cases rule: grammar.cases) (auto dest: grammar_pos)
qed (auto intro: grammar.intros)

lemma grammar_step_iff:
  assumes "1 < n"
  shows "grammar inputs n t \<longleftrightarrow>
    (\<exists>a b l r. n = Suc (a + b) \<and> grammar inputs a l \<and> grammar inputs b r \<and> (t = mk_add l r \<or> t = mk_sub l r))"
proof
  assume "grammar inputs n t"
  then show "\<exists>a b l r. n = Suc (a + b) \<and> grammar inputs a l \<and> grammar inputs b r \<and> (t = mk_add l r \<or> t = mk_sub l r)"
    using assms by (cases rule: grammar.cases) auto
qed (auto intro: grammar_add grammar_sub)

lemma grammar_exists: "\<exists>t. grammar inputs (2 * k + 1) t"
proof (induction k)
  case 0
  show ?case using grammar_zero by auto
next
  case (Suc k)
  then obtain t where "grammar inputs (2 * k + 1) t" by blast
  from grammar_add [OF this grammar_zero] show ?case by (auto simp: algebra_simps)
qed

section \<open>One level\<close>

lemma set_add_unique [simp]: "set (add_unique ts t) = insert t (set ts)"
  by (auto simp: add_unique_def)

lemma distinct_add_unique: "distinct ts \<Longrightarrow> distinct (add_unique ts t)"
  by (simp add: add_unique_def)

lemma fold_add_unique: "set (foldl add_unique ts xs) = set ts \<union> set xs \<and> (distinct ts \<longrightarrow> distinct (foldl add_unique ts xs))"
  by (induction xs arbitrary: ts) (auto simp: distinct_add_unique)

lemma fold_combine_pair:
  "set (foldl (combine_pair l) ts rs) = set ts \<union> {t. \<exists>r\<in>set rs. t = mk_add l r \<or> t = mk_sub l r} \<and>
   (distinct ts \<longrightarrow> distinct (foldl (combine_pair l) ts rs))"
  by (induction rs arbitrary: ts) (auto simp: combine_pair_def distinct_add_unique)

lemma fold_combine_left:
  "set (foldl (\<lambda>ts l. foldl (combine_pair l) ts rs) ts ls) =
     set ts \<union> {t. \<exists>l\<in>set ls. \<exists>r\<in>set rs. t = mk_add l r \<or> t = mk_sub l r} \<and>
   (distinct ts \<longrightarrow> distinct (foldl (\<lambda>ts l. foldl (combine_pair l) ts rs) ts ls))"
  by (induction ls arbitrary: ts) (auto simp: fold_combine_pair)

definition splits_into :: "zexpr list list \<Rightarrow> nat \<Rightarrow> nat set \<Rightarrow> zexpr set" where
  "splits_into ls target lefts = {t. \<exists>a\<in>lefts. \<exists>l\<in>set (ls ! a). \<exists>r\<in>set (ls ! (target - Suc a)). t = mk_add l r \<or> t = mk_sub l r}"

lemma fold_combine_sizes:
  assumes "\<forall>a\<in>set as. 0 < a \<and> Suc a < target" "target < length ls"
  shows "set (foldl (combine_sizes ls target) ts as) = set ts \<union> splits_into ls target (set as) \<and>
    (distinct ts \<longrightarrow> distinct (foldl (combine_sizes ls target) ts as))"
  using assms
proof (induction as arbitrary: ts)
  case (Cons a as)
  have "combine_sizes ls target ts a = foldl (\<lambda>ts l. foldl (combine_pair l) ts (ls ! (target - Suc a))) ts (ls ! a)"
    using Cons.prems by (auto simp: combine_sizes_def Let_def)
  with Cons fold_combine_left [of "ls ! (target - Suc a)" ts "ls ! a"] show ?case by (auto simp: splits_into_def)
qed (simp add: splits_into_def)

lemma splits_into_cong:
  "lefts = lefts' \<Longrightarrow> (\<And>a. a \<in> lefts' \<Longrightarrow> ls ! a = ms ! a \<and> ls ! (n - Suc a) = ms ! (n - Suc a)) \<Longrightarrow>
   splits_into ls n lefts = splits_into ms n lefts'"
  by (auto simp: splits_into_def)

lemma new_level_sets:
  assumes "2 \<le> length ls"
  shows "set (new_level ls) = splits_into ls (length ls) {a. 0 < a \<and> Suc a < length ls} \<and> distinct (new_level ls)"
proof (cases "length ls < 3")
  case True
  with assms show ?thesis by (auto simp: new_level_def splits_into_def)
next
  case False
  have "set (new_level ls) = splits_into (ls @ [[]]) (length ls) (set [1..<length ls - 1]) \<and> distinct (new_level ls)"
    using False fold_combine_sizes [of "[1..<length ls - 1]" "length ls" "ls @ [[]]" "[]"]
    unfolding new_level_def Let_def by (simp add: less_diff_conv)
  moreover have "splits_into (ls @ [[]]) (length ls) (set [1..<length ls - 1]) = splits_into ls (length ls) {a. 0 < a \<and> Suc a < length ls}"
    using False by (intro splits_into_cong) (auto simp: nth_append)
  ultimately show ?thesis by simp
qed

section \<open>All levels\<close>

definition levels_ok :: "zexpr list \<Rightarrow> zexpr list list \<Rightarrow> bool" where
  "levels_ok inputs ls \<longleftrightarrow> 2 \<le> length ls \<and> (\<forall>n<length ls. set (ls ! n) = {t. grammar inputs n t} \<and> distinct (ls ! n))"

lemma levels_ok_init: "levels_ok inputs (en_by_size (mk_enumerator inputs))"
proof -
  have "\<not> grammar inputs 0 t" for t using grammar_pos by fastforce
  then show ?thesis
    using fold_add_unique [of "[]" "filter (\<lambda>p. sort_of p = SInt) inputs"]
    by (auto simp: levels_ok_def mk_enumerator_def Let_def less_Suc_eq numeral_2_eq_2 grammar_one_iff
        distinct_add_unique)
qed

lemma levels_ok_step:
  assumes "levels_ok inputs ls"
  shows "levels_ok inputs (ls @ [new_level ls])"
proof -
  have "set (new_level ls) = {t. grammar inputs (length ls) t}"
  proof -
    have "t \<in> splits_into ls (length ls) {a. 0 < a \<and> Suc a < length ls} \<longleftrightarrow> grammar inputs (length ls) t" for t
    proof -
      have s: "set (ls ! a) = {t. grammar inputs a t}" if "a < length ls" for a using assms that by (simp add: levels_ok_def)
      have "grammar inputs (length ls) t \<longleftrightarrow>
        (\<exists>a b l r. length ls = Suc (a + b) \<and> grammar inputs a l \<and> grammar inputs b r \<and> (t = mk_add l r \<or> t = mk_sub l r))"
        using assms by (intro grammar_step_iff) (simp add: levels_ok_def)
      also have "\<dots> \<longleftrightarrow> (\<exists>a. 0 < a \<and> Suc a < length ls \<and>
          (\<exists>l r. grammar inputs a l \<and> grammar inputs (length ls - Suc a) r \<and> (t = mk_add l r \<or> t = mk_sub l r)))" (is "?L \<longleftrightarrow> ?R")
      proof
        assume ?L
        then obtain a b l r where "length ls = Suc (a + b)" "grammar inputs a l" "grammar inputs b r" "t = mk_add l r \<or> t = mk_sub l r"
          by blast
        with grammar_pos [of inputs a l] grammar_pos [of inputs b r] show ?R by (intro exI [of _ a]) auto
      next
        assume ?R
        then obtain a l r where a: "0 < a" "Suc a < length ls" "grammar inputs a l" "grammar inputs (length ls - Suc a) r"
          "t = mk_add l r \<or> t = mk_sub l r" by blast
        then have "length ls = Suc (a + (length ls - Suc a))" by simp
        with a show ?L by blast
      qed
      also have "\<dots> \<longleftrightarrow> t \<in> splits_into ls (length ls) {a. 0 < a \<and> Suc a < length ls}"
        unfolding splits_into_def by (simp add: s cong: conj_cong)
      finally show ?thesis by simp
    qed
    then show ?thesis using new_level_sets [of ls] assms by (auto simp: levels_ok_def)
  qed
  with assms new_level_sets [of ls] show ?thesis by (auto simp: levels_ok_def nth_append less_Suc_eq)
qed

text \<open>Level \<open>n\<close> of the enumerator over \<open>inputs\<close>.\<close>

definition level :: "zexpr list \<Rightarrow> nat \<Rightarrow> zexpr list" where
  "level inputs n = ensure_size n (en_by_size (mk_enumerator inputs)) ! n"

text \<open>A table of levels that grew from the first two.\<close>

inductive grown :: "zexpr list \<Rightarrow> zexpr list list \<Rightarrow> bool" for inputs where
  grown_init: "grown inputs (en_by_size (mk_enumerator inputs))"
| grown_step: "grown inputs ls \<Longrightarrow> grown inputs (ls @ [new_level ls])"

lemma grown_ok: "grown inputs ls \<Longrightarrow> levels_ok inputs ls"
  by (induction rule: grown.induct) (rule levels_ok_init, rule levels_ok_step)

lemma ensure_size_grown:
  "grown inputs ls \<Longrightarrow> grown inputs (ensure_size n ls) \<and> n < length (ensure_size n ls) \<and> (\<exists>ms. ensure_size n ls = ls @ ms)"
proof (induction n ls rule: ensure_size.induct)
  case (1 n ls)
  show ?case
  proof (cases "length ls \<le> n")
    case True
    with 1 have "grown inputs (ensure_size n (ls @ [new_level ls])) \<and> n < length (ensure_size n (ls @ [new_level ls])) \<and>
        (\<exists>ms. ensure_size n (ls @ [new_level ls]) = (ls @ [new_level ls]) @ ms)"
      by (intro 1(1) grown_step)
    with True show ?thesis by (subst (1 2 3) ensure_size.simps) auto
  next
    case False
    with 1(2) show ?thesis by (subst (1 2 3) ensure_size.simps) auto
  qed
qed

text \<open>Two tables of the same length are the same.\<close>

lemma grown_length: "grown inputs ls \<Longrightarrow> 2 \<le> length ls"
  using grown_ok by (auto simp: levels_ok_def)

lemma grown_unique: "grown inputs ls \<Longrightarrow> grown inputs ms \<Longrightarrow> length ls = length ms \<Longrightarrow> ls = ms"
proof (induction arbitrary: ms rule: grown.induct)
  case grown_init
  from grown_init(1) show ?case
  proof cases
    case (grown_step ns)
    with grown_length [of inputs ns] grown_init(2) show ?thesis by (simp add: mk_enumerator_def Let_def)
  qed simp
next
  case (grown_step ls)
  from grown_step.prems(1) show ?case
  proof cases
    case grown_init
    with grown_length [OF grown_step.hyps] grown_step.prems(2) show ?thesis by (simp add: mk_enumerator_def Let_def)
  next
    case (grown_step ns)
    with grown_step.IH [of ns] \<open>length (ls @ [new_level ls]) = length ms\<close> show ?thesis by simp
  qed
qed

lemma grown_prefix: "grown inputs ls \<Longrightarrow> 2 \<le> n \<Longrightarrow> n \<le> length ls \<Longrightarrow> grown inputs (take n ls)"
proof (induction rule: grown.induct)
  case grown_init
  then have "n = 2" by (simp add: mk_enumerator_def Let_def)
  then show ?case using grown.grown_init [of inputs] by (simp add: mk_enumerator_def Let_def)
next
  case (grown_step ls)
  then show ?case using grown.grown_step [OF grown_step.hyps] by (cases "n \<le> length ls") auto
qed

lemma grown_level:
  assumes "grown inputs ls" "n < length ls"
  shows "ls ! n = level inputs n"
proof -
  let ?ms = "ensure_size n (en_by_size (mk_enumerator inputs))"
  have ms: "grown inputs ?ms" "n < length ?ms" using ensure_size_grown [OF grown_init] by blast+
  let ?k = "max 2 (Suc n)"
  have l: "?k \<le> length ls" "?k \<le> length ?ms" using assms ms grown_length [OF assms(1)] grown_length [OF ms(1)] by auto
  have "take ?k ls = take ?k ?ms"
    using l by (intro grown_unique [OF grown_prefix [OF assms(1)] grown_prefix [OF ms(1)]]) auto
  then have "take ?k ls ! n = take ?k ?ms ! n" by simp
  then show ?thesis by (simp add: level_def)
qed

lemma level_set: "set (level inputs n) = {t. grammar inputs n t}" "distinct (level inputs n)"
proof -
  let ?ms = "ensure_size n (en_by_size (mk_enumerator inputs))"
  have "grown inputs ?ms" "n < length ?ms" using ensure_size_grown [OF grown_init] by blast+
  then show "set (level inputs n) = {t. grammar inputs n t}" "distinct (level inputs n)"
    using grown_ok [of inputs ?ms] by (auto simp: levels_ok_def level_def)
qed

section \<open>The order of the candidates\<close>

definition en_inv :: "zexpr list \<Rightarrow> enumerator \<Rightarrow> bool" where
  "en_inv inputs en \<longleftrightarrow> grown inputs (en_by_size en) \<and> odd (en_current_size en)"

lemma en_inv_init: "en_inv inputs (mk_enumerator inputs)"
  using grown_init by (simp add: en_inv_def mk_enumerator_def Let_def)

lemma level_even: "even n \<Longrightarrow> level inputs n = []"
  using level_set(1) [of inputs n] grammar_odd [of inputs n] by (metis all_not_in_conv mem_Collect_eq set_empty)

lemma level_odd: "odd n \<Longrightarrow> level inputs n \<noteq> []"
proof -
  assume "odd n"
  then obtain k where "n = 2 * k + 1" by (rule oddE)
  with grammar_exists [of inputs k] level_set(1) [of inputs n] show ?thesis by auto
qed

lemma next_rounds_step:
  assumes "grown inputs (en_by_size en)"
  defines "ls \<equiv> ensure_size (en_current_size en) (en_by_size en)"
  shows "next_rounds (Suc n) en =
    (if en_current_index en < length (level inputs (en_current_size en))
     then Some (\<lparr>ca_size = en_current_size en, ca_term = level inputs (en_current_size en) ! en_current_index en\<rparr>,
                en\<lparr>en_by_size := ls, en_current_index := Suc (en_current_index en)\<rparr>)
     else next_rounds n (en\<lparr>en_by_size := ls, en_current_size := Suc (en_current_size en), en_current_index := 0\<rparr>))"
  and "grown inputs ls"
proof -
  have "ls ! en_current_size en = level inputs (en_current_size en)"
    using ensure_size_grown [OF assms(1)] unfolding ls_def by (intro grown_level) blast+
  then show "next_rounds (Suc n) en =
    (if en_current_index en < length (level inputs (en_current_size en))
     then Some (\<lparr>ca_size = en_current_size en, ca_term = level inputs (en_current_size en) ! en_current_index en\<rparr>,
                en\<lparr>en_by_size := ls, en_current_index := Suc (en_current_index en)\<rparr>)
     else next_rounds n (en\<lparr>en_by_size := ls, en_current_size := Suc (en_current_size en), en_current_index := 0\<rparr>))"
    unfolding ls_def by (simp add: Let_def)
  show "grown inputs ls" using ensure_size_grown [OF assms(1)] unfolding ls_def by blast
qed

lemma next_candidate_here:
  assumes "en_inv inputs en" "en_current_index en < length (level inputs (en_current_size en))"
  shows "\<exists>en'. next_candidate en = Some (\<lparr>ca_size = en_current_size en, ca_term = level inputs (en_current_size en) ! en_current_index en\<rparr>, en') \<and>
    en_inv inputs en' \<and> en_current_size en' = en_current_size en \<and> en_current_index en' = Suc (en_current_index en)"
  using next_rounds_step(1) [of inputs en 2] next_rounds_step(2) [of inputs en] assms by (auto simp: next_candidate_def en_inv_def numeral_3_eq_3)

lemma next_candidate_later:
  assumes "en_inv inputs en" "length (level inputs (en_current_size en)) \<le> en_current_index en"
  shows "\<exists>en'. next_candidate en = Some (\<lparr>ca_size = en_current_size en + 2, ca_term = level inputs (en_current_size en + 2) ! 0\<rparr>, en') \<and>
    en_inv inputs en' \<and> en_current_size en' = en_current_size en + 2 \<and> en_current_index en' = 1"
proof -
  let ?ls = "ensure_size (en_current_size en) (en_by_size en)"
  let ?en1 = "en\<lparr>en_by_size := ?ls, en_current_size := Suc (en_current_size en), en_current_index := 0\<rparr>"
  let ?ms = "ensure_size (Suc (en_current_size en)) ?ls"
  let ?en2 = "?en1\<lparr>en_by_size := ?ms, en_current_size := Suc (Suc (en_current_size en)), en_current_index := 0\<rparr>"
  have g: "grown inputs (en_by_size en)" "odd (en_current_size en)" using assms(1) by (auto simp: en_inv_def)
  have g1: "grown inputs (en_by_size ?en1)" using next_rounds_step(2) [OF g(1)] by simp
  have g2: "grown inputs (en_by_size ?en2)" using next_rounds_step(2) [OF g1] by simp
  have e: "level inputs (Suc (en_current_size en)) = []" using g(2) by (intro level_even) simp
  have "next_candidate en = next_rounds (Suc (Suc 0)) ?en1"
    using next_rounds_step(1) [OF g(1), of "Suc (Suc 0)"] assms(2)
    by (simp add: next_candidate_def numeral_3_eq_3 del: next_rounds.simps)
  also have "\<dots> = next_rounds (Suc 0) ?en2"
    using next_rounds_step(1) [OF g1, of "Suc 0"] e by (simp del: next_rounds.simps)
  finally have "next_candidate en = next_rounds (Suc 0) ?en2" .
  with next_rounds_step(1) [OF g2, of 0] next_rounds_step(2) [OF g2] level_odd [of "en_current_size en + 2" inputs] g(2) show ?thesis
    by (auto simp: en_inv_def)
qed

text \<open>The first \<open>k\<close> candidates, with the enumerator after them.\<close>

primrec draw :: "nat \<Rightarrow> enumerator \<Rightarrow> ((nat \<times> zexpr) list \<times> enumerator) option" where
  "draw 0 en = Some ([], en)"
| "draw (Suc k) en =
     (case next_candidate en of
        None \<Rightarrow> None
      | Some (c, en) \<Rightarrow> map_option (\<lambda>(cs, en). ((ca_size c, ca_term c) # cs, en)) (draw k en))"

text \<open>Every grammar term of size below \<open>n\<close>, in the order of the enumeration.\<close>

definition ordered :: "zexpr list \<Rightarrow> nat \<Rightarrow> (nat \<times> zexpr) list" where
  "ordered inputs n = concat (map (\<lambda>k. map (Pair k) (level inputs k)) [0..<n])"

lemma ordered_Suc: "ordered inputs (Suc n) = ordered inputs n @ map (Pair n) (level inputs n)"
  by (simp add: ordered_def)

lemma ordered_extends: "m \<le> n \<Longrightarrow> \<exists>rest. ordered inputs n = ordered inputs m @ rest"
  by (induction n rule: dec_induct) (auto simp: ordered_Suc)

lemma ordered_nth:
  assumes "length (ordered inputs k) + i < length (ordered inputs n)" "i < length (level inputs k)"
  shows "ordered inputs n ! (length (ordered inputs k) + i) = (k, level inputs k ! i)"
proof (cases "k < n")
  case True
  then obtain rest where "ordered inputs n = ordered inputs (Suc k) @ rest"
    using ordered_extends [of "Suc k" n inputs] by auto
  with assms(2) show ?thesis by (simp add: ordered_Suc nth_append)
next
  case False
  then obtain rest where "ordered inputs k = ordered inputs n @ rest"
    using ordered_extends [of n k inputs] by auto
  with assms(1) show ?thesis by simp
qed

lemma set_ordered: "set (ordered inputs n) = {(k, t). k < n \<and> grammar inputs k t}"
  by (auto simp: ordered_def level_set(1))

lemma distinct_ordered: "distinct (ordered inputs n)"
  by (induction n) (auto simp: ordered_Suc set_ordered distinct_map level_set(2) inj_on_def, simp add: ordered_def)

lemma sorted_ordered: "sorted (map fst (ordered inputs n))"
  by (induction n) (auto simp: ordered_Suc sorted_append set_ordered sorted_replicate map_replicate_const comp_def dest: less_imp_le, simp add: ordered_def)

definition en_position :: "zexpr list \<Rightarrow> enumerator \<Rightarrow> nat" where
  "en_position inputs en = length (ordered inputs (en_current_size en)) + en_current_index en"

definition en_ready :: "zexpr list \<Rightarrow> enumerator \<Rightarrow> bool" where
  "en_ready inputs en \<longleftrightarrow> en_inv inputs en \<and> en_current_index en \<le> length (level inputs (en_current_size en))"

lemma next_candidate_position:
  assumes "en_ready inputs en"
  shows "\<exists>c en'. next_candidate en = Some (c, en') \<and> en_ready inputs en' \<and> en_position inputs en' = Suc (en_position inputs en) \<and>
    (\<forall>n. en_position inputs en < length (ordered inputs n) \<longrightarrow> ordered inputs n ! en_position inputs en = (ca_size c, ca_term c))"
proof (cases "en_current_index en < length (level inputs (en_current_size en))")
  case True
  with next_candidate_here [of inputs en] assms show ?thesis
    by (auto simp: en_ready_def en_position_def ordered_nth)
next
  case False
  let ?k = "en_current_size en + 2"
  from False assms have inv: "en_inv inputs en" and i: "en_current_index en = length (level inputs (en_current_size en))"
    by (auto simp: en_ready_def)
  then have o: "odd (en_current_size en)" by (simp add: en_inv_def)
  then have ne: "level inputs ?k \<noteq> []" by (intro level_odd) simp
  have p: "en_position inputs en = length (ordered inputs ?k)"
    using i o by (simp add: en_position_def ordered_Suc level_even)
  obtain en' where "next_candidate en = Some (\<lparr>ca_size = ?k, ca_term = level inputs ?k ! 0\<rparr>, en')"
      "en_inv inputs en'" "en_current_size en' = ?k" "en_current_index en' = 1"
    using next_candidate_later [OF inv] i by auto
  then show ?thesis
    using ordered_nth [of inputs ?k 0] ne p by (auto simp: en_ready_def Suc_le_eq en_position_def [of inputs en'])
qed

lemma draw_ordered:
  "en_ready inputs en \<Longrightarrow> \<exists>cs en'. draw k en = Some (cs, en') \<and> length cs = k \<and>
    (\<forall>j<k. \<forall>n. en_position inputs en + j < length (ordered inputs n) \<longrightarrow> cs ! j = ordered inputs n ! (en_position inputs en + j))"
proof (induction k arbitrary: en)
  case (Suc k)
  obtain c en1 where c: "next_candidate en = Some (c, en1)" "en_ready inputs en1" "en_position inputs en1 = Suc (en_position inputs en)"
      "\<And>n. en_position inputs en < length (ordered inputs n) \<Longrightarrow> ordered inputs n ! en_position inputs en = (ca_size c, ca_term c)"
    using next_candidate_position [OF Suc.prems] by blast
  obtain cs en2 where cs: "draw k en1 = Some (cs, en2)" "length cs = k"
      "\<And>j n. j < k \<Longrightarrow> Suc (en_position inputs en) + j < length (ordered inputs n) \<Longrightarrow>
         cs ! j = ordered inputs n ! (Suc (en_position inputs en) + j)"
    using Suc.IH [OF c(2)] c(3) by auto
  have "((ca_size c, ca_term c) # cs) ! j = ordered inputs n ! (en_position inputs en + j)"
    if "j < Suc k" "en_position inputs en + j < length (ordered inputs n)" for j n
    using that c(4) [of n] cs(3) [of "j - 1" n] by (cases j) auto
  with c(1) cs(1,2) show ?case by auto
qed simp

lemma en_ready_init: "en_ready inputs (mk_enumerator inputs)" "en_position inputs (mk_enumerator inputs) = 0"
  using en_inv_init [of inputs]
  by (simp_all add: en_ready_def en_position_def mk_enumerator_def Let_def ordered_def level_even)

lemma draw_prefix:
  assumes "k \<le> length (ordered inputs n)"
  shows "\<exists>en. draw k (mk_enumerator inputs) = Some (take k (ordered inputs n), en)"
proof -
  obtain cs en where "draw k (mk_enumerator inputs) = Some (cs, en)" "length cs = k"
      "\<forall>j<k. \<forall>n. j < length (ordered inputs n) \<longrightarrow> cs ! j = ordered inputs n ! j"
    using draw_ordered [OF en_ready_init(1) [of inputs], of k] en_ready_init(2) [of inputs] by auto
  moreover from this assms have "cs = take k (ordered inputs n)" by (intro nth_equalityI) auto
  ultimately show ?thesis by (intro exI [of _ en]) simp
qed

lemma ordered_long: "k \<le> length (ordered inputs (2 * k))"
proof (induction k)
  case (Suc k)
  have "level inputs (Suc (2 * k)) \<noteq> []" by (rule level_odd) simp
  then have "1 \<le> length (level inputs (Suc (2 * k)))" by (cases "level inputs (Suc (2 * k))") auto
  moreover have "ordered inputs (2 * Suc k) = ordered inputs (2 * k) @ map (Pair (2 * k)) (level inputs (2 * k)) @
      map (Pair (Suc (2 * k))) (level inputs (Suc (2 * k)))"
    by (simp add: ordered_Suc)
  ultimately show ?case using Suc.IH by (simp only: length_append length_map)
qed simp

text \<open>
  C26 - the enumerator never runs out. The first \<open>k\<close> calls of \<open>next\<close> return \<open>k\<close> candidates, each a term of
  the grammar at its reported size, no candidate twice, and in order of size.
\<close>

theorem enumerator_sound:
  "\<exists>cs en. draw k (mk_enumerator inputs) = Some (cs, en) \<and> length cs = k \<and> distinct cs \<and> sorted (map fst cs) \<and>
     set cs \<subseteq> {(n, t). grammar inputs n t}"
proof -
  let ?o = "ordered inputs (2 * k)"
  obtain en where "draw k (mk_enumerator inputs) = Some (take k ?o, en)"
    using draw_prefix [OF ordered_long] by blast
  moreover have "set (take k ?o) \<subseteq> {(n, t). grammar inputs n t}"
    using set_ordered [of inputs "2 * k"] set_take_subset [of k ?o] by auto
  ultimately show ?thesis
    using ordered_long [of k inputs] distinct_ordered sorted_ordered
    by (auto simp: take_map [symmetric] intro!: exI sorted_wrt_take)
qed

text \<open>
  C27 - the enumerator is fair. Every term of the grammar is returned, with its size, after finitely many
  calls of \<open>next\<close>, and before any larger term.
\<close>

theorem enumerator_complete:
  assumes "grammar inputs n t"
  shows "\<exists>k cs en. draw k (mk_enumerator inputs) = Some (cs, en) \<and> (n, t) \<in> set cs \<and> (\<forall>(m, _) \<in> set cs. m \<le> n)"
proof -
  let ?o = "ordered inputs (Suc n)"
  obtain en where "draw (length ?o) (mk_enumerator inputs) = Some (?o, en)"
    using draw_prefix [of "length ?o" inputs "Suc n"] by auto
  then show ?thesis using assms by (force simp: set_ordered)
qed

theorem enumerator_complete_witness:
  "grammar [] 3 (mk_add (int_val ''0'') (int_val ''1'')) \<and>
   (\<exists>k cs en. draw k (mk_enumerator []) = Some (cs, en) \<and> (3, mk_add (int_val ''0'') (int_val ''1'')) \<in> set cs)"
proof -
  have "grammar [] 3 (mk_add (int_val ''0'') (int_val ''1''))"
    using grammar_add [OF grammar_zero grammar_one] by (simp add: numeral_3_eq_3)
  from this enumerator_complete [OF this] show ?thesis by blast
qed

end
