(* ===== verification/Fine_Runtime.thy ===== *)
theory Fine_Runtime
  imports Rainfall_Observers Fine_Synthesis Fine_Print Fine_Decl_Parser
begin

text \<open>
  The state of the runtime (\<^verbatim>\<open>src/src/fine/runtime_internal.h\<close>), and of \<^verbatim>\<open>src/src/fine/runtime.cpp\<close> the
  declaration of source nodes, names, enumerations and datatypes, the resolution of types, and the
  elaboration of expressions.  A \<^verbatim>\<open>TypePtr\<close> is an index into the list of the types created so far, so that
  comparing two of them is comparing the pointers.  A pointer to an \<^verbatim>\<open>EnumInfo\<close> or a \<^verbatim>\<open>DatatypeInfo\<close> is
  the key under which the runtime owns it.  The maps are association lists that keep the first entry of a
  key, as \<^verbatim>\<open>std::map::emplace\<close> does.
\<close>

section \<open>State\<close>

datatype rt_kind = rk_boolean | rk_integer | rk_enumeration | rk_datatype | rk_tuple | rk_table

type_synonym type_ptr = nat

record runtime_type =
  rt_kind :: rt_kind
  rt_sort :: zsort
  rt_display :: string
  rt_arguments :: "type_ptr list"
  rt_enumeration :: "string option"
  rt_datatype :: "string option"
  rt_tuple_constructor :: "zdecl option"

record enum_info =
  ei_name :: string
  ei_type :: type_ptr
  ei_case_names :: "string list"
  ei_constructors :: "zdecl list"
  ei_values :: "zexpr list"

record datatype_case_info =
  dc_name :: string
  dc_field_names :: "string list"
  dc_field_types :: "type_ptr list"
  dc_constructor :: zdecl
  dc_recognizer :: zdecl
  dc_accessors :: "zdecl list"

record datatype_info =
  di_name :: string
  di_type :: type_ptr
  di_cases :: "datatype_case_info list"

record function_info =
  fi_name :: string
  fi_parameter_types :: "type_ptr list"
  fi_result_type :: type_ptr
  fi_declaration :: zdecl

record arbitrary_field =
  af_binder :: string
  af_view_name :: string
  af_binder_term :: zexpr
  af_requirement :: zexpr
  af_premise_terms :: "zexpr list"
  af_recursive_premise_indices :: "zexpr list list"
  af_availability_witness :: "zexpr option"

record predicate_constructor_info =
  pci_name :: string
  pci_parameters :: "zexpr list"
  pci_result_indices :: "zexpr list"
  pci_premise_terms :: "zexpr list"
  pci_recursive_premise_indices :: "zexpr list list"
  pci_arbitrary_fields :: "arbitrary_field list"
  pci_premise_count :: nat

record predicate_info =
  pri_name :: string
  pri_index_types :: "type_ptr list"
  pri_relation :: zdecl
  pri_constructors :: "predicate_constructor_info list"
  pri_horn_complete :: bool

record view_info =
  vi_name :: string
  vi_parameter_names :: "string list"
  vi_parameter_types :: "type_ptr list"
  vi_carrier :: type_ptr
  vi_requirements :: "expr list"
  vi_witness :: "expr option"

record table_binding =
  bi_type :: type_ptr
  bi_value :: zexpr
  bi_is_model :: bool
  bi_span :: source_span

type_synonym typed_expression = "type_ptr \<times> zexpr"
type_synonym environment = "(string \<times> typed_expression) list"

text \<open>The last three fields stand for what the Z3 context keeps: the recursive definitions, and the relations
  and rules of the fixedpoint engine.\<close>

record runtime = rain_state +
  ru_output :: string
  ru_heap :: "runtime_type list"
  ru_types :: "(string \<times> type_ptr) list"
  ru_enums :: "(string \<times> enum_info) list"
  ru_cases :: "(string \<times> (string \<times> nat)) list"
  ru_datatypes :: "(string \<times> datatype_info) list"
  ru_constructors :: "(string \<times> (string \<times> nat)) list"
  ru_functions :: "(string \<times> function_info) list"
  ru_views :: "(string \<times> view_info) list"
  ru_predicates :: "(string \<times> predicate_info) list"
  ru_bindings :: "(string \<times> table_binding) list"
  ru_admitted_proofs :: "(string \<times> zexpr) list"
  ru_compound_types :: "(string \<times> type_ptr) list"
  ru_value_names :: "string list"
  ru_tuple_sequence :: nat
  ru_capture_source_edges :: bool
  ru_source_edge_within :: "string list"
  ru_recdefs :: "(zdecl \<times> zexpr list \<times> zexpr) list"
  ru_relations :: "zdecl list"
  ru_rules :: "(zexpr \<times> string) list"

type_synonym 'a run = "(runtime, fine_error, 'a) action"

definition reject :: "source_span \<Rightarrow> string \<Rightarrow> 'a run" where
  "reject span message = throwA (SemanticError span message)"

definition check_that :: "bool \<Rightarrow> source_span \<Rightarrow> string \<Rightarrow> unit run" where
  "check_that b span message = guardA b (SemanticError span message)"

definition emplace :: "'k \<Rightarrow> 'v \<Rightarrow> ('k \<times> 'v) list \<Rightarrow> ('k \<times> 'v) list" where
  "emplace k v m = (case map_of m k of None \<Rightarrow> (k, v) # m | Some _ \<Rightarrow> m)"

definition bool_type :: type_ptr where
  "bool_type = 0"

definition int_type :: type_ptr where
  "int_type = 1"

definition plain_type :: "rt_kind \<Rightarrow> zsort \<Rightarrow> string \<Rightarrow> runtime_type" where
  "plain_type kind s display =
     \<lparr>rt_kind = kind, rt_sort = s, rt_display = display, rt_arguments = [], rt_enumeration = None,
      rt_datatype = None, rt_tuple_constructor = None\<rparr>"

text \<open>\<open>random\<close> is what the random device returns, should the recorder have to name its run.\<close>

definition new_runtime :: "bool \<Rightarrow> nat list \<Rightarrow> string \<Rightarrow> source_snapshot option \<Rightarrow> runtime" where
  "new_runtime rainfall_output random rainfall_run snapshot =
     \<lparr>st_rainfall = (if rainfall_output then Some (new_recorder random rainfall_run snapshot) else None), st_queries = 0,
      ru_output = [], ru_heap = [plain_type rk_boolean SBool ''Bool'', plain_type rk_integer SInt ''Int''],
      ru_types = [(''Bool'', bool_type), (''Int'', int_type)], ru_enums = [], ru_cases = [], ru_datatypes = [],
      ru_constructors = [], ru_functions = [], ru_views = [], ru_predicates = [], ru_bindings = [],
      ru_admitted_proofs = [], ru_compound_types = [], ru_value_names = [], ru_tuple_sequence = 0,
      ru_capture_source_edges = False, ru_source_edge_within = [], ru_recdefs = [], ru_relations = [], ru_rules = []\<rparr>"

definition type_at :: "type_ptr \<Rightarrow> runtime_type run" where
  "type_at p = getA (\<lambda>s. ru_heap s ! p)"

definition new_type :: "runtime_type \<Rightarrow> type_ptr run" where
  "new_type t = bindA (getA (\<lambda>s. length (ru_heap s))) (\<lambda>p.
     thenA (modifyA (\<lambda>s. s\<lparr>ru_heap := ru_heap s @ [t]\<rparr>)) (retA p))"

definition print :: "string \<Rightarrow> unit run" where
  "print t = modifyA (\<lambda>s. s\<lparr>ru_output := ru_output s @ t\<rparr>)"

text \<open>A datatype sort is created by Z3, which refuses some, e.g. one without finite values.\<close>

definition new_datatype :: "z3_world \<Rightarrow> string \<Rightarrow> (string \<times> (string \<times> zsort) list) list \<Rightarrow> unit run" where
  "new_datatype w name cases =
     (case w_datatype_error w name cases of None \<Rightarrow> retA () | Some message \<Rightarrow> throwA (Z3Failure message))"

section \<open>Source nodes\<close>

primrec syntax_kind_text :: "expr_kind \<Rightarrow> string" where
  "syntax_kind_text ek_name = ''expr.name''"
| "syntax_kind_text ek_boolean = ''expr.boolean''"
| "syntax_kind_text ek_integer = ''expr.integer''"
| "syntax_kind_text ek_tuple = ''expr.tuple''"
| "syntax_kind_text ek_call = ''expr.call''"
| "syntax_kind_text ek_binary = ''expr.binary''"
| "syntax_kind_text ek_conditional = ''expr.conditional''"
| "syntax_kind_text ek_hole = ''expr.hole''"

definition expression_syntax_kind :: "expr \<Rightarrow> string" where
  "expression_syntax_kind e = syntax_kind_text (ex_kind e)"

primrec correspondence_text :: "expr_kind \<Rightarrow> string" where
  "correspondence_text ek_name = ''exact''"
| "correspondence_text ek_boolean = ''exact''"
| "correspondence_text ek_integer = ''exact''"
| "correspondence_text ek_tuple = ''desugared''"
| "correspondence_text ek_call = ''desugared''"
| "correspondence_text ek_binary = ''desugared''"
| "correspondence_text ek_conditional = ''desugared''"
| "correspondence_text ek_hole = ''generated''"

definition expression_correspondence :: "expr \<Rightarrow> string" where
  "expression_correspondence e = correspondence_text (ex_kind e)"

definition completed_expression :: "z3_world \<Rightarrow> expr \<Rightarrow> type_ptr \<Rightarrow> zexpr \<Rightarrow> typed_expression run" where
  "completed_expression w source type e =
     bindA (getA (\<lambda>s. (ru_capture_source_edges s, ru_source_edge_within s))) (\<lambda>(capture, within).
     thenA (whenA capture
       (rain () (source_term w (ex_node_id source) (ex_span source) (expression_syntax_kind source) e
          (expression_correspondence source) within)))
     (retA (type, e)))"

fun declare_expression_sources :: "expr \<Rightarrow> unit recording" where
  "declare_expression_sources (Expr k sp nm b it bop es i) =
     thenA (source_node i sp (syntax_kind_text k)) (forA es declare_expression_sources)"

definition declare_table_sources :: "table_literal \<Rightarrow> unit recording" where
  "declare_table_sources table =
     thenA (declare_expression_sources (tl_default_value table))
     (forA (tl_entries table) (\<lambda>entry.
        thenA (declare_expression_sources (te_key entry)) (declare_expression_sources (te_value entry))))"

definition declare_constructor_sources :: "predicate_constructor \<Rightarrow> unit recording" where
  "declare_constructor_sources c =
     thenA (forA (pc_premises c) declare_expression_sources)
     (thenA (forA (pc_arbitrary_premises c) (\<lambda>field.
        thenA (source_node (ap_node_id field) (ap_span field) ''predicate.arbitrary-field'')
        (thenA (forA (ap_view_arguments field) declare_expression_sources)
        (forA (ap_premises field) declare_expression_sources))))
     (declare_expression_sources (pc_result c)))"

definition declare_optional_source :: "expr option \<Rightarrow> unit recording" where
  "declare_optional_source e = (case e of None \<Rightarrow> retA () | Some e \<Rightarrow> declare_expression_sources e)"

text \<open>The node of a declaration, and then the nodes below it.\<close>

primrec declare_declaration_sources :: "fine_declaration \<Rightarrow> unit recording" where
  "declare_declaration_sources (EnumDecl d) = thenA (source_node (ed_node_id d) (ed_span d) ''decl.enum'') (retA ())"
| "declare_declaration_sources (LetDecl d) =
     thenA (source_node (ld_node_id d) (ld_span d) ''decl.let'') (declare_table_sources (ld_value d))"
| "declare_declaration_sources (ModelDecl d) =
     thenA (source_node (md_node_id d) (md_span d) ''decl.model'')
     (case md_value d of None \<Rightarrow> retA () | Some t \<Rightarrow> declare_table_sources t)"
| "declare_declaration_sources (SolveDecl d) =
     thenA (source_node (sd_node_id d) (sd_span d) ''decl.solve'')
     (thenA (forA (sd_takes d) (\<lambda>a. declare_expression_sources (na_value a))) (declare_expression_sources (sd_gives d)))"
| "declare_declaration_sources (ViewDecl d) =
     thenA (source_node (vd_node_id d) (vd_span d) ''decl.view'')
     (thenA (forA (vd_requirements d) declare_expression_sources) (declare_optional_source (vd_witness d)))"
| "declare_declaration_sources (PredicateDecl d) =
     thenA (source_node (pd_node_id d) (pd_span d) ''decl.predicate'')
     (forA (pd_constructors d) declare_constructor_sources)"
| "declare_declaration_sources (FunctionDecl d) =
     thenA (source_node (fd_node_id d) (fd_span d) ''decl.function'')
     (thenA (declare_expression_sources (fd_scrutinee d)) (forA (fd_arms d) (\<lambda>a. declare_expression_sources (ma_value a))))"
| "declare_declaration_sources (SynthDecl d) =
     thenA (source_node (yd_node_id d) (yd_span d) ''decl.synth'')
     (thenA (declare_optional_source (yd_scrutinee d))
     (thenA (forA (yd_arms d) (\<lambda>a. declare_expression_sources (ma_value a)))
     (forA (yd_ensures d) declare_expression_sources)))"
| "declare_declaration_sources (CheckDecl d) =
     thenA (source_node (cd_node_id d) (cd_span d) (if cd_reusable d then ''decl.proof'' else ''decl.check''))
     (thenA (declare_optional_source (cd_predicate_induction d))
     (thenA (forA (cd_assumes d) declare_expression_sources) (forA (cd_ensures d) declare_expression_sources)))"
| "declare_declaration_sources (CounterexampleDecl d) =
     thenA (source_node (xd_node_id d) (xd_span d) ''decl.counterexample'')
     (forA (xd_entries d) (\<lambda>x. declare_expression_sources (ce_value x)))"

definition declare_document_sources :: "document \<Rightarrow> unit run" where
  "declare_document_sources doc = rain () (forA (doc_declarations doc) declare_declaration_sources)"

end
