(* ===== verification/Fine_Elaboration.thy ===== *)
theory Fine_Elaboration
  imports Fine_Runtime
begin

text \<open>
  Elaboration in \<^verbatim>\<open>src/src/fine/runtime.cpp\<close>: the names and types that declarations introduce, the
  resolution of the types of the source, and the translation of expressions to Z3 terms.
\<close>

section \<open>Names\<close>

definition reserve_type_name :: "string \<Rightarrow> source_span \<Rightarrow> unit run" where
  "reserve_type_name name span =
     bindA (getA (\<lambda>s. map_of (ru_types s) name)) (\<lambda>found.
     check_that (found = None) span (''type `'' @ name @ ''` is already declared''))"

definition reserve_value_name :: "string \<Rightarrow> source_span \<Rightarrow> unit run" where
  "reserve_value_name name span =
     bindA (getA ru_value_names) (\<lambda>names.
     thenA (check_that (name \<notin> set names) span (''value `'' @ name @ ''` is already declared''))
     (modifyA (\<lambda>s. s\<lparr>ru_value_names := name # names\<rparr>)))"

section \<open>Types\<close>

definition tuple_type :: "z3_world \<Rightarrow> type_ptr \<Rightarrow> type_ptr \<Rightarrow> source_span \<Rightarrow> type_ptr run" where
  "tuple_type w first second span =
     bindA (type_at first) (\<lambda>t1. bindA (type_at second) (\<lambda>t2.
     thenA (check_that (rt_kind t1 \<noteq> rk_table \<and> rt_kind t2 \<noteq> rk_table) span
              ''table values cannot be tuple components in Fine v1'')
     (let key = ''('' @ rt_display t1 @ '', '' @ rt_display t2 @ '')'' in
      bindA (getA (\<lambda>s. (map_of (ru_compound_types s) key, ru_tuple_sequence s))) (\<lambda>(found, sequence).
      case found of
        Some p \<Rightarrow> retA p
      | None \<Rightarrow>
        let z3_name = ''Fine.Pair.'' @ nat_to_string sequence;
            constructor = ZDecl z3_name Constructor [rt_sort t1, rt_sort t2] (SDatatype z3_name) in
        thenA (modifyA (\<lambda>s. s\<lparr>ru_tuple_sequence := Suc sequence mod 2 ^ 32\<rparr>))
        (thenA (new_datatype w z3_name [(z3_name, [(''first'', rt_sort t1), (''second'', rt_sort t2)])])
        (bindA (new_type ((plain_type rk_tuple (SDatatype z3_name) key)
                  \<lparr>rt_arguments := [first, second], rt_tuple_constructor := Some constructor\<rparr>)) (\<lambda>p.
        thenA (modifyA (\<lambda>s. s\<lparr>ru_compound_types := emplace key p (ru_compound_types s)\<rparr>)) (retA p))))))))"

definition table_type :: "type_ptr \<Rightarrow> type_ptr \<Rightarrow> source_span \<Rightarrow> type_ptr run" where
  "table_type first second span =
     bindA (type_at first) (\<lambda>t1. bindA (type_at second) (\<lambda>t2.
     thenA (check_that (rt_kind t1 \<noteq> rk_table \<and> rt_kind t2 \<noteq> rk_table) span ''nested tables are outside Fine v1'')
     (let key = ''Table('' @ rt_display t1 @ '', '' @ rt_display t2 @ '')'' in
      bindA (getA (\<lambda>s. map_of (ru_compound_types s) key)) (\<lambda>found.
      case found of
        Some p \<Rightarrow> retA p
      | None \<Rightarrow>
        bindA (new_type ((plain_type rk_table (SArray (rt_sort t1) (rt_sort t2)) key)\<lparr>rt_arguments := [first, second]\<rparr>)) (\<lambda>p.
        thenA (modifyA (\<lambda>s. s\<lparr>ru_compound_types := emplace key p (ru_compound_types s)\<rparr>)) (retA p))))))"

fun resolve_type :: "z3_world \<Rightarrow> fine_type \<Rightarrow> type_ptr run" where
  "resolve_type w (Type k sp nm args) =
     (if k = ty_named
      then bindA (getA (\<lambda>s. map_of (ru_types s) nm)) (\<lambda>found.
           case found of None \<Rightarrow> reject sp (''unknown type `'' @ nm @ ''`'') | Some p \<Rightarrow> retA p)
      else case args of
        [a, b] \<Rightarrow>
          bindA (resolve_type w a) (\<lambda>first. bindA (resolve_type w b) (\<lambda>second.
          if k = ty_tuple then tuple_type w first second sp else table_type first second sp))
      | _ \<Rightarrow> reject sp ((if k = ty_tuple then ''tuple'' else ''Table'') @ '' requires exactly two type arguments''))"

section \<open>Enumerations and datatypes\<close>

definition check_fields :: "enum_case \<Rightarrow> unit run" where
  "check_fields c =
     thenA (foldA (\<lambda>seen field.
       thenA (check_that (ef_name field \<notin> set seen) (ef_span field)
                (''duplicate field `'' @ ef_name field @ ''` in constructor `'' @ ec_name c @ ''`''))
       (retA (ef_name field # seen))) [] (ec_fields c)) (retA ())"

definition reserve_cases :: "enum_decl \<Rightarrow> unit run" where
  "reserve_cases d =
     thenA (foldA (\<lambda>seen c.
       thenA (check_that (ec_name c \<notin> set seen) (ec_span c) (''duplicate enum case `'' @ ec_name c @ ''`''))
       (thenA (reserve_value_name (ec_name c) (ec_span c))
       (thenA (check_fields c) (retA (ec_name c # seen))))) [] (ed_cases d)) (retA ())"

text \<open>A field of the declared type itself has no type yet: \<open>None\<close> stands for it.\<close>

definition resolve_field :: "z3_world \<Rightarrow> string \<Rightarrow> enum_field \<Rightarrow> type_ptr option run" where
  "resolve_field w name field =
     (if ty_kind (ef_type field) = ty_named \<and> ty_name (ef_type field) = name then retA None
      else
        bindA (resolve_type w (ef_type field)) (\<lambda>p. bindA (type_at p) (\<lambda>t.
        thenA (check_that (rt_kind t \<noteq> rk_table) (ty_span (ef_type field)) ''Table fields are outside Fine's first datatype slice'')
        (retA (Some p)))))"

definition field_sort :: "runtime_type list \<Rightarrow> string \<Rightarrow> type_ptr option \<Rightarrow> zsort" where
  "field_sort heap name p = (case p of None \<Rightarrow> SDatatype name | Some p \<Rightarrow> rt_sort (heap ! p))"

definition case_info :: "runtime_type list \<Rightarrow> string \<Rightarrow> type_ptr \<Rightarrow> enum_case \<Rightarrow> type_ptr option list \<Rightarrow> datatype_case_info" where
  "case_info heap name self c resolved =
     (let sorts = map (field_sort heap name) resolved in
      \<lparr>dc_name = ec_name c, dc_field_names = map ef_name (ec_fields c),
       dc_field_types = map (\<lambda>p. case p of None \<Rightarrow> self | Some p \<Rightarrow> p) resolved,
       dc_constructor = ZDecl (ec_name c) Constructor sorts (SDatatype name),
       dc_recognizer = ZDecl (''is_'' @ ec_name c) (Recognizer (ec_name c)) [SDatatype name] SBool,
       dc_accessors = map (\<lambda>(field, s). ZDecl (ef_name field) (Accessor (ec_name c)) [SDatatype name] s) (zip (ec_fields c) sorts)\<rparr>)"

definition declare_datatype :: "z3_world \<Rightarrow> enum_decl \<Rightarrow> unit run" where
  "declare_datatype w d =
     bindA (mapA (\<lambda>c. mapA (resolve_field w (ed_name d)) (ec_fields c)) (ed_cases d)) (\<lambda>resolved.
     bindA (getA ru_heap) (\<lambda>heap.
     thenA (new_datatype w (ed_name d)
       (map (\<lambda>(c, ps). (ec_name c, zip (map ef_name (ec_fields c)) (map (field_sort heap (ed_name d)) ps))) (zip (ed_cases d) resolved)))
     (bindA (new_type ((plain_type rk_datatype (SDatatype (ed_name d)) (ed_name d))\<lparr>rt_datatype := Some (ed_name d)\<rparr>)) (\<lambda>self.
      let cases = map (\<lambda>(c, ps). case_info heap (ed_name d) self c ps) (zip (ed_cases d) resolved);
          info = \<lparr>di_name = ed_name d, di_type = self, di_cases = cases\<rparr> in
      modifyA (\<lambda>s. s\<lparr>
        ru_constructors := fold (\<lambda>(c, i). emplace (dc_name c) (ed_name d, i)) (zip cases [0..<length cases]) (ru_constructors s),
        ru_types := emplace (ed_name d) self (ru_types s),
        ru_datatypes := emplace (ed_name d) info (ru_datatypes s)\<rparr>)))))"

definition declare_enumeration :: "z3_world \<Rightarrow> enum_decl \<Rightarrow> unit run" where
  "declare_enumeration w d =
     (let names = map ec_name (ed_cases d);
          constructors = map (\<lambda>n. ZDecl n Constructor [] (SDatatype (ed_name d))) names in
      thenA (new_datatype w (ed_name d) (map (\<lambda>n. (n, [])) names))
      (bindA (new_type ((plain_type rk_enumeration (SDatatype (ed_name d)) (ed_name d))\<lparr>rt_enumeration := Some (ed_name d)\<rparr>)) (\<lambda>self.
       let info = \<lparr>ei_name = ed_name d, ei_type = self, ei_case_names = names, ei_constructors = constructors,
                   ei_values = map (\<lambda>c. ZApp c []) constructors\<rparr> in
       modifyA (\<lambda>s. s\<lparr>
         ru_cases := fold (\<lambda>(n, i). emplace n (ed_name d, i)) (zip names [0..<length names]) (ru_cases s),
         ru_types := emplace (ed_name d) self (ru_types s),
         ru_enums := emplace (ed_name d) info (ru_enums s)\<rparr>))))"

definition declare_enum :: "z3_world \<Rightarrow> enum_decl \<Rightarrow> unit run" where
  "declare_enum w d =
     thenA (reserve_type_name (ed_name d) (ed_span d))
     (thenA (reserve_cases d)
     (if list_ex (\<lambda>c. ec_fields c \<noteq> []) (ed_cases d) then declare_datatype w d else declare_enumeration w d))"

section \<open>Expressions\<close>

definition datatype_case :: "runtime \<Rightarrow> string \<times> nat \<Rightarrow> datatype_info \<times> datatype_case_info" where
  "datatype_case s c = (let info = the (map_of (ru_datatypes s) (fst c)) in (info, di_cases info ! snd c))"

definition enum_value :: "runtime \<Rightarrow> string \<times> nat \<Rightarrow> enum_info \<times> zexpr" where
  "enum_value s c = (let info = the (map_of (ru_enums s) (fst c)) in (info, ei_values info ! snd c))"

definition elaborate_name :: "z3_world \<Rightarrow> environment \<Rightarrow> expr \<Rightarrow> typed_expression run" where
  "elaborate_name w env e =
     bindA (getA (\<lambda>s. s)) (\<lambda>s.
     case map_of env (ex_name e) of
       Some (type, term) \<Rightarrow> completed_expression w e type term
     | None \<Rightarrow>
       (case map_of (ru_cases s) (ex_name e) of
          Some c \<Rightarrow> (case enum_value s c of (info, v) \<Rightarrow> completed_expression w e (ei_type info) v)
        | None \<Rightarrow>
          (case map_of (ru_constructors s) (ex_name e) of
             None \<Rightarrow> reject (ex_span e) (''unknown value `'' @ ex_name e @ ''`'')
           | Some c \<Rightarrow>
             (case datatype_case s c of (info, item) \<Rightarrow>
              thenA (check_that (dc_field_types item = []) (ex_span e) (''constructor `'' @ ex_name e @ ''` requires arguments''))
              (completed_expression w e (di_type info) (ZApp (dc_constructor item) []))))))"

text \<open>What a call applies: the declaration, the types its arguments must have and the message when one does
  not, the type of the result, and the message when their number is wrong.\<close>

record callee =
  ca_declaration :: zdecl
  ca_types :: "type_ptr list"
  ca_mismatch :: "nat \<Rightarrow> string"
  ca_result :: type_ptr
  ca_arity :: string

definition must_have_type :: "runtime \<Rightarrow> string \<Rightarrow> string \<Rightarrow> type_ptr \<Rightarrow> string" where
  "must_have_type s what owner p =
     what @ '' of `'' @ owner @ ''` must have type `'' @ rt_display (ru_heap s ! p) @ ''`''"

definition find_callee :: "runtime \<Rightarrow> string \<Rightarrow> callee option" where
  "find_callee s name =
     (case map_of (ru_constructors s) name of
        Some c \<Rightarrow>
          (case datatype_case s c of (info, item) \<Rightarrow>
           Some \<lparr>ca_declaration = dc_constructor item, ca_types = dc_field_types item,
                 ca_mismatch = (\<lambda>i. must_have_type s (''argument `'' @ dc_field_names item ! i @ ''`'') (dc_name item) (dc_field_types item ! i)),
                 ca_result = di_type info,
                 ca_arity = ''constructor `'' @ name @ ''` expects '' @ nat_to_string (length (dc_field_types item)) @ '' arguments''\<rparr>)
      | None \<Rightarrow>
        (case map_of (ru_predicates s) name of
           Some item \<Rightarrow>
             Some \<lparr>ca_declaration = pri_relation item, ca_types = pri_index_types item,
                   ca_mismatch = (\<lambda>i. must_have_type s (''index '' @ nat_to_string (i + 1)) (pri_name item) (pri_index_types item ! i)),
                   ca_result = bool_type,
                   ca_arity = ''predicate `'' @ name @ ''` expects '' @ nat_to_string (length (pri_index_types item)) @ '' indices''\<rparr>
         | None \<Rightarrow>
           (case map_of (ru_functions s) name of
              Some item \<Rightarrow>
                Some \<lparr>ca_declaration = fi_declaration item, ca_types = fi_parameter_types item,
                      ca_mismatch = (\<lambda>i. must_have_type s (''argument '' @ nat_to_string (i + 1)) (fi_name item) (fi_parameter_types item ! i)),
                      ca_result = fi_result_type item,
                      ca_arity = ''function `'' @ name @ ''` expects '' @ nat_to_string (length (fi_parameter_types item)) @ '' arguments''\<rparr>
            | None \<Rightarrow> None)))"

definition elaborate_binary ::
  "z3_world \<Rightarrow> expr \<Rightarrow> typed_expression \<Rightarrow> typed_expression \<Rightarrow> typed_expression run" where
  "elaborate_binary w e left right =
     (case left of (lt, l) \<Rightarrow> case right of (rt, r) \<Rightarrow>
      case ex_binary_op e of
        op_equal \<Rightarrow>
          bindA (type_at lt) (\<lambda>t.
          thenA (check_that (lt = rt \<and> rt_kind t \<noteq> rk_table) (ex_span e) ''both sides of `==` must have the same value type'')
          (completed_expression w e bool_type (mk_eq l r)))
      | op_greater_equal \<Rightarrow>
          thenA (check_that (lt = int_type \<and> rt = int_type) (ex_span e) ''ordered comparison requires two Int values'')
          (completed_expression w e bool_type (mk_ge l r))
      | op_less_equal \<Rightarrow>
          thenA (check_that (lt = int_type \<and> rt = int_type) (ex_span e) ''ordered comparison requires two Int values'')
          (completed_expression w e bool_type (mk_le l r))
      | op_logical_and \<Rightarrow>
          thenA (check_that (lt = bool_type \<and> rt = bool_type) (ex_span e) ''Boolean connective requires two Bool values'')
          (completed_expression w e bool_type (mk_and l r))
      | op_logical_or \<Rightarrow>
          thenA (check_that (lt = bool_type \<and> rt = bool_type) (ex_span e) ''Boolean connective requires two Bool values'')
          (completed_expression w e bool_type (mk_or l r))
      | op_add \<Rightarrow>
          thenA (check_that (lt = int_type \<and> rt = int_type) (ex_span e) ''integer arithmetic requires two Int values'')
          (completed_expression w e int_type (mk_add l r))
      | op_subtract \<Rightarrow>
          thenA (check_that (lt = int_type \<and> rt = int_type) (ex_span e) ''integer arithmetic requires two Int values'')
          (completed_expression w e int_type (mk_sub l r)))"

definition elaborate_conditional ::
  "z3_world \<Rightarrow> expr \<Rightarrow> source_span \<Rightarrow> typed_expression \<Rightarrow> typed_expression \<Rightarrow> typed_expression \<Rightarrow> typed_expression run" where
  "elaborate_conditional w e condition_span condition yes no =
     thenA (check_that (fst condition = bool_type) condition_span ''an `if` condition must have type Bool'')
     (thenA (check_that (fst yes = fst no) (ex_span e) ''both `if` branches must have the same type'')
     (completed_expression w e (fst yes) (mk_ite (snd condition) (snd yes) (snd no))))"

definition elaborate_tuple :: "z3_world \<Rightarrow> expr \<Rightarrow> typed_expression \<Rightarrow> typed_expression \<Rightarrow> typed_expression run" where
  "elaborate_tuple w e first second =
     bindA (tuple_type w (fst first) (fst second) (ex_span e)) (\<lambda>p. bindA (type_at p) (\<lambda>t.
     completed_expression w e p (ZApp (the (rt_tuple_constructor t)) [snd first, snd second])))"

function elaborate_expression :: "z3_world \<Rightarrow> environment \<Rightarrow> expr \<Rightarrow> typed_expression run" where
  "elaborate_expression w env (Expr k sp nm b it bop es i) =
     (let e = Expr k sp nm b it bop es i in
      case k of
        ek_name \<Rightarrow> elaborate_name w env e
      | ek_boolean \<Rightarrow> completed_expression w e bool_type (bool_val b)
      | ek_integer \<Rightarrow> completed_expression w e int_type (int_val it)
      | ek_tuple \<Rightarrow>
          (case es of
             [a, c] \<Rightarrow>
               bindA (elaborate_expression w env a) (\<lambda>first. bindA (elaborate_expression w env c) (\<lambda>second.
               elaborate_tuple w e first second))
           | _ \<Rightarrow> reject sp ''Fine v1 tuples contain exactly two values'')
      | ek_call \<Rightarrow>
          bindA (getA (\<lambda>s. find_callee s nm)) (\<lambda>found.
          case found of
            None \<Rightarrow> reject sp (''unknown constructor or function `'' @ nm @ ''`'')
          | Some f \<Rightarrow>
            thenA (check_that (length es = length (ca_types f)) sp (ca_arity f))
            (bindA (mapA (\<lambda>(a, j).
               bindA (elaborate_expression w env a) (\<lambda>argument.
               thenA (check_that (fst argument = ca_types f ! j) (ex_span a) (ca_mismatch f j))
               (retA (snd argument)))) (zip es [0..<length es])) (\<lambda>arguments.
             completed_expression w e (ca_result f) (ZApp (ca_declaration f) arguments))))
      | ek_binary \<Rightarrow>
          (case es of
             [a, c] \<Rightarrow>
               bindA (elaborate_expression w env a) (\<lambda>left. bindA (elaborate_expression w env c) (\<lambda>right.
               elaborate_binary w e left right))
           | _ \<Rightarrow> throwA (RuntimeError ''internal Fine binary expression arity''))
      | ek_conditional \<Rightarrow>
          (case es of
             [a, c, d] \<Rightarrow>
               bindA (elaborate_expression w env a) (\<lambda>condition. bindA (elaborate_expression w env c) (\<lambda>yes.
               bindA (elaborate_expression w env d) (\<lambda>no.
               elaborate_conditional w e (ex_span a) condition yes no)))
           | _ \<Rightarrow> throwA (RuntimeError ''internal Fine conditional arity''))
      | ek_hole \<Rightarrow> reject sp ''a hole is admitted only as an entire synthesis match arm'')"
  by pat_completeness auto
termination
  by (relation "measure (\<lambda>(w, env, e). size e)")
    (auto dest!: set_zip_leftD intro!: le_imp_less_Suc trans_le_add1 size_list_estimation')

declare elaborate_expression.simps [simp del]

text \<open>The conjunction of conditions, as every declaration with conditions builds it.\<close>

definition conjoin :: "z3_world \<Rightarrow> environment \<Rightarrow> string \<Rightarrow> expr list \<Rightarrow> zexpr run" where
  "conjoin w env message conditions =
     foldA (\<lambda>result condition.
       bindA (elaborate_expression w env condition) (\<lambda>elaborated.
       thenA (check_that (fst elaborated = bool_type) (ex_span condition) message)
       (retA (mk_and result (snd elaborated))))) (bool_val True) conditions"

end
