(* ===== verification/Fine_Declarations.thy ===== *)
theory Fine_Declarations
  imports Fine_Elaboration
begin

text \<open>
  The declarations of \<^verbatim>\<open>src/src/fine/runtime.cpp\<close> that are elaborated when they are met: recursive
  functions, constrained views, and tables with their literal values.
\<close>

section \<open>Environments\<close>

text \<open>The constants that stand for the parameters of a declaration.\<close>

definition argument_name :: "string \<Rightarrow> string \<Rightarrow> nat \<Rightarrow> string" where
  "argument_name prefix name i = prefix @ name @ ''.arg'' @ nat_to_string i"

record bound_parameter =
  bp_name :: string
  bp_type :: type_ptr
  bp_term :: zexpr

definition bound_environment :: "bound_parameter list \<Rightarrow> environment" where
  "bound_environment ps = map (\<lambda>p. (bp_name p, (bp_type p, bp_term p))) ps"

text \<open>One round of the loop over the parameters: the type, whether its kind is admitted, the constant, and
  whether the name is new.\<close>

definition bind_parameter ::
  "z3_world \<Rightarrow> string \<Rightarrow> string \<Rightarrow> (runtime_type \<Rightarrow> bool) \<Rightarrow> string \<Rightarrow> bound_parameter list \<Rightarrow> parameter \<times> nat \<Rightarrow> bound_parameter list run" where
  "bind_parameter w prefix name admitted message bound = (\<lambda>(parameter, i).
     bindA (resolve_type w (pa_type parameter)) (\<lambda>p. bindA (type_at p) (\<lambda>t.
     thenA (check_that (admitted t) (ty_span (pa_type parameter)) message)
     (thenA (check_that (pa_name parameter \<notin> bp_name ` set bound) (pa_span parameter)
               (''duplicate parameter `'' @ pa_name parameter @ ''`''))
     (retA (bound @ [\<lparr>bp_name = pa_name parameter, bp_type = p,
                      bp_term = mk_const (argument_name prefix name i) (rt_sort t)\<rparr>]))))))"

definition bind_parameters ::
  "z3_world \<Rightarrow> string \<Rightarrow> string \<Rightarrow> (runtime_type \<Rightarrow> bool) \<Rightarrow> string \<Rightarrow> parameter list \<Rightarrow> bound_parameter list run" where
  "bind_parameters w prefix name admitted message ps =
     foldA (bind_parameter w prefix name admitted message) [] (zip ps [0..<length ps])"

text \<open>Elaboration of the conditions of a declaration records the edges from source to terms in its scope.\<close>

definition capturing :: "string list \<Rightarrow> 'a run \<Rightarrow> 'a run" where
  "capturing within p =
     bindA (getA (\<lambda>s. (ru_capture_source_edges s, ru_source_edge_within s))) (\<lambda>(previous_capture, previous_within).
     thenA (modifyA (\<lambda>s. s\<lparr>ru_capture_source_edges := True, ru_source_edge_within := within\<rparr>))
     (bindA p (\<lambda>x.
     thenA (modifyA (\<lambda>s. s\<lparr>ru_capture_source_edges := previous_capture, ru_source_edge_within := previous_within\<rparr>))
     (retA x))))"

section \<open>Functions\<close>

fun check_structural_calls :: "string \<Rightarrow> nat \<Rightarrow> nat \<Rightarrow> string list \<Rightarrow> string \<Rightarrow> expr \<Rightarrow> unit run" where
  "check_structural_calls name arity matched recursive_bindings datatype_name (Expr k sp nm b it bop es i) =
     thenA
       (if k = ek_call \<and> nm = name
        then thenA (check_that (length es = arity) sp (''recursive call to `'' @ name @ ''` has the wrong arity''))
             (let decreasing = es ! matched in
              check_that (ex_kind decreasing = ek_name \<and> ex_name decreasing \<in> set recursive_bindings) (ex_span decreasing)
                (''recursive call to `'' @ name @ ''` must pass a direct `'' @ datatype_name @
                 ''` pattern field as its matched argument''))
        else retA ())
       (forA es (check_structural_calls name arity matched recursive_bindings datatype_name))"

text \<open>The pattern bindings of an arm: the environment with the fields, the names bound in the arm, and
  those of them that are fields of the matched type.\<close>

definition bind_field ::
  "datatype_case_info \<Rightarrow> type_ptr \<Rightarrow> zexpr \<Rightarrow> environment \<times> string list \<times> string list \<Rightarrow> match_binding \<times> nat \<Rightarrow>
   (environment \<times> string list \<times> string list) run" where
  "bind_field item matched_type matched_term = (\<lambda>(env, local_bindings, recursive_bindings) (b, i).
     if mb_name b = ''_'' then retA (env, local_bindings, recursive_bindings)
     else thenA (check_that (mb_name b \<notin> set local_bindings \<and> map_of env (mb_name b) = None) (mb_span b)
                   (''duplicate or shadowing pattern binding `'' @ mb_name b @ ''`''))
          (retA (emplace (mb_name b) (dc_field_types item ! i, ZApp (dc_accessors item ! i) [matched_term]) env,
                 mb_name b # local_bindings,
                 if dc_field_types item ! i = matched_type then mb_name b # recursive_bindings else recursive_bindings)))"

definition function_arm ::
  "z3_world \<Rightarrow> function_decl \<Rightarrow> bound_parameter list \<Rightarrow> nat \<Rightarrow> type_ptr \<Rightarrow> datatype_info \<Rightarrow>
   string list \<times> (zexpr \<times> zexpr) list \<Rightarrow> match_arm \<Rightarrow> (string list \<times> (zexpr \<times> zexpr) list) run" where
  "function_arm w d bound matched result_type info = (\<lambda>(seen, branches) arm.
     let matched_type = bp_type (bound ! matched); matched_term = bp_term (bound ! matched) in
     case position_of (map dc_name (di_cases info)) (ma_constructor arm) of
       None \<Rightarrow> reject (ma_span arm) (''constructor `'' @ ma_constructor arm @ ''` does not belong to `'' @ di_name info @ ''`'')
     | Some c \<Rightarrow>
       let item = di_cases info ! c in
       thenA (check_that (ma_constructor arm \<notin> set seen) (ma_span arm) (''duplicate match arm for `'' @ ma_constructor arm @ ''`''))
       (thenA (check_that (length (ma_bindings arm) = length (dc_field_types item)) (ma_span arm)
                 (''constructor `'' @ ma_constructor arm @ ''` expects '' @ nat_to_string (length (dc_field_types item)) @ '' pattern bindings''))
       (bindA (foldA (bind_field item matched_type matched_term) (bound_environment bound, [], [])
                 (zip (ma_bindings arm) [0..<length (ma_bindings arm)])) (\<lambda>(env, _, recursive_bindings).
        thenA (check_structural_calls (fd_name d) (length (fd_parameters d)) matched recursive_bindings (di_name info) (ma_value arm))
        (bindA (elaborate_expression w env (ma_value arm)) (\<lambda>(type, term).
         bindA (type_at result_type) (\<lambda>result.
         thenA (check_that (type = result_type) (ex_span (ma_value arm)) (''match arm must return `'' @ rt_display result @ ''`''))
         (retA (ma_constructor arm # seen, branches @ [(ZApp (dc_recognizer item) [matched_term], term)])))))))))"

definition missing_cases :: "datatype_info \<Rightarrow> string list \<Rightarrow> string" where
  "missing_cases info seen =
     comma_separated (map (\<lambda>n. ''`'' @ n @ ''`'') (filter (\<lambda>n. n \<notin> set seen) (map dc_name (di_cases info))))"

definition match_body :: "(zexpr \<times> zexpr) list \<Rightarrow> zexpr" where
  "match_body branches = foldr (\<lambda>(guard, v) body. mk_ite guard v body) (butlast branches) (snd (last branches))"

definition record_function :: "z3_world \<Rightarrow> function_decl \<Rightarrow> zexpr \<Rightarrow> zexpr \<Rightarrow> nat \<Rightarrow> unit run" where
  "record_function w d application body arms =
     (let scope = ''function:'' @ fd_name d in
      thenA (rain () (source_term w (fd_node_id d) (fd_span d) ''decl.function'' body ''generated'' [scope]))
      (rain_event w ''transform'' ''function.recursive-definition'' [scope] ''fine.elaborator''
        (''Compiler-owned exhaustive datatype match registered through Z3_add_rec_def; records the '' @
         ''formal application and body but does not pretend Z3 stores a source-level equation'')
        [FString ''function'' (fd_name d), FString ''matched_parameter'' (ex_name (fd_scrutinee d)),
         FTerm ''formal_application'' application, FTerm ''definition_body'' body, FNumber ''arms'' arms]))"

definition declare_function :: "z3_world \<Rightarrow> function_decl \<Rightarrow> unit run" where
  "declare_function w d =
     thenA (reserve_value_name (fd_name d) (fd_span d))
     (thenA (check_that (fd_parameters d \<noteq> []) (fd_span d) ''a function needs at least one parameter'')
     (thenA (check_that (ex_kind (fd_scrutinee d) = ek_name) (ex_span (fd_scrutinee d))
               ''the first function slice matches one named parameter directly'')
     (bindA (bind_parameters w ''Fine.function.'' (fd_name d) (\<lambda>t. rt_kind t \<noteq> rk_table)
               ''function parameters cannot have Table type in this slice'' (fd_parameters d)) (\<lambda>bound.
      case position_of (map bp_name bound) (ex_name (fd_scrutinee d)) of
        None \<Rightarrow> reject (ex_span (fd_scrutinee d)) ''the matched name is not a function parameter''
      | Some matched \<Rightarrow>
        bindA (type_at (bp_type (bound ! matched))) (\<lambda>matched_type.
        thenA (check_that (rt_kind matched_type = rk_datatype) (ex_span (fd_scrutinee d)) ''a function match requires a field-bearing datatype'')
        (bindA (resolve_type w (fd_result_type d)) (\<lambda>result_type. bindA (type_at result_type) (\<lambda>result.
         thenA (check_that (rt_kind result \<noteq> rk_table) (ty_span (fd_result_type d)) ''functions cannot return Table in this slice'')
         (bindA (getA ru_heap) (\<lambda>heap.
          let declaration = ZDecl (fd_name d) RecursiveFunction (map (\<lambda>p. rt_sort (heap ! bp_type p)) bound) (rt_sort result);
              info = \<lparr>fi_name = fd_name d, fi_parameter_types = map bp_type bound, fi_result_type = result_type, fi_declaration = declaration\<rparr> in
          thenA (modifyA (\<lambda>s. s\<lparr>ru_functions := emplace (fd_name d) info (ru_functions s)\<rparr>))
          (bindA (getA (\<lambda>s. the (map_of (ru_datatypes s) (the (rt_datatype matched_type))))) (\<lambda>dt.
           bindA (capturing [''function:'' @ fd_name d]
                    (foldA (function_arm w d bound matched result_type dt) ([], []) (fd_arms d))) (\<lambda>(seen, branches).
           thenA (check_that (length seen = length (di_cases dt)) (fd_span d) (''non-exhaustive match; missing '' @ missing_cases dt seen))
           (let body = match_body branches; formals = map bp_term bound in
            thenA (modifyA (\<lambda>s. s\<lparr>ru_recdefs := ru_recdefs s @ [(declaration, formals, body)]\<rparr>))
            (record_function w d (ZApp declaration formals) body (length branches))))))))))))))))"

section \<open>Views\<close>

definition view_parameter ::
  "z3_world \<Rightarrow> string \<Rightarrow> bound_parameter list \<Rightarrow> parameter \<times> nat \<Rightarrow> bound_parameter list run" where
  "view_parameter w name bound = (\<lambda>(parameter, i).
     thenA (check_that (pa_name parameter \<noteq> ''value'') (pa_span parameter) ''`value` is reserved for the constrained-view carrier'')
     (thenA (check_that (pa_name parameter \<notin> bp_name ` set bound) (pa_span parameter)
               (''duplicate view parameter `'' @ pa_name parameter @ ''`''))
     (bindA (resolve_type w (pa_type parameter)) (\<lambda>p. bindA (type_at p) (\<lambda>t.
      thenA (check_that (rt_kind t \<noteq> rk_table) (ty_span (pa_type parameter)) ''view parameters must be native Fine values'')
      (retA (bound @ [\<lparr>bp_name = pa_name parameter, bp_type = p,
                       bp_term = mk_const (argument_name ''Fine.view.'' name i) (rt_sort t)\<rparr>])))))))"

definition view_witness :: "z3_world \<Rightarrow> view_decl \<Rightarrow> environment \<Rightarrow> type_ptr \<Rightarrow> zexpr option run" where
  "view_witness w d env carrier =
     (case vd_witness d of
        None \<Rightarrow> retA None
      | Some e \<Rightarrow>
        bindA (elaborate_expression w env e) (\<lambda>(type, term). bindA (type_at carrier) (\<lambda>t.
        thenA (check_that (type = carrier) (ex_span e) (''a constrained-view witness must have carrier type `'' @ rt_display t @ ''`''))
        (retA (Some term)))))"

definition declare_view :: "z3_world \<Rightarrow> view_decl \<Rightarrow> unit run" where
  "declare_view w d =
     bindA (getA (\<lambda>s. map_of (ru_views s) (vd_name d) = None \<and> map_of (ru_types s) (vd_name d) = None \<and>
                       map_of (ru_functions s) (vd_name d) = None \<and> map_of (ru_predicates s) (vd_name d) = None)) (\<lambda>fresh.
     thenA (check_that fresh (vd_span d) (''duplicate type-level name `'' @ vd_name d @ ''`''))
     (bindA (resolve_type w (vd_carrier d)) (\<lambda>carrier. bindA (type_at carrier) (\<lambda>t.
      thenA (check_that (rt_kind t \<noteq> rk_table) (ty_span (vd_carrier d)) ''a constrained view must keep one existing native Fine carrier'')
      (bindA (foldA (view_parameter w (vd_name d)) [] (zip (vd_parameters d) [0..<length (vd_parameters d)])) (\<lambda>bound.
       let witness_env = bound_environment bound;
           v = mk_const (''Fine.view.'' @ vd_name d @ ''.value'') (rt_sort t);
           env = emplace ''value'' (carrier, v) witness_env;
           info = \<lparr>vi_name = vd_name d, vi_parameter_names = map bp_name bound, vi_parameter_types = map bp_type bound,
                   vi_carrier = carrier, vi_requirements = vd_requirements d, vi_witness = vd_witness d\<rparr> in
       bindA (capturing [''view:'' @ vd_name d]
         (bindA (conjoin w env ''a constrained-view requirement must have type Bool'' (vd_requirements d)) (\<lambda>requirements.
          bindA (view_witness w d witness_env carrier) (\<lambda>witness. retA (requirements, witness))))) (\<lambda>(requirements, witness).
       thenA (modifyA (\<lambda>s. s\<lparr>ru_views := emplace (vd_name d) info (ru_views s)\<rparr>))
       (rain_event w ''object'' ''fine.view.declare'' [''view:'' @ vd_name d] ''fine.elaborator''
          ''Named erased proposition over one existing native carrier; no wrapper sort is created''
          [FString ''view'' (vd_name d), FString ''carrier'' (rt_display t), FTerm ''requirements'' requirements,
           FString ''availability'' (case witness of None \<Rightarrow> ''solver-exists'' | Some _ \<Rightarrow> ''declared-witness''),
           (case witness of None \<Rightarrow> FString ''witness'' [] | Some e \<Rightarrow> FTerm ''witness'' e),
           FNumber ''parameters'' (length (vd_parameters d)), FBool ''wrapper_sort'' False]))))))))"

section \<open>Literal values and tables\<close>

definition belongs_to :: "string \<Rightarrow> string \<Rightarrow> string \<Rightarrow> runtime_type \<Rightarrow> string" where
  "belongs_to what name owner t = what @ '' `'' @ name @ ''` belongs to `'' @ owner @ ''`, not `'' @ rt_display t @ ''`''"

definition value_name :: "expr \<Rightarrow> runtime_type \<Rightarrow> zexpr run" where
  "value_name e t =
     bindA (getA (\<lambda>s. s)) (\<lambda>s.
     if rt_kind t = rk_datatype
     then case map_of (ru_constructors s) (ex_name e) of
            None \<Rightarrow> reject (ex_span e) (''unknown constructor `'' @ ex_name e @ ''`'')
          | Some c \<Rightarrow>
            thenA (check_that (Some (fst c) = rt_datatype t) (ex_span e)
                     (belongs_to ''constructor'' (ex_name e) (di_name (fst (datatype_case s c))) t))
            (thenA (check_that (dc_field_types (snd (datatype_case s c)) = []) (ex_span e)
                      (''constructor `'' @ ex_name e @ ''` requires arguments''))
            (retA (ZApp (dc_constructor (snd (datatype_case s c))) [])))
     else
       thenA (check_that (rt_kind t = rk_enumeration) (ex_span e)
                (''name `'' @ ex_name e @ ''` is not a value of type `'' @ rt_display t @ ''`''))
       (case map_of (ru_cases s) (ex_name e) of
          None \<Rightarrow> reject (ex_span e) (''unknown enum case `'' @ ex_name e @ ''`'')
        | Some c \<Rightarrow>
          thenA (check_that (Some (fst c) = rt_enumeration t) (ex_span e)
                   (belongs_to ''enum case'' (ex_name e) (ei_name (fst (enum_value s c))) t))
          (retA (snd (enum_value s c)))))"

text \<open>\<open>literal_value\<close> is \<^verbatim>\<open>Runtime::value\<close>.  The two calls in the argument list of a tuple constructor, whose
  order C++ leaves open, run from left to right.\<close>

function literal_value :: "expr \<Rightarrow> type_ptr \<Rightarrow> zexpr run" where
  "literal_value (Expr k sp nm b it bop es i) expected =
     (let e = Expr k sp nm b it bop es i in
      bindA (type_at expected) (\<lambda>t.
      case k of
        ek_boolean \<Rightarrow>
          thenA (check_that (rt_kind t = rk_boolean) sp (''Boolean value does not have type `'' @ rt_display t @ ''`''))
          (retA (bool_val b))
      | ek_integer \<Rightarrow>
          thenA (check_that (rt_kind t = rk_integer) sp (''integer value does not have type `'' @ rt_display t @ ''`''))
          (retA (int_val it))
      | ek_name \<Rightarrow> value_name e t
      | ek_call \<Rightarrow>
          thenA (check_that (rt_kind t = rk_datatype) sp (''constructor call does not have type `'' @ rt_display t @ ''`''))
          (bindA (getA (\<lambda>s. s)) (\<lambda>s.
           case map_of (ru_constructors s) nm of
             None \<Rightarrow> reject sp (''unknown constructor `'' @ nm @ ''`'')
           | Some c \<Rightarrow>
             let item = snd (datatype_case s c) in
             thenA (check_that (Some (fst c) = rt_datatype t) sp (belongs_to ''constructor'' nm (di_name (fst (datatype_case s c))) t))
             (thenA (check_that (length es = length (dc_field_types item)) sp
                       (''constructor `'' @ nm @ ''` expects '' @ nat_to_string (length (dc_field_types item)) @ '' arguments''))
             (bindA (mapA (\<lambda>(a, j). literal_value a (dc_field_types item ! j)) (zip es [0..<length es])) (\<lambda>arguments.
              retA (ZApp (dc_constructor item) arguments))))))
      | ek_tuple \<Rightarrow>
          thenA (check_that (rt_kind t = rk_tuple) sp (''tuple does not have type `'' @ rt_display t @ ''`''))
          (case es of
             [a, c] \<Rightarrow>
               bindA (literal_value a (rt_arguments t ! 0)) (\<lambda>first. bindA (literal_value c (rt_arguments t ! 1)) (\<lambda>second.
               retA (ZApp (the (rt_tuple_constructor t)) [first, second])))
           | _ \<Rightarrow> reject sp ''Fine v1 tuples contain exactly two values'')
      | _ \<Rightarrow> reject sp ''computed expressions are not admitted as literal table cells''))"
  by pat_completeness auto
termination
  by (relation "measure (\<lambda>(e, p). size e)")
    (auto dest!: set_zip_leftD intro!: le_imp_less_Suc trans_le_add1 size_list_estimation')

declare literal_value.simps [simp del]

definition table_value :: "type_ptr \<Rightarrow> table_literal \<Rightarrow> zexpr run" where
  "table_value type literal =
     bindA (type_at type) (\<lambda>t.
     let domain = rt_arguments t ! 0; rng = rt_arguments t ! 1 in
     bindA (type_at domain) (\<lambda>dt.
     bindA (literal_value (tl_default_value literal) rng) (\<lambda>default_value.
     bindA (foldA (\<lambda>(keys, result) entry.
       bindA (literal_value (te_key entry) domain) (\<lambda>key.
       thenA (check_that (key \<notin> set keys) (ex_span (te_key entry)) ''duplicate table key'')
       (bindA (literal_value (te_value entry) rng) (\<lambda>v.
       retA (keys @ [key], mk_store result key v))))) ([], const_array (rt_sort dt) default_value) (tl_entries literal)) (\<lambda>(_, result).
     retA result))))"

definition declare_let :: "z3_world \<Rightarrow> let_decl \<Rightarrow> unit run" where
  "declare_let w d =
     thenA (reserve_value_name (ld_name d) (ld_span d))
     (bindA (resolve_type w (ld_type d)) (\<lambda>p. bindA (type_at p) (\<lambda>t.
      thenA (check_that (rt_kind t = rk_table) (ty_span (ld_type d)) ''a `let` binding in this slice must be a Table'')
      (bindA (table_value p (ld_value d)) (\<lambda>result.
       modifyA (\<lambda>s. s\<lparr>ru_bindings := emplace (ld_name d)
         \<lparr>bi_type = p, bi_value = result, bi_is_model = False, bi_span = ld_span d\<rparr> (ru_bindings s)\<rparr>))))))"

definition declare_model :: "z3_world \<Rightarrow> model_decl \<Rightarrow> unit run" where
  "declare_model w d =
     thenA (reserve_value_name (md_name d) (md_span d))
     (bindA (resolve_type w (md_type d)) (\<lambda>p. bindA (type_at p) (\<lambda>t.
      thenA (check_that (rt_kind t = rk_table) (ty_span (md_type d)) ''a `model` hole must have Table type'')
      (bindA (case md_value d of Some literal \<Rightarrow> table_value p literal | None \<Rightarrow> retA (mk_const (md_name d) (rt_sort t))) (\<lambda>hole.
       modifyA (\<lambda>s. s\<lparr>ru_bindings := emplace (md_name d)
         \<lparr>bi_type = p, bi_value = hole, bi_is_model = (case md_value d of None \<Rightarrow> True | Some _ \<Rightarrow> False), bi_span = md_span d\<rparr>
         (ru_bindings s)\<rparr>))))))"

definition table_binding_of :: "expr \<Rightarrow> string \<Rightarrow> table_binding run" where
  "table_binding_of e role =
     thenA (check_that (ex_kind e = ek_name) (ex_span e) (role @ '' must name a table declaration''))
     (bindA (getA (\<lambda>s. map_of (ru_bindings s) (ex_name e))) (\<lambda>found.
      case found of None \<Rightarrow> reject (ex_span e) (''unknown table `'' @ ex_name e @ ''`'') | Some b \<Rightarrow> retA b))"

end
