(* ===== verification/Fine_Values.thy ===== *)
theory Fine_Values
  imports Fine_Declarations
begin

text \<open>
  From Z3 values back to Fine source: the lifting of \<^verbatim>\<open>src/src/fine/runtime.cpp\<close>, the surface values of
  \<^verbatim>\<open>runtime_internal.h\<close> with their lifting, reification and printing in
  \<^verbatim>\<open>src/src/fine/bisimulation_runtime.cpp\<close>.  None of these operations changes the runtime, so that the
  state is a plain argument and an exception is the left value of a sum.
\<close>

text \<open>\<open>{}\<close> as a span is the default one.\<close>

definition rejected :: "string \<Rightarrow> fine_error + 'a" where
  "rejected message = Inl (SemanticError default_span message)"

section \<open>Synthesized terms\<close>

text \<open>The expressions the lifting builds have default spans and no identities.\<close>

definition name_surface :: "string \<Rightarrow> expr" where
  "name_surface name = Expr ek_name default_span name False [] op_equal [] 0"

definition boolean_surface :: "bool \<Rightarrow> expr" where
  "boolean_surface b = Expr ek_boolean default_span [] b [] op_equal [] 0"

definition integer_surface :: "string \<Rightarrow> expr" where
  "integer_surface t = Expr ek_integer default_span [] False t op_equal [] 0"

definition binary_surface :: "binary_op \<Rightarrow> expr list \<Rightarrow> expr" where
  "binary_surface operation es = Expr ek_binary default_span [] False [] operation es 0"

definition conditional_surface :: "expr list \<Rightarrow> expr" where
  "conditional_surface es = Expr ek_conditional default_span [] False [] op_equal es 0"

definition tuple_surface :: "expr list \<Rightarrow> expr" where
  "tuple_surface es = Expr ek_tuple default_span [] False [] op_equal es 0"

definition constructor_surface :: "datatype_case_info \<Rightarrow> expr list \<Rightarrow> expr" where
  "constructor_surface item es =
     Expr (if dc_field_types item = [] then ek_name else ek_call) default_span (dc_name item) False [] op_equal es 0"

lemmas surface_defs = name_surface_def boolean_surface_def integer_surface_def binary_surface_def
  conditional_surface_def tuple_surface_def constructor_surface_def

definition lifted_operation :: "decl_family \<Rightarrow> binary_op option" where
  "lifted_operation f =
     (case f of
        Builtin OP_EQ \<Rightarrow> Some op_equal
      | Builtin OP_GE \<Rightarrow> Some op_greater_equal
      | Builtin OP_LE \<Rightarrow> Some op_less_equal
      | Builtin OP_AND \<Rightarrow> Some op_logical_and
      | Builtin OP_OR \<Rightarrow> Some op_logical_or
      | Builtin OP_ADD \<Rightarrow> Some op_add
      | Builtin OP_SUB \<Rightarrow> Some op_subtract
      | _ \<Rightarrow> None)"

function lift_expression :: "(string \<times> zexpr) list \<Rightarrow> zexpr \<Rightarrow> fine_error + expr" where
  "lift_expression named e =
     (case find (\<lambda>(name, parameter). e = parameter) named of
        Some (name, _) \<Rightarrow> Inr (name_surface name)
      | None \<Rightarrow>
        if is_true e \<or> is_false e then Inr (boolean_surface (is_true e))
        else case e of
          ZNumeral v _ \<Rightarrow> Inr (integer_surface v)
        | ZApp d args \<Rightarrow>
            (if zd_family d = Builtin OP_ITE \<and> length args = 3
            then bindE (mapE (lift_expression named) args) (\<lambda>es. Inr (conditional_surface es))
            else (case lifted_operation (zd_family d) of
                    None \<Rightarrow> rejected ''lift encountered an operation outside the admitted synth body''
                  | Some operation \<Rightarrow>
                      if length args \<noteq> 2 then rejected ''lift encountered a non-binary admitted operation''
                      else bindE (mapE (lift_expression named) args) (\<lambda>es. Inr (binary_surface operation es))))
        | _ \<Rightarrow> rejected ''lift encountered a non-application synthesis term'')"
  by pat_completeness auto
termination
  by (relation "measure (\<lambda>(ps, e). size e)") (auto intro!: le_imp_less_Suc trans_le_add1 trans_le_add2 size_list_estimation')

declare lift_expression.simps [simp del]

section \<open>Model values\<close>

definition enum_of :: "runtime \<Rightarrow> runtime_type \<Rightarrow> enum_info" where
  "enum_of s t = the (map_of (ru_enums s) (the (rt_enumeration t)))"

definition datatype_of :: "runtime \<Rightarrow> runtime_type \<Rightarrow> datatype_info" where
  "datatype_of s t = the (map_of (ru_datatypes s) (the (rt_datatype t)))"

definition decl_of :: "zexpr \<Rightarrow> zdecl option" where
  "decl_of e = (case e of ZApp d _ \<Rightarrow> Some d | _ \<Rightarrow> None)"

definition case_of :: "datatype_info \<Rightarrow> zexpr \<Rightarrow> nat option" where
  "case_of info e = position_of (map (Some \<circ> dc_constructor) (di_cases info)) (decl_of e)"

lemma z_args_size: "a \<in> set (z_args e) \<Longrightarrow> size a < size e"
  by (cases e) (auto simp: z_args_def intro!: le_imp_less_Suc trans_le_add1 trans_le_add2 size_list_estimation')

function lift_typed_expression :: "runtime \<Rightarrow> zexpr \<Rightarrow> type_ptr \<Rightarrow> fine_error + expr" where
  "lift_typed_expression s e p =
     (let t = ru_heap s ! p in
      case rt_kind t of
        rk_boolean \<Rightarrow>
          if is_true e \<or> is_false e then Inr (boolean_surface (is_true e))
          else rejected ''lift encountered a non-literal Bool model value''
      | rk_integer \<Rightarrow>
          (case e of ZNumeral v _ \<Rightarrow> Inr (integer_surface v) | _ \<Rightarrow> rejected ''lift encountered a non-numeral Int model value'')
      | rk_enumeration \<Rightarrow>
          (case position_of (ei_values (enum_of s t)) e of
             Some i \<Rightarrow> Inr (name_surface (ei_case_names (enum_of s t) ! i))
           | None \<Rightarrow> rejected (''lift encountered a value outside enum `'' @ rt_display t @ ''`''))
      | rk_datatype \<Rightarrow>
          if \<not> is_app e then rejected (''lift encountered a non-constructor value for `'' @ rt_display t @ ''`'')
          else (case case_of (datatype_of s t) e of
             None \<Rightarrow> rejected (''lift encountered a value outside datatype `'' @ rt_display t @ ''`'')
           | Some i \<Rightarrow>
               let item = di_cases (datatype_of s t) ! i in
               if length (z_args e) \<noteq> length (dc_field_types item)
               then Inl (RuntimeError ''internal datatype constructor arity mismatch'')
               else bindE (mapE (\<lambda>(a, q). lift_typed_expression s a q) (zip (z_args e) (dc_field_types item))) (\<lambda>es.
                    Inr (constructor_surface item es)))
      | rk_tuple \<Rightarrow>
          (case z_args e of
             [a, b] \<Rightarrow>
               if decl_of e \<noteq> rt_tuple_constructor t
               then rejected (''lift encountered a value outside tuple `'' @ rt_display t @ ''`'')
               else bindE (lift_typed_expression s a (rt_arguments t ! 0)) (\<lambda>first.
                    bindE (lift_typed_expression s b (rt_arguments t ! 1)) (\<lambda>second. Inr (tuple_surface [first, second])))
           | _ \<Rightarrow> rejected (''lift encountered a value outside tuple `'' @ rt_display t @ ''`''))
      | rk_table \<Rightarrow> rejected (''lift does not admit values of type `'' @ rt_display t @ ''`''))"
  by pat_completeness auto
termination
  by (relation "measure (\<lambda>(s, e, p). size e)") (auto dest!: set_zip_leftD intro: z_args_size)

declare lift_typed_expression.simps [simp del]

section \<open>Surface values\<close>

datatype surface_kind = sk_boolean | sk_enumeration | sk_datatype | sk_tuple

datatype surface_value =
  SurfaceValue (sv_kind: surface_kind) (sv_boolean: bool) (sv_enumeration: "string option") (sv_case_index: nat)
    (sv_elements: "surface_value list") (sv_datatype: "string option")

record surface_entry =
  se_key :: surface_value
  se_value :: surface_value

record surface_table =
  st_default_value :: surface_value
  st_entries :: "surface_entry list"

function lift_value :: "runtime \<Rightarrow> type_ptr \<Rightarrow> zexpr \<Rightarrow> fine_error + surface_value" where
  "lift_value s p e =
     (let t = ru_heap s ! p;
          outside = rejected (''lift encountered a value outside admitted type `'' @ rt_display t @ ''`'') in
      case rt_kind t of
        rk_boolean \<Rightarrow>
          if is_true e then Inr (SurfaceValue sk_boolean True None 0 [] None)
          else if is_false e then Inr (SurfaceValue sk_boolean False None 0 [] None)
          else rejected ''lift encountered a non-literal Boolean''
      | rk_enumeration \<Rightarrow>
          (case position_of (ei_values (enum_of s t)) e of
             Some i \<Rightarrow> Inr (SurfaceValue sk_enumeration False (rt_enumeration t) i [] None)
           | None \<Rightarrow> rejected (''lift encountered a value outside enum `'' @ rt_display t @ ''`''))
      | rk_datatype \<Rightarrow>
          if \<not> is_app e then outside
          else (case case_of (datatype_of s t) e of
             None \<Rightarrow> rejected (''lift encountered a value outside datatype `'' @ rt_display t @ ''`'')
           | Some i \<Rightarrow>
               bindE (mapE (\<lambda>(a, j). lift_value s (dc_field_types (di_cases (datatype_of s t) ! i) ! j) a)
                        (zip (z_args e) [0..<length (z_args e)])) (\<lambda>vs.
               Inr (SurfaceValue sk_datatype False None i vs (rt_datatype t))))
      | rk_tuple \<Rightarrow>
          (case z_args e of
             [a, b] \<Rightarrow>
               if decl_of e \<noteq> rt_tuple_constructor t then outside
               else bindE (lift_value s (rt_arguments t ! 0) a) (\<lambda>first.
                    bindE (lift_value s (rt_arguments t ! 1) b) (\<lambda>second.
                    Inr (SurfaceValue sk_tuple False None 0 [first, second] None)))
           | _ \<Rightarrow> outside)
      | _ \<Rightarrow> outside)"
  by pat_completeness auto
termination
  by (relation "measure (\<lambda>(s, p, e). size e)") (auto dest!: set_zip_leftD intro: z_args_size)

declare lift_value.simps [simp del]

function reify_value :: "runtime \<Rightarrow> type_ptr \<Rightarrow> surface_value \<Rightarrow> fine_error + zexpr" where
  "reify_value s p (SurfaceValue kind b enumeration i elements dt) =
     (let t = ru_heap s ! p; mismatch = Inl (RuntimeError ''internal Fine surface value/type mismatch'') in
      if rt_kind t = rk_boolean \<and> kind = sk_boolean then Inr (bool_val b)
      else if rt_kind t = rk_enumeration \<and> kind = sk_enumeration
      then if enumeration = rt_enumeration t \<and> i < length (ei_values (enum_of s t)) then Inr (ei_values (enum_of s t) ! i) else mismatch
      else if rt_kind t = rk_datatype \<and> kind = sk_datatype \<and> dt = rt_datatype t \<and> i < length (di_cases (datatype_of s t))
      then let item = di_cases (datatype_of s t) ! i in
           if length elements \<noteq> length (dc_field_types item)
           then Inl (RuntimeError ''internal Fine datatype surface arity mismatch'')
           else bindE (mapE (\<lambda>(q, v). reify_value s q v) (zip (dc_field_types item) elements)) (\<lambda>arguments.
                Inr (ZApp (dc_constructor item) arguments))
      else if rt_kind t = rk_tuple \<and> kind = sk_tuple
      then case elements of
             [a, c] \<Rightarrow>
               bindE (reify_value s (rt_arguments t ! 0) a) (\<lambda>first.
               bindE (reify_value s (rt_arguments t ! 1) c) (\<lambda>second.
               Inr (ZApp (the (rt_tuple_constructor t)) [first, second])))
           | _ \<Rightarrow> mismatch
      else mismatch)"
  by pat_completeness auto
termination
  by (relation "measure (\<lambda>(s, p, v). size v)")
    (auto dest!: set_zip_rightD intro!: le_imp_less_Suc trans_le_add1 trans_le_add2 size_list_estimation')

declare reify_value.simps [simp del]

section \<open>Surface tables\<close>

text \<open>\<open>lift_table_into\<close> returns the table it has filled.\<close>

function lift_table_into :: "runtime \<Rightarrow> type_ptr \<Rightarrow> zexpr \<Rightarrow> fine_error + surface_table" where
  "lift_table_into s p e =
     (let t = ru_heap s ! p in
      if \<not> is_app e then rejected ''lift expected an array application''
      else if sort_of e \<noteq> rt_sort t then rejected ''lift received an array with the wrong admitted Table type''
      else if is_kind OP_CONST_ARRAY e
      then case z_args e of
             [v] \<Rightarrow> bindE (lift_value s (rt_arguments t ! 1) v) (\<lambda>default_value.
                    Inr \<lparr>st_default_value = default_value, st_entries = []\<rparr>)
           | _ \<Rightarrow> Inl (Z3Failure ''index out of bounds'')
      else if is_kind OP_STORE e
      then case z_args e of
             [array, key, v] \<Rightarrow>
               bindE (lift_table_into s p array) (\<lambda>table.
               bindE (lift_value s (rt_arguments t ! 0) key) (\<lambda>k.
               bindE (lift_value s (rt_arguments t ! 1) v) (\<lambda>x.
               Inr (table\<lparr>st_entries := st_entries table @ [\<lparr>se_key = k, se_value = x\<rparr>]\<rparr>))))
           | _ \<Rightarrow> Inl (Z3Failure ''index out of bounds'')
      else rejected ''array value is outside Fine's admitted table syntax'')"
  by pat_completeness auto
termination
  by (relation "measure (\<lambda>(s, p, e). size e)") (auto intro: z_args_size)

declare lift_table_into.simps [simp del]

definition lift_table :: "runtime \<Rightarrow> type_ptr \<Rightarrow> zexpr \<Rightarrow> fine_error + surface_table" where
  "lift_table s p e = lift_table_into s p e"

definition reify_table :: "runtime \<Rightarrow> type_ptr \<Rightarrow> surface_table \<Rightarrow> fine_error + zexpr" where
  "reify_table s p table =
     (let t = ru_heap s ! p; domain = rt_arguments t ! 0; rng = rt_arguments t ! 1 in
      bindE (reify_value s rng (st_default_value table)) (\<lambda>default_value.
      foldl (\<lambda>result entry.
        bindE result (\<lambda>array.
        bindE (reify_value s domain (se_key entry)) (\<lambda>key.
        bindE (reify_value s rng (se_value entry)) (\<lambda>v.
        Inr (mk_store array key v)))))
        (Inr (const_array (rt_sort (ru_heap s ! domain)) default_value)) (st_entries table)))"

section \<open>Printing\<close>

primrec print_value :: "runtime \<Rightarrow> surface_value \<Rightarrow> string" where
  "print_value s (SurfaceValue kind b enumeration i elements dt) =
     (let texts = map (print_value s) elements in
      case kind of
        sk_boolean \<Rightarrow> (if b then ''true'' else ''false'')
      | sk_enumeration \<Rightarrow> ei_case_names (the (map_of (ru_enums s) (the enumeration))) ! i
      | sk_datatype \<Rightarrow>
          dc_name (di_cases (the (map_of (ru_datatypes s) (the dt))) ! i) @
          (if elements = [] then [] else ''('' @ comma_separated texts @ '')'')
      | sk_tuple \<Rightarrow> ''('' @ comma_separated texts @ '')'')"

definition print_table_expression :: "runtime \<Rightarrow> surface_table \<Rightarrow> string" where
  "print_table_expression s table =
     ''table(default: '' @ print_value s (st_default_value table) @ '') {'' @ [CHR 0x0A] @
     concat (map (\<lambda>entry. ''  '' @ print_value s (se_key entry) @ '': '' @ print_value s (se_value entry) @ '','' @ [CHR 0x0A])
       (st_entries table)) @ ''}''"

definition render_model_witness :: "runtime \<Rightarrow> string \<Rightarrow> type_ptr \<Rightarrow> surface_table \<Rightarrow> string" where
  "render_model_witness s name p table =
     ''model '' @ name @ '': '' @ rt_display (ru_heap s ! p) @ '' = '' @ print_table_expression s table @ '';'' @ [CHR 0x0A]"

section \<open>Diagnostics\<close>

text \<open>\<^verbatim>\<open>SemanticError::format\<close>, where a span may be the default one and may reach past the source.\<close>

definition format_semantic_error :: "source_span \<Rightarrow> string \<Rightarrow> string \<Rightarrow> string \<Rightarrow> string" where
  "format_semantic_error span message filename source =
     (let start = span_begin span;
          source_line = line_at (min (offset start) (length source)) source;
          col = max 1 (column start);
          width = max 1 (offset (span_end span) - offset start)
      in filename @ '':'' @ nat_to_string (max 1 (line start)) @ '':'' @ nat_to_string col @
         '': error: '' @ message @ [CHR 0x0A] @ source_line @ [CHR 0x0A] @
         replicate (col - 1) (CHR '' '') @ ''^'' @
         (if 1 < width \<and> width \<le> length source_line then replicate (width - 1) (CHR ''~'') else []))"

end
