(* ===== verification/Fine_Check.thy ===== *)
theory Fine_Check
  imports Fine_Values
begin

text \<open>
  \<^verbatim>\<open>Runtime::execute_check\<close> of \<^verbatim>\<open>src/src/fine/runtime.cpp\<close> for a document without predicates: the
  theorem of a check or a reusable proof, its translation into constructor induction, the one query
  for a counterexample, the admission of a verified proof, and the counterexample that is printed,
  parsed and elaborated again before it is returned.
\<close>

section \<open>The theorem\<close>

definition check_scope :: "check_decl \<Rightarrow> string" where
  "check_scope d = (if cd_reusable d then ''proof:'' else ''check:'') @ cd_name d"

definition inducting :: "check_decl \<Rightarrow> bool" where
  "inducting d = (cd_induction_parameter d \<noteq> None)"

definition check_query :: string where
  "check_query = ''query:0''"

definition open_check :: "z3_world \<Rightarrow> check_decl \<Rightarrow> nat \<Rightarrow> unit run" where
  "open_check w d parameter_count =
     rain_event w ''scope'' (if cd_reusable d then ''proof.run.open'' else ''check.run.open'') [check_scope d] ''fine.check''
       (''Fine check elaboration, one public counterexample query, and optional '' @
        ''source-witness round trip; induction checks additionally expose the public '' @
        ''qi_queue binding and on-clause boundaries, not the rest of Z3 search'')
       [FString ''declaration'' (cd_name d), FNumber ''parameters'' parameter_count]"

text \<open>The conditions are elaborated with capture switched on; it is switched off afterwards.\<close>

definition check_conditions :: "z3_world \<Rightarrow> check_decl \<Rightarrow> environment \<Rightarrow> (zexpr \<times> zexpr) run" where
  "check_conditions w d env =
     thenA (modifyA (\<lambda>s. s\<lparr>ru_capture_source_edges := True, ru_source_edge_within := [check_scope d]\<rparr>))
     (bindA (conjoin w env ''assumed condition must have type Bool'' (cd_assumes d)) (\<lambda>assumptions.
      bindA (conjoin w env ''ensured condition must have type Bool'' (cd_ensures d)) (\<lambda>guarantees.
      thenA (modifyA (\<lambda>s. s\<lparr>ru_capture_source_edges := False, ru_source_edge_within := []\<rparr>))
      (retA (assumptions, guarantees)))))"

section \<open>Constructor induction\<close>

definition case_fields :: "runtime_type list \<Rightarrow> check_decl \<Rightarrow> datatype_case_info \<Rightarrow> zexpr list" where
  "case_fields heap d item =
     map (\<lambda>(p, j). mk_const (''Fine.check.'' @ cd_name d @ ''.case.'' @ dc_name item @ ''.field'' @ nat_to_string j) (rt_sort (heap ! p)))
       (zip (dc_field_types item) [0..<length (dc_field_types item)])"

text \<open>The constants over which a hypothesis is generalized: one for every parameter but the one of the
  induction.\<close>

definition generalized ::
  "runtime_type list \<Rightarrow> check_decl \<Rightarrow> datatype_case_info \<Rightarrow> nat \<Rightarrow> bound_parameter list \<Rightarrow> nat \<Rightarrow> (zexpr \<times> zexpr) list" where
  "generalized heap d item j bound induction =
     map (\<lambda>k. (bp_term (bound ! k),
               mk_const (''Fine.check.'' @ cd_name d @ ''.ih.'' @ dc_name item @ ''.field'' @ nat_to_string j @ ''.arg'' @ nat_to_string k)
                 (rt_sort (heap ! bp_type (bound ! k)))))
       (filter (\<lambda>k. k \<noteq> induction) [0..<length bound])"

definition induction_hypothesis ::
  "runtime_type list \<Rightarrow> check_decl \<Rightarrow> zexpr \<Rightarrow> datatype_case_info \<Rightarrow> nat \<Rightarrow> bound_parameter list \<Rightarrow> nat \<Rightarrow> zexpr" where
  "induction_hypothesis heap d thm item j bound induction =
     (let others = generalized heap d item j bound induction;
          hypothesis = z_substitute (bp_term (bound ! induction) # map fst others)
                         (case_fields heap d item ! j # map snd others) thm in
      if others = [] then hypothesis
      else mk_quantifier QForall (SymStr (''fine.induction.'' @ cd_name d @ ''.'' @ dc_name item @ ''.field'' @ nat_to_string j))
             SymNull (map snd others) hypothesis)"

definition record_hypothesis ::
  "z3_world \<Rightarrow> check_decl \<Rightarrow> datatype_case_info \<Rightarrow> nat \<Rightarrow> zexpr \<Rightarrow> zexpr \<Rightarrow> nat \<Rightarrow> unit run" where
  "record_hypothesis w d item j field hypothesis parameter_count =
     rain_event w ''derive'' ''check.induction.hypothesis'' [check_scope d, ''constructor:'' @ dc_name item] ''fine.elaborator''
       (''Exact direct-field induction hypothesis, generalized over every non-induction '' @
        ''check parameter before branch verification'')
       [FString ''constructor'' (dc_name item), FNumber ''field_ordinal'' j, FTerm ''recursive_field'' field,
        FTerm ''hypothesis'' hypothesis, FNumber ''generalized_parameters'' (parameter_count - 1)]"

definition record_branch :: "z3_world \<Rightarrow> check_decl \<Rightarrow> datatype_case_info \<Rightarrow> zexpr \<Rightarrow> zexpr \<Rightarrow> zexpr \<Rightarrow> unit run" where
  "record_branch w d item guard hypotheses step =
     rain_event w ''derive'' ''check.induction.branch'' [check_scope d, ''constructor:'' @ dc_name item] ''fine.elaborator''
       (''Compiler-owned constructor branch with one exact generalized hypothesis per direct '' @
        ''recursive field; no guarded universal ranges over arbitrary datatype terms'')
       [FString ''constructor'' (dc_name item), FTerm ''guard'' guard, FTerm ''hypotheses'' hypotheses, FTerm ''step'' step]"

text \<open>One branch: it adds its hypotheses to all hypotheses, its step to all steps, and its recursive
  fields to the number of recursive positions.\<close>

definition induction_branch ::
  "z3_world \<Rightarrow> check_decl \<Rightarrow> zexpr \<Rightarrow> bound_parameter list \<Rightarrow> nat \<Rightarrow> zexpr \<times> zexpr \<times> nat \<Rightarrow> datatype_case_info \<Rightarrow>
   (zexpr \<times> zexpr \<times> nat) run" where
  "induction_branch w d thm bound induction = (\<lambda>(all_hypotheses, all_branches, positions) item.
     bindA (getA ru_heap) (\<lambda>heap.
     let self = bound ! induction;
         guard = mk_eq (bp_term self) (ZApp (dc_constructor item) (case_fields heap d item)) in
     bindA (foldA (\<lambda>(branch_hypotheses, all_hypotheses, positions) j.
       if dc_field_types item ! j \<noteq> bp_type self then retA (branch_hypotheses, all_hypotheses, positions)
       else let hypothesis = induction_hypothesis heap d thm item j bound induction in
            thenA (record_hypothesis w d item j (case_fields heap d item ! j) hypothesis (length bound))
            (retA (mk_and branch_hypotheses hypothesis, mk_and all_hypotheses hypothesis, Suc positions)))
       (bool_val True, all_hypotheses, positions) [0..<length (dc_field_types item)]) (\<lambda>(branch_hypotheses, all_hypotheses, positions).
     let step = mk_implies guard (mk_implies branch_hypotheses thm) in
     thenA (record_branch w d item guard branch_hypotheses step)
     (retA (all_hypotheses, mk_and all_branches step, positions)))))"

definition record_translation ::
  "z3_world \<Rightarrow> check_decl \<Rightarrow> string \<Rightarrow> nat \<Rightarrow> nat \<Rightarrow> nat \<Rightarrow> zexpr \<Rightarrow> zexpr \<Rightarrow> zexpr \<Rightarrow> unit run" where
  "record_translation w d induction_parameter case_count positions parameter_count thm hypothesis step =
     thenA (rain () (source_term w (cd_node_id d) (cd_span d) (if cd_reusable d then ''decl.proof'' else ''decl.check'') step
              ''generated'' [check_scope d]))
     (rain_event w ''transform'' ''check.induction.translate'' [check_scope d] ''fine.elaborator''
       (''Compiler-owned constructor induction with exact direct-field hypotheses generalized over '' @
        ''the remaining check parameters; Z3 receives no guarded arbitrary-subterm quantifier'')
       [FString ''parameter'' induction_parameter, FString ''order'' ''constructor-direct-field'',
        FNumber ''constructors'' case_count, FNumber ''recursive_positions'' positions,
        FNumber ''generalized_parameters'' (parameter_count - 1), FTerm ''theorem'' thm, FTerm ''hypothesis'' hypothesis,
        FTerm ''step'' step, FString ''responsibility'' ''fine-generated-constructor-induction''])"

text \<open>The hypotheses and the step of a check; without induction the step is the theorem.\<close>

definition induction_step :: "z3_world \<Rightarrow> check_decl \<Rightarrow> zexpr \<Rightarrow> bound_parameter list \<Rightarrow> (zexpr \<times> zexpr) run" where
  "induction_step w d thm bound =
     (case cd_induction_parameter d of
        None \<Rightarrow> retA (bool_val True, thm)
      | Some name \<Rightarrow>
        (case position_of (map bp_name bound) name of
           None \<Rightarrow> reject (the (cd_induction_span d)) (''unknown induction parameter `'' @ name @ ''`'')
         | Some induction \<Rightarrow>
           bindA (type_at (bp_type (bound ! induction))) (\<lambda>t.
           thenA (check_that (rt_kind t = rk_datatype) (the (cd_induction_span d))
                    ''direct-subterm induction requires a field-bearing datatype parameter'')
           (bindA (getA (\<lambda>s. di_cases (datatype_of s t))) (\<lambda>cases.
            bindA (foldA (induction_branch w d thm bound induction) (bool_val True, bool_val True, 0) cases) (\<lambda>(hypotheses, branches, positions).
            thenA (check_that (positions \<noteq> 0) (the (cd_induction_span d)) ''the induction datatype has no direct recursive fields'')
            (thenA (record_translation w d name (length cases) positions (length bound) thm hypotheses branches)
            (retA (hypotheses, branches)))))))))"

section \<open>The query\<close>

definition record_query :: "z3_world \<Rightarrow> check_decl \<Rightarrow> zexpr \<Rightarrow> zexpr \<Rightarrow> zexpr \<Rightarrow> zexpr \<Rightarrow> zexpr \<Rightarrow> unit run" where
  "record_query w d assumptions guarantees thm hypothesis query =
     thenA (rain_event w ''constraint'' ''check.counterexample.assert'' [check_scope d] ''fine.check''
       (if inducting d then ''Negation of Fine's compiler-generated direct-subterm induction step''
        else ''Conjunction of source assumptions and the negation of all source guarantees'')
       [FTerm ''assumptions'' assumptions, FTerm ''guarantees'' guarantees, FTerm ''theorem'' thm,
        FTerm ''induction_hypothesis'' hypothesis, FTerm ''assertion'' query])
     (rain_event w ''scope'' ''solver.query.open'' [check_scope d, check_query] ''fine.check''
       (if inducting d
        then ''Public solver assertion boundary with scoped read-only E-matching binding and '' @ ''on-clause observers''
        else ''Public solver assertion boundary'')
       [FString ''id'' check_query,
        FString ''purpose'' (if inducting d then ''refute the compiler-generated structural induction step''
                             else ''find a source-level counterexample''),
        FTerm ''assertion'' query, FString ''polarity'' ''counterexample-exists'',
        FBool ''induction_translation'' (inducting d), FBool ''mbqi'' (\<not> inducting d), FBool ''ematching'' True])"

definition check_params :: "check_decl \<Rightarrow> (string \<times> bool) list" where
  "check_params d =
     (if inducting d then [(''mbqi'', False), (''ematching'', True), (''rewriter.enable_der'', False)] else [])"

definition use_proofs :: "z3_world \<Rightarrow> check_decl \<Rightarrow> zexpr list run" where
  "use_proofs w d =
     bindA (getA ru_admitted_proofs) (\<lambda>proofs.
     mapA (\<lambda>(name, thm).
       thenA (rain_event w ''constraint'' ''proof.use'' [check_scope d, check_query] ''fine.check''
         ''Previously verified source proof admitted as a universally quantified SMT assumption''
         [FString ''proof'' name, FTerm ''theorem'' thm, FString ''consumer'' (cd_name d)])
       (retA thm)) proofs)"

definition outcome_text :: "check_outcome \<Rightarrow> string" where
  "outcome_text r = (case r of Sat _ \<Rightarrow> ''refuted'' | Unsat _ \<Rightarrow> ''verified'' | Unknown _ \<Rightarrow> ''unknown'')"

definition ask_counterexample :: "z3_world \<Rightarrow> check_decl \<Rightarrow> zexpr \<Rightarrow> check_outcome run" where
  "ask_counterexample w d query =
     bindA (use_proofs w d) (\<lambda>proofs.
     bindA (solver_check w (check_params d)
              (if inducting d
               then Some \<lparr>qo_within = [check_scope d, check_query], qo_ematching_enabled = True, qo_mbqi_enabled = False\<rparr>
               else None)
              (proofs @ [query]) []) (\<lambda>result.
     thenA (rain_event w ''transition'' ''solver.query.result'' [check_scope d, check_query] ''z3.public-api''
       ''Final public check result only; no claim about solver search or internal cause''
       [FString ''query'' check_query, FString ''status'' (check_text result),
        FString ''polarity'' ''counterexample-exists'', FString ''domain_outcome'' (outcome_text result)])
     (thenA (rain_event w ''scope'' ''solver.query.close'' [check_scope d, check_query] ''fine.check''
       ''Public solver query lifetime'' [FString ''id'' check_query])
     (retA result))))"

section \<open>A verified check\<close>

definition close_check :: "z3_world \<Rightarrow> check_decl \<Rightarrow> string \<Rightarrow> string \<Rightarrow> string \<Rightarrow> unit run" where
  "close_check w d producer coverage status =
     thenA (rain () (validate_terms w))
     (rain_event w ''scope'' (if cd_reusable d then ''proof.run.close'' else ''check.run.close'') [check_scope d] producer
       coverage [FString ''status'' status])"

text \<open>The universal closure of the theorem over the parameters, which later checks may use.\<close>

definition closed_theorem :: "check_decl \<Rightarrow> bound_parameter list \<Rightarrow> zexpr \<Rightarrow> zexpr" where
  "closed_theorem d bound thm = mk_quantifier QForall (SymStr (''fine.proof.'' @ cd_name d)) SymNull (map bp_term bound) thm"

definition admit_proof :: "z3_world \<Rightarrow> check_decl \<Rightarrow> zexpr \<Rightarrow> unit run" where
  "admit_proof w d admitted =
     thenA (modifyA (\<lambda>s. s\<lparr>ru_admitted_proofs := ru_admitted_proofs s @ [(cd_name d, admitted)]\<rparr>))
     (rain_event w ''transition'' ''proof.admit'' [check_scope d] ''fine.check''
       ''Only an unsatisfiable counterexample query permits universal closure and later reuse''
       [FString ''proof'' (cd_name d), FTerm ''theorem'' admitted, FString ''qid'' (''fine.proof.'' @ cd_name d),
        FBool ''verified_before_admission'' True])"

definition print_induction :: "check_decl \<Rightarrow> unit run" where
  "print_induction d =
     (case cd_induction_parameter d of
        None \<Rightarrow> retA () | Some name \<Rightarrow> print (''induction: direct-subterm on '' @ name @ [CHR 0x0A]))"

definition verified_check :: "z3_world \<Rightarrow> check_decl \<Rightarrow> bound_parameter list \<Rightarrow> zexpr \<Rightarrow> nat run" where
  "verified_check w d bound thm =
     thenA (whenA (cd_reusable d) (admit_proof w d (closed_theorem d bound thm)))
     (thenA (close_check w d ''fine.check'' ''Source check completed with no counterexample'' ''verified'')
     (thenA (print ((if cd_reusable d then ''verified-proof: '' else ''verified: '') @ cd_name d @ [CHR 0x0A]))
     (thenA (print_induction d)
     (thenA (print (''counterexample: none'' @ [CHR 0x0A]))
     (retA 0)))))"

section \<open>A refuted check\<close>

text \<open>The value of a parameter in the model, and its line of the counterexample.\<close>

definition counterexample_line :: "z3_world \<Rightarrow> check_decl \<Rightarrow> (zexpr \<Rightarrow> zexpr) \<Rightarrow> bound_parameter \<Rightarrow> (zexpr \<times> string) run" where
  "counterexample_line w d model parameter =
     (let v = model (bp_term parameter) in
      bindA (getA (\<lambda>s. (lift_typed_expression s v (bp_type parameter), rt_display (ru_heap s ! bp_type parameter)))) (\<lambda>(lifted, display).
      bindA (resultA lifted) (\<lambda>e.
      thenA (rain_event w ''derive'' ''model.eval-assignment'' [check_scope d] ''z3.public-api''
        ''Completed evaluation of one check parameter under the returned counterexample model''
        [FString ''evidence_query'' check_query, FString ''parameter'' (bp_name parameter), FTerm ''term'' (bp_term parameter),
         FTerm ''value'' v, FBool ''model_completion'' True, FString ''relation'' ''equality-under-this-model''])
      (retA (v, ''  '' @ bp_name parameter @ '': '' @ display @ '' = '' @ print_expression e @ '';'' @ [CHR 0x0A])))))"

definition counterexample_source :: "check_decl \<Rightarrow> string list \<Rightarrow> string" where
  "counterexample_source d lines = ''counterexample '' @ cd_name d @ '' {'' @ [CHR 0x0A] @ concat lines @ ''}'' @ [CHR 0x0A]"

definition parsed :: "string \<Rightarrow> document run" where
  "parsed source = resultA (case parse source of Inl e \<Rightarrow> Inl (SyntaxFailure e) | Inr doc \<Rightarrow> Inr doc)"

definition check_entry :: "z3_world \<Rightarrow> counterexample_entry \<times> bound_parameter \<times> zexpr \<Rightarrow> unit run" where
  "check_entry w = (\<lambda>(entry, parameter, v).
     thenA (guardA (ce_name entry = bp_name parameter) (RuntimeError ''counterexample parser changed a parameter name''))
     (bindA (resolve_type w (ce_type entry)) (\<lambda>parsed_type.
      bindA (elaborate_expression w [] (ce_value entry)) (\<lambda>(type, term).
      check_that (parsed_type = bp_type parameter \<and> type = bp_type parameter \<and> term = v) (ce_span entry)
        ''parse(print(lift(value))) violated exact AST identity''))))"

definition check_witness :: "z3_world \<Rightarrow> check_decl \<Rightarrow> bound_parameter list \<Rightarrow> zexpr list \<Rightarrow> string \<Rightarrow> unit run" where
  "check_witness w d bound values source =
     bindA (parsed source) (\<lambda>doc.
     case doc_declarations doc of
       [decl] \<Rightarrow>
         (case decl of
            CounterexampleDecl x \<Rightarrow>
              if xd_name x = cd_name d \<and> length (xd_entries x) = length bound
              then forA (zip (xd_entries x) (zip bound values)) (check_entry w)
              else throwA (RuntimeError ''internal counterexample parser changed the witness'')
          | _ \<Rightarrow> throwA (RuntimeError ''internal counterexample parser changed the witness''))
     | _ \<Rightarrow> throwA (RuntimeError ''internal counterexample parser returned extra declarations''))"

definition record_counterexample :: "z3_world \<Rightarrow> check_decl \<Rightarrow> string \<Rightarrow> unit run" where
  "record_counterexample w d source =
     thenA (rain_event w ''object'' ''fine.counterexample-witness'' [check_scope d] ''fine.runtime''
       (''Lifted, printed, parsed, and elaborated admitted value assignments with exact '' @ ''same-manager AST identity'')
       [FString ''declaration'' (cd_name d), FString ''source'' source, FBool ''parse_reify_exact_identity'' True])
     (thenA (rain_event w ''transition'' ''fine.witness.accept'' [check_scope d] ''fine.runtime''
       ''Satisfiable counterexample query plus Fine source round-trip identity check''
       [FString ''declaration'' (cd_name d), FString ''evidence_query'' check_query,
        FString ''status'' ''counterexample-witness'', FBool ''source_roundtrip_exact_identity'' True])
     (close_check w d ''fine.runtime'' ''Source check completed with a returned counterexample'' ''counterexample-witness''))"

definition refuted_check :: "z3_world \<Rightarrow> check_decl \<Rightarrow> bound_parameter list \<Rightarrow> (zexpr \<Rightarrow> zexpr) \<Rightarrow> nat run" where
  "refuted_check w d bound model =
     bindA (mapA (counterexample_line w d model) bound) (\<lambda>rows.
     let source = counterexample_source d (map snd rows) in
     thenA (check_witness w d bound (map fst rows) source)
     (thenA (record_counterexample w d source)
     (thenA (print ((if cd_reusable d then ''refuted-proof: '' else ''refuted: '') @ cd_name d @ [CHR 0x0A]))
     (thenA (print_induction d)
     (thenA (print source)
     (thenA (print (''parse(print(lift(values))): exact ast identity'' @ [CHR 0x0A]))
     (retA (if cd_reusable d then 1 else 0))))))))"

section \<open>A check\<close>

definition execute_plain_check :: "z3_world \<Rightarrow> check_decl \<Rightarrow> nat run" where
  "execute_plain_check w d =
     thenA (case cd_predicate_induction d of
              None \<Rightarrow> retA ()
            | Some e \<Rightarrow> reject (ex_span e) ''predicate induction target has no declared predicate'')
     (thenA (reserve_value_name (cd_name d) (cd_span d))
     (thenA (check_that (cd_parameters d \<noteq> []) (cd_span d) ''a check needs at least one parameter'')
     (bindA (bind_parameters w ''Fine.check.'' (cd_name d) (\<lambda>t. rt_kind t \<noteq> rk_table)
               ''check parameters admit Int, Bool, enums, datatypes, and tuples'' (cd_parameters d)) (\<lambda>bound.
      thenA (open_check w d (length bound))
      (bindA (check_conditions w d (bound_environment bound)) (\<lambda>(assumptions, guarantees).
       let thm = mk_implies assumptions guarantees in
       bindA (induction_step w d thm bound) (\<lambda>(hypothesis, step).
       thenA (record_query w d assumptions guarantees thm hypothesis (mk_not step))
       (bindA (ask_counterexample w d (mk_not step)) (\<lambda>result.
        case result of
          Unknown reason \<Rightarrow> reject (cd_span d) (''counterexample query was unknown: '' @ reason)
        | Unsat _ \<Rightarrow> verified_check w d bound thm
        | Sat model \<Rightarrow> refuted_check w d bound model)))))))))"

end
