(* ===== verification/Fine_Predicates.thy ===== *)
theory Fine_Predicates
  imports Fine_Check
begin

text \<open>
  \<^verbatim>\<open>Runtime::declare_predicate\<close> of \<^verbatim>\<open>src/src/fine/predicate_runtime.cpp\<close>: an indexed proposition with its
  constructors.  The elaborated constructors are retained for induction; a predicate none of whose
  constructors has an arbitrary field is also given to the fixedpoint engine, as one rule for each
  constructor.
\<close>

section \<open>Parameters\<close>

text \<open>A parameter of native type: a new name, then a type that is not a table.\<close>

definition native_parameter ::
  "z3_world \<Rightarrow> string \<Rightarrow> string \<Rightarrow> string \<Rightarrow> string \<Rightarrow> bound_parameter list \<Rightarrow> parameter \<times> nat \<Rightarrow> bound_parameter list run" where
  "native_parameter w prefix name what message bound = (\<lambda>(parameter, i).
     thenA (check_that (pa_name parameter \<notin> bp_name ` set bound) (pa_span parameter) (what @ '' `'' @ pa_name parameter @ ''`''))
     (bindA (resolve_type w (pa_type parameter)) (\<lambda>p. bindA (type_at p) (\<lambda>t.
      thenA (check_that (rt_kind t \<noteq> rk_table) (ty_span (pa_type parameter)) message)
      (retA (bound @ [\<lparr>bp_name = pa_name parameter, bp_type = p,
                       bp_term = mk_const (argument_name prefix name i) (rt_sort t)\<rparr>]))))))"

definition native_parameters ::
  "z3_world \<Rightarrow> string \<Rightarrow> string \<Rightarrow> string \<Rightarrow> string \<Rightarrow> parameter list \<Rightarrow> bound_parameter list run" where
  "native_parameters w prefix name what message ps =
     foldA (native_parameter w prefix name what message) [] (zip ps [0..<length ps])"

definition predicate_index :: "z3_world \<Rightarrow> string list \<times> type_ptr list \<Rightarrow> parameter \<Rightarrow> (string list \<times> type_ptr list) run" where
  "predicate_index w = (\<lambda>(names, types) index.
     thenA (check_that (pa_name index \<notin> set names) (pa_span index) (''duplicate predicate index `'' @ pa_name index @ ''`''))
     (bindA (resolve_type w (pa_type index)) (\<lambda>p. bindA (type_at p) (\<lambda>t.
      thenA (check_that (rt_kind t \<noteq> rk_table) (ty_span (pa_type index)) ''predicate indices must be native Fine values, not Table'')
      (retA (pa_name index # names, types @ [p]))))))"

section \<open>Atoms\<close>

definition predicate_scope :: "predicate_decl \<Rightarrow> string" where
  "predicate_scope d = ''predicate:'' @ pd_name d"

text \<open>A direct call of a declared predicate; the messages say what it is used for.\<close>

definition predicate_atom :: "z3_world \<Rightarrow> environment \<Rightarrow> string \<Rightarrow> string \<Rightarrow> expr \<Rightarrow> zexpr run" where
  "predicate_atom w env not_call not_proposition e =
     bindA (getA (\<lambda>s. ex_kind e = ek_call \<and> map_of (ru_predicates s) (ex_name e) \<noteq> None)) (\<lambda>call.
     thenA (check_that call (ex_span e) not_call)
     (bindA (elaborate_expression w env e) (\<lambda>(type, term).
      thenA (check_that (type = bool_type) (ex_span e) not_proposition)
      (retA term))))"

definition constructor_atom :: "z3_world \<Rightarrow> environment \<Rightarrow> string \<Rightarrow> expr \<Rightarrow> zexpr run" where
  "constructor_atom w env role e =
     predicate_atom w env (role @ '' must be a direct call to a declared predicate'') (role @ '' must be an indexed proposition'') e"

fun collect_names :: "expr \<Rightarrow> string list" where
  "collect_names (Expr k sp nm b it bop es i) = (if k = ek_name then [nm] else []) @ concat (map collect_names es)"

definition elaborate_indices :: "z3_world \<Rightarrow> environment \<Rightarrow> expr list \<Rightarrow> zexpr list run" where
  "elaborate_indices w env es = mapA (\<lambda>e. bindA (elaborate_expression w env e) (\<lambda>(_, term). retA term)) es"

section \<open>Premises\<close>

text \<open>The premises of a constructor: their conjunction, their terms, and the indices of the recursive ones.\<close>

definition constructor_premise_step ::
  "z3_world \<Rightarrow> string \<Rightarrow> environment \<Rightarrow> zexpr \<times> zexpr list \<times> zexpr list list \<Rightarrow> expr \<Rightarrow> (zexpr \<times> zexpr list \<times> zexpr list list) run" where
  "constructor_premise_step w name env = (\<lambda>(premises, terms, recursive) premise.
     bindA (constructor_atom w env ''predicate-constructor premise'' premise) (\<lambda>elaborated.
     bindA (if ex_name premise = name
            then bindA (elaborate_indices w env (ex_elements premise)) (\<lambda>indices. retA (recursive @ [indices]))
            else retA recursive) (\<lambda>recursive.
     retA (mk_and premises elaborated, terms @ [elaborated], recursive))))"

definition view_argument :: "z3_world \<Rightarrow> environment \<Rightarrow> view_info \<Rightarrow> expr \<times> nat \<Rightarrow> typed_expression run" where
  "view_argument w env view = (\<lambda>(e, i).
     bindA (elaborate_expression w env e) (\<lambda>argument. bindA (type_at (vi_parameter_types view ! i)) (\<lambda>t.
     thenA (check_that (fst argument = vi_parameter_types view ! i) (ex_span e)
              (''constrained-view argument '' @ nat_to_string (i + 1) @ '' must have type `'' @ rt_display t @ ''`''))
     (retA argument))))"

definition view_requirement :: "z3_world \<Rightarrow> environment \<Rightarrow> expr list \<Rightarrow> zexpr run" where
  "view_requirement w env requirements =
     foldA (\<lambda>result requirement.
       bindA (elaborate_expression w env requirement) (\<lambda>(type, term).
       thenA (guardA (type = bool_type) (RuntimeError ''validated view requirement changed type''))
       (retA (mk_and result term)))) (bool_val True) requirements"

definition availability_witness :: "z3_world \<Rightarrow> environment \<Rightarrow> view_info \<Rightarrow> zexpr option run" where
  "availability_witness w env view =
     (case vi_witness view of
        None \<Rightarrow> retA None
      | Some e \<Rightarrow>
        bindA (elaborate_expression w env e) (\<lambda>(type, term).
        thenA (guardA (type = vi_carrier view) (RuntimeError ''validated view witness changed type''))
        (retA (Some term))))"

definition scoped_premise :: "z3_world \<Rightarrow> string \<Rightarrow> environment \<Rightarrow> expr \<Rightarrow> zexpr run" where
  "scoped_premise w name env e =
     bindA (predicate_atom w env ''an arbitrary-fresh premise must call a declared predicate''
              ''an arbitrary-fresh premise must be an indexed proposition'' e) (\<lambda>elaborated.
     thenA (check_that (ex_name e = name) (ex_span e)
              (''the first arbitrary-fresh slice requires a recursive premise on `'' @ name @ ''`''))
     (retA elaborated))"

definition witness_field :: "string \<Rightarrow> zexpr option \<Rightarrow> field_spec" where
  "witness_field name e = (case e of None \<Rightarrow> FString name [] | Some e \<Rightarrow> FTerm name e)"

definition record_field :: "z3_world \<Rightarrow> predicate_decl \<Rightarrow> predicate_constructor \<Rightarrow> nat \<Rightarrow> arbitrary_field \<Rightarrow> unit run" where
  "record_field w d c ordinal field =
     rain_event w ''derive'' ''fine.predicate-constructor.arbitrary-field'' [predicate_scope d] ''fine.elaborator''
       (''Compiler-owned arbitrary-fresh derivation field; its view requirement and recursive premise are '' @
        ''retained and are deliberately not inserted into a Horn body'')
       [FString ''predicate'' (pd_name d), FString ''constructor'' (pc_name c), FNumber ''field_ordinal'' ordinal,
        FString ''binder'' (af_binder field), FTerm ''binder_term'' (af_binder_term field), FString ''view'' (af_view_name field),
        FTerm ''requirement'' (af_requirement field), witness_field ''availability_witness'' (af_availability_witness field),
        FNumber ''recursive_premises'' (length (af_premise_terms field)), FBool ''lowered_to_horn'' False]"

text \<open>One arbitrary field, in the scope of the constructor's parameters.\<close>

definition arbitrary_field_body ::
  "z3_world \<Rightarrow> predicate_decl \<Rightarrow> predicate_constructor \<Rightarrow> bound_parameter list \<Rightarrow> arbitrary_premise \<times> nat \<Rightarrow> arbitrary_field run" where
  "arbitrary_field_body w d c bound = (\<lambda>(field, ordinal).
     let env = bound_environment bound in
     thenA (check_that (length (pc_arbitrary_premises c) = 1) (ap_span field)
              ''the first arbitrary-fresh slice admits exactly one such field per constructor'')
     (thenA (check_that (ap_binder field \<notin> bp_name ` set bound) (ap_span field)
               (''arbitrary-fresh name `'' @ ap_binder field @ ''` shadows a constructor parameter''))
     (bindA (getA (\<lambda>s. map_of (ru_views s) (ap_view_name field))) (\<lambda>found.
      case found of
        None \<Rightarrow> reject (ap_span field) (''unknown constrained view `'' @ ap_view_name field @ ''`'')
      | Some view \<Rightarrow>
        thenA (check_that (length (ap_view_arguments field) = length (vi_parameter_types view)) (ap_span field)
                 (''constrained view `'' @ ap_view_name field @ ''` expects '' @ nat_to_string (length (vi_parameter_types view)) @ '' arguments''))
        (bindA (mapA (view_argument w env view) (zip (ap_view_arguments field) [0..<length (ap_view_arguments field)])) (\<lambda>arguments.
         bindA (type_at (vi_carrier view)) (\<lambda>carrier.
         let binder = mk_const (''Fine.predicate.'' @ pd_name d @ ''.'' @ pc_name c @ ''.arbitrary'' @ nat_to_string ordinal) (rt_sort carrier);
             witness_env = zip (vi_parameter_names view) arguments;
             requirement_env = emplace ''value'' (vi_carrier view, binder) witness_env;
             scoped_env = emplace (ap_binder field) (vi_carrier view, binder) env in
         thenA (rain () (source_term w (ap_node_id field) (ap_span field) ''predicate.arbitrary-field'' binder ''generated'' [predicate_scope d]))
         (bindA (view_requirement w requirement_env (vi_requirements view)) (\<lambda>requirement.
          bindA (availability_witness w witness_env view) (\<lambda>witness.
          bindA (mapA (scoped_premise w (pd_name d) scoped_env) (ap_premises field)) (\<lambda>terms.
          let retained = \<lparr>af_binder = ap_binder field, af_view_name = ap_view_name field, af_binder_term = binder,
                af_requirement = requirement, af_premise_terms = terms, af_recursive_premise_indices = map z_args terms,
                af_availability_witness = witness\<rparr> in
          thenA (record_field w d c ordinal retained) (retA retained))))))))))))"

definition arbitrary_field_step ::
  "z3_world \<Rightarrow> predicate_decl \<Rightarrow> predicate_constructor \<Rightarrow> bound_parameter list \<Rightarrow> arbitrary_premise \<times> nat \<Rightarrow> arbitrary_field run" where
  "arbitrary_field_step w d c bound field = capturing [predicate_scope d] (arbitrary_field_body w d c bound field)"

section \<open>Rules\<close>

definition constructor_rule :: "zexpr list \<Rightarrow> zexpr list \<Rightarrow> zexpr \<Rightarrow> zexpr \<Rightarrow> zexpr" where
  "constructor_rule formals premise_terms premises conclusion =
     (let rule = (if premise_terms = [] then conclusion else mk_implies premises conclusion)
      in if formals = [] then rule else mk_forall formals rule)"

definition record_rule ::
  "z3_world \<Rightarrow> predicate_decl \<Rightarrow> predicate_constructor \<Rightarrow> bool \<Rightarrow> zexpr \<Rightarrow> zexpr \<Rightarrow> nat \<Rightarrow> nat \<Rightarrow> unit run" where
  "record_rule w d c horn rule conclusion premise_count recursive_count =
     thenA (rain () (source_term w (pd_node_id d) (pd_span d) ''decl.predicate'' rule ''generated'' [predicate_scope d]))
     (rain_event w ''derive'' (if horn then ''fine.predicate-constructor.rule'' else ''fine.predicate-constructor.branch'')
       [predicate_scope d] ''fine.elaborator''
       (if horn then ''Strictly-positive first-order constructor compiled to one least-relation Horn rule''
        else ''First-order constructor retained for compiler-owned induction but not registered as a '' @
             ''Horn rule because another constructor has an arbitrary field'')
       [FString ''predicate'' (pd_name d), FString ''constructor'' (pc_name c), FTerm ''conclusion'' conclusion,
        FNumber ''premises'' premise_count, FNumber ''recursive_premises'' recursive_count, FBool ''lowered_to_horn'' horn,
        FBool ''derivation_witness_erased'' True, FTerm (if horn then ''rule'' else ''branch_schema'') rule])"

definition add_rule :: "zexpr \<Rightarrow> string \<Rightarrow> unit run" where
  "add_rule rule name = modifyA (\<lambda>s. s\<lparr>ru_rules := ru_rules s @ [(rule, name)]\<rparr>)"

definition register_relation :: "zdecl \<Rightarrow> unit run" where
  "register_relation relation = modifyA (\<lambda>s. s\<lparr>ru_relations := ru_relations s @ [relation]\<rparr>)"

section \<open>Constructors\<close>

definition check_conclusion :: "predicate_constructor \<Rightarrow> unit run" where
  "check_conclusion c =
     forA (pc_parameters c) (\<lambda>parameter.
       check_that (pa_name parameter \<in> set (collect_names (pc_result c))) (pa_span parameter)
         (''parameter `'' @ pa_name parameter @ ''` does not occur in the constructor result; a premise-only '' @
          ''parameter would be one-witness search, not a universal constructor field''))"

definition retain_constructor :: "string \<Rightarrow> predicate_constructor_info \<Rightarrow> unit run" where
  "retain_constructor name c =
     modifyA (\<lambda>s. s\<lparr>ru_predicates := map (\<lambda>(n, info). (n, if n = name then info\<lparr>pri_constructors := pri_constructors info @ [c]\<rparr> else info))
       (ru_predicates s)\<rparr>)"

definition declare_constructor ::
  "z3_world \<Rightarrow> predicate_decl \<Rightarrow> bool \<Rightarrow> string list \<Rightarrow> predicate_constructor \<Rightarrow> string list run" where
  "declare_constructor w d horn names c =
     thenA (check_that (pc_name c \<notin> set names) (pc_span c) (''duplicate predicate constructor `'' @ pc_name c @ ''`''))
     (bindA (native_parameters w ''Fine.predicate.'' (pd_name d @ ''.'' @ pc_name c) ''duplicate predicate-constructor parameter''
               ''predicate-constructor parameters must be native Fine values, not Table'' (pc_parameters c)) (\<lambda>bound.
      let env = bound_environment bound; formals = map bp_term bound in
      bindA (constructor_atom w env ''predicate-constructor result'' (pc_result c)) (\<lambda>conclusion.
      thenA (check_that (ex_name (pc_result c) = pd_name d) (ex_span (pc_result c))
               (''constructor `'' @ pc_name c @ ''` must produce `'' @ pd_name d @ ''(...)`''))
      (bindA (elaborate_indices w env (ex_elements (pc_result c))) (\<lambda>result_indices.
       thenA (check_conclusion c)
       (bindA (foldA (constructor_premise_step w (pd_name d) env) (bool_val True, [], []) (pc_premises c)) (\<lambda>(premises, terms, recursive).
        bindA (mapA (arbitrary_field_step w d c bound) (zip (pc_arbitrary_premises c) [0..<length (pc_arbitrary_premises c)])) (\<lambda>arbitrary.
        let rule = constructor_rule formals terms premises conclusion in
        thenA (whenA (pc_arbitrary_premises c = [])
          (thenA (whenA horn (add_rule rule (pd_name d @ ''.'' @ pc_name c)))
           (record_rule w d c horn rule conclusion (length terms) (length recursive))))
        (thenA (retain_constructor (pd_name d)
           \<lparr>pci_name = pc_name c, pci_parameters = formals, pci_result_indices = result_indices, pci_premise_terms = terms,
            pci_recursive_premise_indices = recursive, pci_arbitrary_fields = arbitrary, pci_premise_count = length (pc_premises c)\<rparr>)
        (retA (pc_name c # names)))))))))))"

section \<open>Predicates\<close>

definition record_predicate :: "z3_world \<Rightarrow> predicate_decl \<Rightarrow> bool \<Rightarrow> unit run" where
  "record_predicate w d horn =
     rain_event w ''object'' ''fine.predicate.relation'' [predicate_scope d] ''fine.elaborator''
       (if horn then ''Erased indexed proposition represented by a native-sort least relation''
        else ''Erased indexed proposition represented for induction by a compiler-owned '' @
             ''constructor table and relation-shaped term handle; no constructor is registered '' @
             ''with fixedpoint because one has an arbitrary field'')
       [FString ''predicate'' (pd_name d), FString ''relation'' (pd_name d), FNumber ''indices'' (length (pd_indices d)),
        FBool ''least_relation'' horn, FBool ''horn_complete'' horn, FBool ''derivation_witnesses_erased'' True]"

definition declare_predicate :: "z3_world \<Rightarrow> predicate_decl \<Rightarrow> unit run" where
  "declare_predicate w d =
     thenA (reserve_value_name (pd_name d) (pd_span d))
     (bindA (foldA (predicate_index w) ([], []) (pd_indices d)) (\<lambda>(_, types).
      bindA (getA ru_heap) (\<lambda>heap.
      let horn = list_all (\<lambda>c. pc_arbitrary_premises c = []) (pd_constructors d);
          relation = ZDecl (pd_name d) Uninterpreted (map (\<lambda>p. rt_sort (heap ! p)) types) SBool;
          info = \<lparr>pri_name = pd_name d, pri_index_types = types, pri_relation = relation, pri_constructors = [], pri_horn_complete = horn\<rparr> in
      thenA (whenA horn (register_relation relation))
      (thenA (modifyA (\<lambda>s. s\<lparr>ru_predicates := emplace (pd_name d) info (ru_predicates s)\<rparr>))
      (thenA (record_predicate w d horn)
      (thenA (foldA (declare_constructor w d horn) [] (pd_constructors d))
      (retA ())))))))"

end
