(* ===== verification/Fine_Predicate_Checks.thy ===== *)
theory Fine_Predicate_Checks
  imports Fine_Predicates
begin

text \<open>
  The checks of \<^verbatim>\<open>src/src/fine/predicate_runtime.cpp\<close>: membership in a least relation and invariants of
  one, which ask the fixedpoint engine, and induction over the constructors of a predicate, which asks
  the solver once for each constructor.
\<close>

section \<open>Queries of the fixedpoint engine\<close>

definition run_fixedpoint_callback ::
  "z3_world \<Rightarrow> fixedpoint_observer \<times> recorder \<Rightarrow> fixedpoint_callback \<Rightarrow> fixedpoint_observer \<times> recorder" where
  "run_fixedpoint_callback w st c =
     (case c of OnLemma e level \<Rightarrow> on_lemma w e level st | OnPredecessor \<Rightarrow> on_predecessor w st | OnUnfold \<Rightarrow> on_unfold w st)"

definition observe_fixedpoint :: "z3_world \<Rightarrow> string list \<Rightarrow> fixedpoint_callback list \<Rightarrow> unit recording" where
  "observe_fixedpoint w within callbacks r =
     (case foldl (run_fixedpoint_callback w)
             (\<lparr>fo_within = within, fo_failure = None, fo_predecessor_count = 0, fo_unfold_count = 0\<rparr>, r) callbacks of
        (ob, r') \<Rightarrow> (rethrow_if_failed ob, r'))"

text \<open>\<^verbatim>\<open>fixedpoint_.query(q)\<close> with the observer that a recorder attaches, and what the observer rethrows.\<close>

definition fixedpoint_query :: "z3_world \<Rightarrow> string list \<Rightarrow> zexpr \<Rightarrow> (query_outcome \<times> zexpr) run" where
  "fixedpoint_query w within q =
     bindA (getA (\<lambda>s. (st_queries s, st_rainfall s \<noteq> None, ru_relations s, ru_rules s))) (\<lambda>(n, observed, relations, rules).
     thenA (modifyA (\<lambda>s. s\<lparr>st_queries := Suc n\<rparr>))
     (case w_query w n observed relations rules q of (callbacks, outcome, answer) \<Rightarrow>
      thenA (rain () (observe_fixedpoint w within callbacks)) (retA (outcome, answer))))"

definition predicate_run_scope :: "check_decl \<Rightarrow> string" where
  "predicate_run_scope d = ''predicate-check:'' @ cd_name d"

text \<open>Elaboration with capture switched on for a check; it is switched off afterwards.\<close>

definition capture_for_check :: "string \<Rightarrow> 'a run \<Rightarrow> 'a run" where
  "capture_for_check scope p =
     thenA (modifyA (\<lambda>s. s\<lparr>ru_capture_source_edges := True, ru_source_edge_within := [scope]\<rparr>))
     (bindA p (\<lambda>x.
     thenA (modifyA (\<lambda>s. s\<lparr>ru_capture_source_edges := False, ru_source_edge_within := []\<rparr>))
     (retA x)))"

text \<open>The predicate that an expression calls directly.\<close>

definition direct_predicate :: "runtime \<Rightarrow> expr \<Rightarrow> predicate_info option" where
  "direct_predicate s e = (if ex_kind e = ek_call then map_of (ru_predicates s) (ex_name e) else None)"

section \<open>Membership\<close>

definition open_membership :: "z3_world \<Rightarrow> check_decl \<Rightarrow> string \<Rightarrow> zexpr \<Rightarrow> unit run" where
  "open_membership w d predicate query =
     rain_event w ''scope'' ''predicate-check.run.open'' [predicate_run_scope d] ''fine.fixedpoint''
       (''One public least-relation membership query; records admitted constructor rules, public '' @
        ''Spacer callback boundaries, and the public result'')
       [FString ''declaration'' (cd_name d), FString ''predicate'' predicate, FTerm ''query'' query, FBool ''ground'' True]"

definition close_membership :: "z3_world \<Rightarrow> check_decl \<Rightarrow> zexpr \<Rightarrow> zexpr \<Rightarrow> bool \<Rightarrow> unit run" where
  "close_membership w d query answer derived =
     thenA (rain_event w ''transition'' ''solver.fixedpoint.result'' [predicate_run_scope d] ''z3.public-api''
       ''Final public fixedpoint result only; no claim about internal rule-search steps''
       [FTerm ''query'' query, FTerm ''answer'' answer, FString ''status'' (if derived then ''sat'' else ''unsat''),
        FString ''domain_outcome'' (if derived then ''derived'' else ''not-derived'')])
     (thenA (rain () (validate_terms w))
     (rain_event w ''scope'' ''predicate-check.run.close'' [predicate_run_scope d] ''fine.fixedpoint''
       ''Ground least-relation membership completed''
       [FString ''status'' (if derived then ''derived'' else ''not-derived'')]))"

definition execute_membership :: "z3_world \<Rightarrow> check_decl \<Rightarrow> nat run" where
  "execute_membership w d =
     thenA (check_that (cd_assumes d = []) (cd_span d) ''a least-relation membership check cannot yet mix ordinary assumptions'')
     (thenA (check_that (length (cd_ensures d) = 1) (cd_span d) ''a least-relation membership check needs exactly one ensured atom'')
     (let source_query = hd (cd_ensures d) in
      bindA (getA (\<lambda>s. direct_predicate s source_query)) (\<lambda>found.
      case found of
        None \<Rightarrow> reject (ex_span source_query) ''the ensured condition must be a direct predicate call''
      | Some predicate \<Rightarrow>
        thenA (check_that (pri_horn_complete predicate) (ex_span source_query)
                 (''least-relation membership is unavailable because `'' @ ex_name source_query @
                  ''` has an arbitrary-fresh constructor retained outside Horn lowering''))
        (bindA (capture_for_check (predicate_run_scope d) (elaborate_expression w [] source_query)) (\<lambda>(_, query).
         thenA (open_membership w d (ex_name source_query) query)
         (bindA (fixedpoint_query w [predicate_run_scope d] query) (\<lambda>(outcome, answer).
          thenA (case outcome of
                   QueryUnknown reason \<Rightarrow> reject (ex_span source_query) (''least-relation membership was unknown: '' @ reason)
                 | _ \<Rightarrow> retA ())
          (let derived = (outcome = QuerySat) in
           thenA (close_membership w d query answer derived)
           (thenA (print ((if derived then ''derived: '' else ''not-derived: '') @ cd_name d @ [CHR 0x0A]))
           (thenA (print (''predicate: '' @ ex_name source_query @ [CHR 0x0A]))
           (thenA (print (''derivation-witness: erased'' @ [CHR 0x0A]))
           (retA 0))))))))))))"

section \<open>Invariants\<close>

fun reject_predicate_in_guarantee :: "expr \<Rightarrow> unit run" where
  "reject_predicate_in_guarantee (Expr k sp nm b it bop es i) =
     thenA (bindA (getA (\<lambda>s. k = ek_call \<and> map_of (ru_predicates s) nm \<noteq> None)) (\<lambda>call.
            check_that (\<not> call) sp ''predicate atoms are not yet admitted inside invariant guarantees''))
     (forA es reject_predicate_in_guarantee)"

definition invariant_rule :: "check_decl \<Rightarrow> bound_parameter list \<Rightarrow> zexpr \<Rightarrow> zexpr \<Rightarrow> zexpr \<Rightarrow> zexpr" where
  "invariant_rule d bound membership guarantees query =
     mk_forall (map bp_term bound) (mk_implies (mk_and membership (mk_not guarantees)) query)"

definition open_invariant :: "z3_world \<Rightarrow> check_decl \<Rightarrow> string \<Rightarrow> zexpr \<Rightarrow> zexpr \<Rightarrow> zexpr \<Rightarrow> zexpr \<Rightarrow> unit run" where
  "open_invariant w d predicate membership guarantees rule query =
     thenA (rain () (source_term w (cd_node_id d) (cd_span d) ''decl.check'' rule ''generated'' [predicate_run_scope d]))
     (thenA (rain_event w ''scope'' ''predicate-check.run.open'' [predicate_run_scope d] ''fine.fixedpoint''
       (''One counterexample-reachability query over a least predicate relation; exposes '' @
        ''compiler translation, public Spacer callbacks, and the public answer, not rule matches '' @
        ''or a source derivation witness'')
       [FString ''declaration'' (cd_name d), FString ''predicate'' predicate,
        FNumber ''parameters'' (length (cd_parameters d)), FBool ''ground'' False])
     (rain_event w ''transform'' ''predicate-check.invariant.translate'' [predicate_run_scope d] ''fine.elaborator''
       ''Compiler-owned negated-guarantee reachability rule over the least predicate relation''
       [FTerm ''membership'' membership, FTerm ''guarantees'' guarantees, FTerm ''counterexample_rule'' rule,
        FTerm ''query'' query, FString ''polarity'' ''counterexample-reachable'']))"

definition close_invariant :: "z3_world \<Rightarrow> check_decl \<Rightarrow> zexpr \<Rightarrow> zexpr \<Rightarrow> bool \<Rightarrow> unit run" where
  "close_invariant w d query answer verified =
     thenA (rain_event w ''transition'' ''solver.fixedpoint.result'' [predicate_run_scope d] ''z3.public-api''
       (''Final public fixedpoint result and answer; retained callback lemmas are not claimed to '' @ ''cause this result'')
       [FTerm ''query'' query, FTerm ''answer'' answer, FString ''status'' (if verified then ''unsat'' else ''sat''),
        FString ''polarity'' ''counterexample-reachable'', FString ''domain_outcome'' (if verified then ''verified'' else ''refuted'')])
     (thenA (rain () (validate_terms w))
     (rain_event w ''scope'' ''predicate-check.run.close'' [predicate_run_scope d] ''fine.fixedpoint''
       ''Open predicate invariant check completed'' [FString ''status'' (if verified then ''verified'' else ''refuted'')]))"

definition execute_predicate_invariant :: "z3_world \<Rightarrow> check_decl \<Rightarrow> nat run" where
  "execute_predicate_invariant w d =
     thenA (check_that (length (cd_assumes d) = 1) (cd_span d) ''a predicate invariant needs exactly one assumed predicate atom'')
     (let source = hd (cd_assumes d) in
      bindA (getA (\<lambda>s. direct_predicate s source)) (\<lambda>found.
      case found of
        None \<Rightarrow> reject (ex_span source) ''the invariant assumption must be a direct predicate call''
      | Some predicate \<Rightarrow>
        thenA (check_that (pri_horn_complete predicate) (ex_span source)
                 (''fixedpoint invariant checking is unavailable because `'' @ ex_name source @
                  ''` has an arbitrary-fresh constructor retained outside Horn lowering''))
        (thenA (forA (cd_ensures d) reject_predicate_in_guarantee)
        (bindA (native_parameters w ''Fine.predicate-check.'' (cd_name d) ''duplicate check parameter''
                  ''predicate invariant parameters must be native Fine values, not Table'' (cd_parameters d)) (\<lambda>bound.
         bindA (capture_for_check (predicate_run_scope d)
           (bindA (elaborate_expression w (bound_environment bound) source) (\<lambda>(_, membership).
            bindA (conjoin w (bound_environment bound) ''predicate invariant guarantee must have type Bool'' (cd_ensures d)) (\<lambda>guarantees.
            retA (membership, guarantees))))) (\<lambda>(membership, guarantees).
         let counterexample = ZDecl (''Fine.predicate-check.'' @ cd_name d @ ''.counterexample'') Uninterpreted [] SBool;
             query = ZApp counterexample [];
             rule = invariant_rule d bound membership guarantees query in
         thenA (register_relation counterexample)
         (thenA (add_rule rule (cd_name d @ ''.counterexample''))
         (thenA (open_invariant w d (ex_name source) membership guarantees rule query)
         (bindA (fixedpoint_query w [predicate_run_scope d] query) (\<lambda>(outcome, answer).
          thenA (case outcome of
                   QueryUnknown reason \<Rightarrow> reject (cd_span d) (''predicate invariant query was unknown: '' @ reason)
                 | _ \<Rightarrow> retA ())
          (let verified = (outcome = QueryUnsat) in
           thenA (close_invariant w d query answer verified)
           (thenA (print ((if verified then ''verified-predicate-invariant: '' else ''refuted-predicate-invariant: '') @ cd_name d @ [CHR 0x0A]))
           (thenA (print (''predicate: '' @ ex_name source @ [CHR 0x0A]))
           (thenA (print ((if verified then ''counterexample: none''
                           else ''counterexample: fixedpoint reachability only (answer retained by rainfall)'') @ [CHR 0x0A]))
           (retA 0)))))))))))))))"

end
