(* ===== verification/Fine_Predicate_Induction.thy ===== *)
theory Fine_Predicate_Induction
  imports Fine_Predicate_Checks
begin

text \<open>
  \<^verbatim>\<open>Runtime::execute_predicate_induction\<close> of \<^verbatim>\<open>src/src/fine/predicate_runtime.cpp\<close>: induction over the
  constructors of a predicate.  Every constructor is one branch with its own query; the other
  predicates that the theorem mentions are unfolded by one layer of their constructors.
\<close>

section \<open>The problem\<close>

fun contains_predicate :: "runtime \<Rightarrow> expr \<Rightarrow> bool" where
  "contains_predicate s (Expr k sp nm b it bop es i) \<longleftrightarrow>
     direct_predicate s (Expr k sp nm b it bop es i) \<noteq> None \<or> list_ex (contains_predicate s) es"

text \<open>What the checks of the declaration establish before anything is elaborated, and the terms that
  elaboration adds.\<close>

record induction_problem =
  ip_declaration :: check_decl
  ip_target :: expr
  ip_predicate :: predicate_info
  ip_index_terms :: "zexpr list"
  ip_context_terms :: "zexpr list"
  ip_auxiliary_predicates :: "predicate_info option list"
  ip_goal_predicate :: "predicate_info option"
  ip_target_term :: zexpr
  ip_auxiliary_assumptions :: zexpr
  ip_auxiliary_terms :: "zexpr list"
  ip_guarantees :: zexpr
  ip_goal_atom :: "zexpr option"

definition induction_parameter_step ::
  "z3_world \<Rightarrow> check_decl \<Rightarrow> expr \<Rightarrow> predicate_info \<Rightarrow> bound_parameter list \<Rightarrow> parameter \<times> nat \<Rightarrow> bound_parameter list run" where
  "induction_parameter_step w d target predicate bound = (\<lambda>(parameter, i).
     thenA (check_that (pa_name parameter \<notin> bp_name ` set bound) (pa_span parameter)
              (''duplicate check parameter `'' @ pa_name parameter @ ''`''))
     (bindA (resolve_type w (pa_type parameter)) (\<lambda>p. bindA (getA ru_heap) (\<lambda>heap.
      thenA (whenA (i < length (pri_index_types predicate))
        (thenA (check_that (p = pri_index_types predicate ! i) (ty_span (pa_type parameter))
                  (''predicate-induction parameter '' @ nat_to_string (i + 1) @ '' must have type `'' @
                   rt_display (heap ! (pri_index_types predicate ! i)) @ ''`''))
        (check_that (ex_kind (ex_elements target ! i) = ek_name \<and> ex_name (ex_elements target ! i) = pa_name parameter)
           (ex_span (ex_elements target ! i)) ''predicate-induction indices must be the leading check parameters in declaration order'')))
      (retA (bound @ [\<lparr>bp_name = pa_name parameter, bp_type = p,
                       bp_term = mk_const (argument_name ''Fine.predicate-induction.'' (cd_name d) i) (rt_sort (heap ! p))\<rparr>]))))))"

definition auxiliary_predicate :: "expr \<Rightarrow> predicate_info option run" where
  "auxiliary_predicate condition =
     bindA (getA (\<lambda>s. (direct_predicate s condition, contains_predicate s condition))) (\<lambda>(item, contained).
     thenA (check_that (item \<noteq> None \<or> \<not> contained) (ex_span condition)
              ''a predicate-induction context may use predicate evidence only as a direct assumed atom'')
     (retA item))"

definition goal_predicate :: "check_decl \<Rightarrow> predicate_info option run" where
  "goal_predicate d =
     foldA (\<lambda>goal condition.
       bindA (getA (\<lambda>s. (direct_predicate s condition, contains_predicate s condition))) (\<lambda>(item, contained).
       if \<not> contained then retA goal
       else thenA (check_that (length (cd_ensures d) = 1 \<and> item \<noteq> None) (ex_span condition)
                     ''predicate induction admits a predicate guarantee only as its one direct ensured atom'')
            (retA item))) None (cd_ensures d)"

definition induction_scope :: "check_decl \<Rightarrow> string" where
  "induction_scope d = (if cd_reusable d then ''proof:'' else ''predicate-induction:'') @ cd_name d"

text \<open>The conjunction of conditions, and their terms.\<close>

definition conjoin_terms :: "z3_world \<Rightarrow> environment \<Rightarrow> string \<Rightarrow> expr list \<Rightarrow> (zexpr \<times> zexpr list) run" where
  "conjoin_terms w env message conditions =
     foldA (\<lambda>(conjunction, terms) condition.
       bindA (elaborate_expression w env condition) (\<lambda>(type, term).
       thenA (check_that (type = bool_type) (ex_span condition) message)
       (retA (mk_and conjunction term, terms @ [term])))) (bool_val True, []) conditions"

definition induction_inputs :: "z3_world \<Rightarrow> check_decl \<Rightarrow> expr \<Rightarrow> induction_problem run" where
  "induction_inputs w d target =
     bindA (getA (\<lambda>s. map_of (ru_predicates s) (ex_name target))) (\<lambda>found.
     case found of
       None \<Rightarrow> reject (ex_span target) ''`inducts` target must call a declared predicate''
     | Some predicate \<Rightarrow>
       thenA (check_that (cd_assumes d \<noteq> []) (cd_span d) ''predicate induction needs its target atom first in `assumes`'')
       (let assumed = hd (cd_assumes d); index_count = length (pri_index_types predicate) in
        thenA (check_that (ex_kind assumed = ek_call \<and> ex_name assumed = ex_name target) (ex_span assumed)
                 ''predicate induction assumption must be the same predicate as `inducts`'')
        (thenA (check_that (index_count \<le> length (cd_parameters d) \<and> length (ex_elements target) = index_count) (ex_span target)
                  (''predicate induction needs one leading check parameter per predicate index; later parameters are '' @ ''generalized context''))
        (bindA (foldA (induction_parameter_step w d target predicate) [] (zip (cd_parameters d) [0..<length (cd_parameters d)])) (\<lambda>bound.
         bindA (mapA auxiliary_predicate (tl (cd_assumes d))) (\<lambda>auxiliary.
         bindA (goal_predicate d) (\<lambda>goal.
         let env = bound_environment bound in
         capture_for_check (induction_scope d)
           (bindA (elaborate_expression w env target) (\<lambda>(_, target_term).
            bindA (elaborate_expression w env assumed) (\<lambda>(_, assumed_term).
            thenA (check_that (target_term = assumed_term) (ex_span assumed) ''`inducts` target and assumed predicate atom must elaborate identically'')
            (bindA (conjoin_terms w env ''predicate-induction context assumption must have type Bool'' (tl (cd_assumes d))) (\<lambda>(assumptions, terms).
             bindA (conjoin_terms w env ''predicate-induction guarantee must have type Bool'' (cd_ensures d)) (\<lambda>(guarantees, goals).
             retA \<lparr>ip_declaration = d, ip_target = target, ip_predicate = predicate,
                   ip_index_terms = map bp_term (take index_count bound), ip_context_terms = map bp_term (drop index_count bound),
                   ip_auxiliary_predicates = auxiliary, ip_goal_predicate = goal, ip_target_term = target_term,
                   ip_auxiliary_assumptions = assumptions, ip_auxiliary_terms = terms, ip_guarantees = guarantees,
                   ip_goal_atom = (if goal = None then None else Some (last goals))\<rparr>)))))))))))))"

definition open_induction :: "z3_world \<Rightarrow> induction_problem \<Rightarrow> unit run" where
  "open_induction w ip =
     (let d = ip_declaration ip in
      rain_event w ''scope'' (if cd_reusable d then ''proof.run.open'' else ''predicate-induction.run.open'') [induction_scope d] ''fine.induction''
        (''Fine-owned structural induction over predicate constructors; each recursive predicate premise becomes '' @
         ''one exact induction hypothesis and each branch is checked by a separate public SMT query'')
        [FString ''declaration'' (cd_name d), FString ''predicate'' (pri_name (ip_predicate ip)),
         FNumber ''constructors'' (length (pri_constructors (ip_predicate ip))),
         FNumber ''context_parameters'' (length (ip_context_terms ip)),
         FNumber ''context_assumptions'' (length (cd_assumes d) - 1),
         FNumber ''predicate_assumptions'' (length (filter (\<lambda>p. p \<noteq> None) (ip_auxiliary_predicates ip))),
         FString ''predicate_guarantee'' (case ip_goal_predicate ip of None \<Rightarrow> [] | Some p \<Rightarrow> pri_name p),
         FTerm ''target'' (ip_target_term ip), FTerm ''auxiliary_assumptions'' (ip_auxiliary_assumptions ip),
         FTerm ''guarantees'' (ip_guarantees ip)])"

section \<open>Instances\<close>

definition instantiate :: "induction_problem \<Rightarrow> zexpr \<Rightarrow> zexpr list \<Rightarrow> fine_error + zexpr" where
  "instantiate ip e indices =
     (if length indices \<noteq> length (ip_index_terms ip) then Inl (RuntimeError ''internal predicate index arity mismatch'')
      else Inr (z_substitute (ip_index_terms ip) indices e))"

definition contextual_theorem :: "induction_problem \<Rightarrow> zexpr" where
  "contextual_theorem ip = mk_implies (ip_auxiliary_assumptions ip) (ip_guarantees ip)"

definition predicate_hypothesis :: "induction_problem \<Rightarrow> zexpr list \<Rightarrow> string \<Rightarrow> fine_error + zexpr" where
  "predicate_hypothesis ip indices suffix =
     (let d = ip_declaration ip in
      if ip_context_terms ip = []
      then if length (cd_assumes d) = 1 then instantiate ip (ip_guarantees ip) indices
           else instantiate ip (contextual_theorem ip) indices
      else bindE (instantiate ip (contextual_theorem ip) indices) (\<lambda>hypothesis.
           let locals = map (\<lambda>(t, i). mk_const (''Fine.predicate-induction.'' @ cd_name d @ ''.ih.'' @ suffix @ ''.context'' @ nat_to_string i) (sort_of t))
                 (zip (ip_context_terms ip) [0..<length (ip_context_terms ip)]) in
           Inr (mk_quantifier QForall (SymStr (''fine.predicate-induction.'' @ cd_name d @ ''.'' @ suffix)) SymNull locals
                  (z_substitute (ip_context_terms ip) locals hypothesis))))"

text \<open>That a carrier satisfies the requirement: the declared witness does, or one exists.\<close>

definition field_availability :: "zexpr \<Rightarrow> zexpr \<Rightarrow> zexpr option \<Rightarrow> zexpr" where
  "field_availability binder requirement witness =
     (case witness of
        Some e \<Rightarrow> z_substitute [binder] [e] requirement
      | None \<Rightarrow> mk_exists [binder] requirement)"

definition closed_availability :: "predicate_constructor_info \<Rightarrow> arbitrary_field \<Rightarrow> zexpr" where
  "closed_availability c field =
     (let availability = field_availability (af_binder_term field) (af_requirement field) (af_availability_witness field)
      in if pci_parameters c = [] then availability else mk_forall (pci_parameters c) availability)"

definition availability_mode :: "arbitrary_field \<Rightarrow> string" where
  "availability_mode field = (case af_availability_witness field of Some _ \<Rightarrow> ''declared-witness'' | None \<Rightarrow> ''solver-exists'')"

definition availability_outcome :: "arbitrary_field \<Rightarrow> bool \<Rightarrow> string" where
  "availability_outcome field available =
     (if available then ''available'' else case af_availability_witness field of Some _ \<Rightarrow> ''invalid-witness'' | None \<Rightarrow> ''empty'')"

text \<open>The query for a goal given the admitted proofs, each of whose uses is recorded.\<close>

definition ask_with_proofs ::
  "z3_world \<Rightarrow> check_decl \<Rightarrow> string list \<Rightarrow> string \<Rightarrow> field_spec list \<Rightarrow> zexpr \<Rightarrow> check_outcome run" where
  "ask_with_proofs w d within coverage details goal =
     bindA (getA ru_admitted_proofs) (\<lambda>proofs.
     bindA (mapA (\<lambda>(name, thm).
       thenA (rain_event w ''constraint'' ''proof.use'' within ''fine.induction'' coverage
         ([FString ''proof'' name, FTerm ''theorem'' thm, FString ''consumer'' (cd_name d)] @ details))
       (retA thm)) proofs) (\<lambda>theorems.
     solver_check w [] None (theorems @ [goal]) []))"

section \<open>Availability of the fields of other predicates\<close>

definition one_layer_predicates :: "induction_problem \<Rightarrow> predicate_info list" where
  "one_layer_predicates ip =
     foldl (\<lambda>found p. if p \<in> set found then found else found @ [p]) []
       (List.map_filter id (ip_auxiliary_predicates ip @ [ip_goal_predicate ip]))"

definition check_available ::
  "z3_world \<Rightarrow> induction_problem \<Rightarrow> predicate_info \<Rightarrow> predicate_constructor_info \<Rightarrow> arbitrary_field \<times> nat \<Rightarrow> unit run" where
  "check_available w ip item c = (\<lambda>(field, ordinal).
     let d = ip_declaration ip; scope = induction_scope d; span = ex_span (ip_target ip); obligation = closed_availability c field in
     bindA (ask_with_proofs w d [scope]
       (''Previously verified source proof admitted to a secondary predicate field's '' @ ''availability query'')
       [FString ''predicate'' (pri_name item), FString ''constructor'' (pci_name c), FString ''phase'' ''one-layer-availability'']
       (mk_not obligation)) (\<lambda>result.
     thenA (case result of
              Unknown reason \<Rightarrow>
                reject span (''constrained-field availability for `'' @ pri_name item @ ''.'' @ pci_name c @ ''` was unknown: '' @ reason)
            | _ \<Rightarrow> retA ())
     (let available = (case result of Unsat _ \<Rightarrow> True | _ \<Rightarrow> False) in
      thenA (rain_event w ''transition'' ''predicate-induction.one-layer.availability'' [scope] ''z3.public-api''
        (''Availability of one total constrained field before its predicate is used for '' @ ''one-layer inversion or construction'')
        [FString ''predicate'' (pri_name item), FString ''constructor'' (pci_name c), FNumber ''field_ordinal'' ordinal,
         FString ''binder'' (af_binder field), FString ''view'' (af_view_name field), FString ''availability_mode'' (availability_mode field),
         witness_field ''availability_witness'' (af_availability_witness field), FTerm ''obligation'' obligation,
         FString ''status'' (if available then ''unsat'' else ''sat''), FString ''domain_outcome'' (availability_outcome field available)])
      (check_that available span
        (''constrained field `'' @ pri_name item @ ''.'' @ pci_name c @ ''.'' @ af_binder field @
         ''` is unavailable; one-layer predicate use would be vacuous'')))))"

definition check_layers :: "z3_world \<Rightarrow> induction_problem \<Rightarrow> unit run" where
  "check_layers w ip =
     forA (one_layer_predicates ip) (\<lambda>item.
       forA (pri_constructors item) (\<lambda>c.
         forA (zip (pci_arbitrary_fields c) [0..<length (pci_arbitrary_fields c)]) (check_available w ip item c)))"

section \<open>One layer of a predicate\<close>

text \<open>Where a predicate is unfolded: the constructor of the branch, whether it is its goal or one of its
  assumptions, and which assumption.\<close>

record layer_use =
  lu_consumer :: string
  lu_use :: string
  lu_ordinal :: nat

definition layer_scope :: "induction_problem \<Rightarrow> layer_use \<Rightarrow> string list" where
  "layer_scope ip u = [induction_scope (ip_declaration ip), ''branch:'' @ lu_consumer u]"

definition record_local ::
  "z3_world \<Rightarrow> induction_problem \<Rightarrow> predicate_info \<Rightarrow> layer_use \<Rightarrow> predicate_constructor_info \<Rightarrow> nat \<Rightarrow> zexpr \<Rightarrow> zexpr \<Rightarrow> unit run" where
  "record_local w ip item u c i schema local =
     rain_event w ''derive'' ''predicate-induction.one-layer.parameter'' (layer_scope ip u) ''fine.induction''
       (''Fresh local binder for one retained constructor-schema parameter; existential closure '' @
        ''cannot capture a same-manager term already owned by the consumer branch'')
       [FString ''consumer_constructor'' (lu_consumer u), FString ''use'' (lu_use u), FString ''predicate'' (pri_name item),
        FString ''predicate_constructor'' (pci_name c), FNumber ''parameter_ordinal'' i, FTerm ''schema_parameter'' schema,
        FTerm ''local_parameter'' local]"

definition local_terms :: "string \<Rightarrow> string \<Rightarrow> zexpr list \<Rightarrow> zexpr list" where
  "local_terms prefix what terms =
     map (\<lambda>(t, i). mk_const (prefix @ what @ nat_to_string i) (sort_of t)) (zip terms [0..<length terms])"

text \<open>A substitution of the local terms for those of the schema.\<close>

definition localize :: "zexpr list \<Rightarrow> zexpr list \<Rightarrow> zexpr \<Rightarrow> zexpr" where
  "localize schema locals e = (if schema = [] then e else z_substitute schema locals e)"

definition layer_field ::
  "z3_world \<Rightarrow> induction_problem \<Rightarrow> predicate_info \<Rightarrow> layer_use \<Rightarrow> predicate_constructor_info \<Rightarrow> (zexpr \<Rightarrow> zexpr) \<Rightarrow> zexpr \<Rightarrow>
   (arbitrary_field \<times> zexpr) \<times> nat \<Rightarrow> zexpr run" where
  "layer_field w ip item u c loc branch = (\<lambda>((field, binder), ordinal).
     let requirement = loc (af_requirement field);
         premises = foldl (\<lambda>conjunction p. mk_and conjunction (loc p)) (bool_val True) (af_premise_terms field);
         witness = map_option loc (af_availability_witness field);
         availability = field_availability binder requirement witness;
         total_field = mk_forall [binder] (mk_implies requirement premises) in
     thenA (rain_event w ''derive'' (''predicate-induction.'' @ lu_use u @ ''.arbitrary-field'') (layer_scope ip u) ''fine.induction''
       (''Alpha-local compiler-owned constrained field in one predicate-constructor alternative; '' @
        ''its binders cannot capture consumer-branch terms, and availability remains separate '' @
        ''from universally scoped recursive premises'')
       ([FString ''consumer_constructor'' (lu_consumer u), FString ''use'' (lu_use u), FString ''predicate'' (pri_name item),
         FString ''predicate_constructor'' (pci_name c), FNumber ''field_ordinal'' ordinal, FString ''binder'' (af_binder field),
         FTerm ''binder_term'' binder, FTerm ''schema_binder_term'' (af_binder_term field), FString ''view'' (af_view_name field),
         FTerm ''requirement'' requirement, FString ''availability_mode'' (availability_mode field),
         witness_field ''availability_witness'' witness, FTerm ''availability'' availability, FTerm ''premises'' premises,
         FTerm ''total_field'' total_field, FNumber ''recursive_premises'' (length (af_premise_terms field))] @
        (if lu_use u = ''assumption'' then [FNumber ''assumption_ordinal'' (lu_ordinal u)] else [])))
     (retA (mk_and (mk_and branch availability) total_field)))"

definition layer_alternative ::
  "z3_world \<Rightarrow> induction_problem \<Rightarrow> predicate_info \<Rightarrow> layer_use \<Rightarrow> nat \<Rightarrow> zexpr list \<Rightarrow> zexpr \<Rightarrow> predicate_constructor_info \<Rightarrow> zexpr run" where
  "layer_alternative w ip item u invocation indices alternatives c =
     (let prefix = ''Fine.predicate-induction.'' @ cd_name (ip_declaration ip) @ ''.one-layer.'' @ nat_to_string invocation @ ''.'' @ pci_name c;
          binders = map af_binder_term (pci_arbitrary_fields c);
          local_parameters = local_terms prefix ''.parameter'' (pci_parameters c);
          local_binders = local_terms prefix ''.arbitrary'' binders;
          loc = localize (pci_parameters c @ binders) (local_parameters @ local_binders);
          equations = foldl (\<lambda>branch (a, r). mk_and branch (mk_eq a (loc r))) (bool_val True) (zip indices (pci_result_indices c));
          premises = foldl (\<lambda>branch p. mk_and branch (loc p)) equations (pci_premise_terms c) in
      thenA (forA (zip (zip (pci_parameters c) local_parameters) [0..<length (pci_parameters c)]) (\<lambda>((schema, local), i).
        record_local w ip item u c i schema local))
      (bindA (foldA (layer_field w ip item u c loc) premises
                (zip (zip (pci_arbitrary_fields c) local_binders) [0..<length (pci_arbitrary_fields c)])) (\<lambda>branch.
       retA (mk_or alternatives (if local_parameters = [] then branch else mk_exists local_parameters branch)))))"

definition one_layer ::
  "z3_world \<Rightarrow> induction_problem \<Rightarrow> predicate_info \<Rightarrow> layer_use \<Rightarrow> nat \<Rightarrow> zexpr \<Rightarrow> zexpr run" where
  "one_layer w ip item u invocation atom =
     thenA (guardA (is_app atom \<and> length (z_args atom) = length (pri_index_types item)) (RuntimeError ''internal predicate inversion arity mismatch''))
     (foldA (layer_alternative w ip item u invocation (z_args atom)) (bool_val False) (pri_constructors item))"

section \<open>A branch\<close>

text \<open>The next number of a one-layer unfolding is carried along.  First the goal of the branch.\<close>

definition branch_goal ::
  "z3_world \<Rightarrow> induction_problem \<Rightarrow> predicate_constructor_info \<Rightarrow> nat \<Rightarrow> (zexpr \<times> zexpr \<times> nat) run" where
  "branch_goal w ip c serial =
     (let scope = [induction_scope (ip_declaration ip), ''branch:'' @ pci_name c] in
      bindA (resultA (instantiate ip (ip_guarantees ip) (pci_result_indices c))) (\<lambda>goal.
      case ip_goal_predicate ip of
        None \<Rightarrow> retA (goal, goal, serial)
      | Some p \<Rightarrow>
        bindA (resultA (instantiate ip (the (ip_goal_atom ip)) (pci_result_indices c))) (\<lambda>atom.
        bindA (one_layer w ip p \<lparr>lu_consumer = pci_name c, lu_use = ''goal'', lu_ordinal = 0\<rparr> serial atom) (\<lambda>resource.
        thenA (rain_event w ''derive'' ''predicate-induction.goal.construct'' scope ''fine.induction''
          (''Compiler-owned one-constructor construction obligation for a positive predicate goal; this '' @
           ''bounded unfolding avoids a recursive universal introduction axiom'')
          [FString ''constructor'' (pci_name c), FString ''predicate'' (pri_name p), FTerm ''goal'' atom,
           FTerm ''construction'' resource, FNumber ''alternatives'' (length (pri_constructors p))])
        (retA (atom, resource, Suc serial))))))"

text \<open>The assumptions: each is a resource of the branch, one on a predicate together with its unfolding.\<close>

definition branch_assumption ::
  "z3_world \<Rightarrow> induction_problem \<Rightarrow> predicate_constructor_info \<Rightarrow> zexpr \<times> nat \<times> nat \<Rightarrow>
   (zexpr \<times> predicate_info option) \<times> nat \<Rightarrow> (zexpr \<times> nat \<times> nat) run" where
  "branch_assumption w ip c = (\<lambda>(resources, inverted, serial) ((assumption, found), i).
     let scope = [induction_scope (ip_declaration ip), ''branch:'' @ pci_name c] in
     bindA (resultA (instantiate ip assumption (pci_result_indices c))) (\<lambda>specialized.
     case found of
       None \<Rightarrow> retA (mk_and resources specialized, inverted, serial)
     | Some p \<Rightarrow>
       bindA (one_layer w ip p \<lparr>lu_consumer = pci_name c, lu_use = ''assumption'', lu_ordinal = i\<rparr> serial specialized) (\<lambda>unfolded.
       let resource = mk_and specialized unfolded in
       thenA (rain_event w ''derive'' ''predicate-induction.assumption.invert'' scope ''fine.induction''
         (''Compiler-owned one-constructor unfolding of a positive predicate assumption under its '' @
          ''least constructor-generated interpretation'')
         [FString ''constructor'' (pci_name c), FNumber ''assumption_ordinal'' i, FString ''predicate'' (pri_name p),
          FTerm ''assumption'' specialized, FTerm ''inversion'' unfolded, FTerm ''resource'' resource,
          FNumber ''alternatives'' (length (pri_constructors p))])
       (retA (mk_and resources resource, Suc inverted, Suc serial)))))"

definition branch_hypothesis ::
  "z3_world \<Rightarrow> induction_problem \<Rightarrow> predicate_constructor_info \<Rightarrow> zexpr \<Rightarrow> zexpr list \<times> nat \<Rightarrow> zexpr run" where
  "branch_hypothesis w ip c hypotheses = (\<lambda>(indices, i).
     let scope = [induction_scope (ip_declaration ip), ''branch:'' @ pci_name c] in
     bindA (resultA (predicate_hypothesis ip indices (pci_name c @ ''.premise'' @ nat_to_string i))) (\<lambda>hypothesis.
     thenA (rain_event w ''derive'' ''predicate-induction.hypothesis'' scope ''fine.induction''
       (''Compiler-owned recursive constructor premise paired with the guarantee instantiated at its '' @ ''exact indices'')
       [FString ''constructor'' (pci_name c), FNumber ''premise_ordinal'' i,
        FTerm ''recursive_premise'' (ZApp (pri_relation (ip_predicate ip)) indices), FTerm ''induction_hypothesis'' hypothesis,
        FNumber ''generalized_parameters'' (length (ip_context_terms ip))])
     (retA (mk_and hypotheses hypothesis))))"

section \<open>Arbitrary fields of a branch\<close>

definition branch_available ::
  "z3_world \<Rightarrow> induction_problem \<Rightarrow> predicate_constructor_info \<Rightarrow> arbitrary_field \<Rightarrow> nat \<Rightarrow> unit run" where
  "branch_available w ip c field ordinal =
     (let d = ip_declaration ip; scope = [induction_scope d, ''branch:'' @ pci_name c]; span = ex_span (ip_target ip);
          availability = closed_availability c field in
      bindA (ask_with_proofs w d scope ''Previously verified source proof admitted to the arbitrary-field availability query''
        [FString ''constructor'' (pci_name c), FString ''phase'' ''arbitrary-availability''] (mk_not availability)) (\<lambda>result.
      thenA (case result of
               Unknown reason \<Rightarrow> reject span (''arbitrary-fresh availability for constructor `'' @ pci_name c @ ''` was unknown: '' @ reason)
             | _ \<Rightarrow> retA ())
      (let available = (case result of Unsat _ \<Rightarrow> True | _ \<Rightarrow> False) in
       thenA (rain_event w ''transition'' ''predicate-induction.arbitrary.availability'' scope ''z3.public-api''
         (''Fine separately checks that every constructor-parameter assignment admits a carrier value '' @
          ''satisfying the constrained view; this prevents vacuous arbitrary-fresh branches'')
         [FString ''constructor'' (pci_name c), FNumber ''field_ordinal'' ordinal, FString ''binder'' (af_binder field),
          FString ''view'' (af_view_name field), FTerm ''requirement'' (af_requirement field),
          FString ''availability_mode'' (availability_mode field), witness_field ''availability_witness'' (af_availability_witness field),
          FTerm ''obligation'' availability, FString ''status'' (if available then ''unsat'' else ''sat''),
          FString ''domain_outcome'' (availability_outcome field available)])
       (check_that available span
         (case af_availability_witness field of
            Some _ \<Rightarrow> ''declared witness for constrained view `'' @ af_view_name field @
                       ''` fails its requirement for some parameters of `'' @ pci_name c @ ''`''
          | None \<Rightarrow> ''constrained view `'' @ af_view_name field @ ''` is empty for some parameters of `'' @
                     pci_name c @ ''`; arbitrary-fresh induction would be vacuous'')))))"

definition field_hypothesis ::
  "z3_world \<Rightarrow> induction_problem \<Rightarrow> predicate_constructor_info \<Rightarrow> arbitrary_field \<Rightarrow> nat \<Rightarrow> zexpr \<Rightarrow> zexpr list \<times> nat \<Rightarrow> zexpr run" where
  "field_hypothesis w ip c field ordinal hypotheses = (\<lambda>(indices, i).
     let scope = [induction_scope (ip_declaration ip), ''branch:'' @ pci_name c] in
     bindA (resultA (predicate_hypothesis ip indices
       (pci_name c @ ''.arbitrary'' @ nat_to_string ordinal @ ''.premise'' @ nat_to_string i))) (\<lambda>hypothesis.
     thenA (rain_event w ''derive'' ''predicate-induction.arbitrary-hypothesis'' scope ''fine.induction''
       (''Exact recursive premise and induction-hypothesis template owned by one total '' @ ''arbitrary constrained field'')
       [FString ''constructor'' (pci_name c), FNumber ''field_ordinal'' ordinal, FNumber ''premise_ordinal'' i,
        FString ''binder'' (af_binder field), FTerm ''binder_term'' (af_binder_term field), FString ''view'' (af_view_name field),
        FTerm ''requirement'' (af_requirement field), FTerm ''recursive_premise'' (af_premise_terms field ! i),
        FTerm ''induction_hypothesis'' hypothesis, FNumber ''generalized_parameters'' (length (ip_context_terms ip)),
        FString ''scope_owner'' ''fine-arbitrary-field''])
     (retA (mk_and hypotheses hypothesis))))"

definition branch_field ::
  "z3_world \<Rightarrow> induction_problem \<Rightarrow> predicate_constructor_info \<Rightarrow> zexpr \<Rightarrow> arbitrary_field \<times> nat \<Rightarrow> zexpr run" where
  "branch_field w ip c hypotheses = (\<lambda>(field, ordinal).
     let scope = [induction_scope (ip_declaration ip), ''branch:'' @ pci_name c];
         availability = field_availability (af_binder_term field) (af_requirement field) (af_availability_witness field);
         indices = af_recursive_premise_indices field in
     thenA (branch_available w ip c field ordinal)
     (bindA (foldA (field_hypothesis w ip c field ordinal) (bool_val True) (zip indices [0..<length indices])) (\<lambda>templates.
      let total = mk_forall [af_binder_term field] (mk_implies (af_requirement field) templates) in
      thenA (rain_event w ''derive'' ''predicate-induction.arbitrary.total-hypothesis'' scope ''fine.induction''
        (''Compiler-owned total induction resource for every carrier satisfying one constrained '' @
         ''field; the separately verified availability resource prevents vacuity'')
        [FString ''constructor'' (pci_name c), FNumber ''field_ordinal'' ordinal, FString ''binder'' (af_binder field),
         FTerm ''binder_term'' (af_binder_term field), FString ''view'' (af_view_name field), FTerm ''requirement'' (af_requirement field),
         FTerm ''availability_resource'' availability, FTerm ''hypothesis_templates'' templates, FTerm ''total_hypothesis'' total,
         FNumber ''recursive_hypotheses'' (length indices), FString ''scope_owner'' ''fine-arbitrary-field''])
      (retA (mk_and (mk_and hypotheses availability) total)))))"

section \<open>The query of a branch\<close>

definition hypothesis_count :: "predicate_constructor_info \<Rightarrow> nat" where
  "hypothesis_count c =
     length (pci_recursive_premise_indices c) +
     sum_list (map (\<lambda>f. length (af_recursive_premise_indices f)) (pci_arbitrary_fields c))"

definition open_branch ::
  "z3_world \<Rightarrow> induction_problem \<Rightarrow> predicate_constructor_info \<Rightarrow> zexpr \<Rightarrow> zexpr \<Rightarrow> nat \<Rightarrow> zexpr \<Rightarrow> zexpr \<Rightarrow> zexpr \<Rightarrow> unit run" where
  "open_branch w ip c assumptions resources inverted goal goal_resource query =
     (let d = ip_declaration ip; scope = [induction_scope d, ''branch:'' @ pci_name c] in
      thenA (rain () (source_term w (cd_node_id d) (cd_span d) (if cd_reusable d then ''decl.proof'' else ''decl.check'') query ''generated'' scope))
      (rain_event w ''scope'' ''predicate-induction.branch.open'' scope ''fine.induction''
        ''One constructor branch with compiler-owned result indices and recursive hypotheses''
        [FString ''constructor'' (pci_name c), FNumber ''constructor_parameters'' (length (pci_parameters c)),
         FTerm ''constructor_result'' (ZApp (pri_relation (ip_predicate ip)) (pci_result_indices c)),
         FTerm ''context_assumptions'' assumptions, FTerm ''context_resources'' resources, FNumber ''inverted_assumptions'' inverted,
         FTerm ''goal'' goal, FTerm ''goal_resource'' goal_resource,
         FNumber ''goal_constructor_alternatives'' (case ip_goal_predicate ip of None \<Rightarrow> 0 | Some p \<Rightarrow> length (pri_constructors p)),
         FTerm ''counterexample_query'' query, FNumber ''recursive_hypotheses'' (hypothesis_count c),
         FNumber ''arbitrary_fields'' (length (pci_arbitrary_fields c))]))"

definition close_branch :: "z3_world \<Rightarrow> induction_problem \<Rightarrow> predicate_constructor_info \<Rightarrow> bool \<Rightarrow> unit run" where
  "close_branch w ip c verified =
     (let scope = [induction_scope (ip_declaration ip), ''branch:'' @ pci_name c]; outcome = (if verified then ''verified'' else ''refuted'') in
      thenA (rain_event w ''transition'' ''predicate-induction.branch.result'' scope ''z3.public-api''
        ''Final public SMT result for one compiler-generated constructor branch''
        [FString ''constructor'' (pci_name c), FString ''status'' (if verified then ''unsat'' else ''sat''), FString ''domain_outcome'' outcome])
      (rain_event w ''scope'' ''predicate-induction.branch.close'' scope ''fine.induction''
        ''Constructor induction branch completed'' [FString ''status'' outcome]))"

text \<open>Whether a branch is verified, and the next number of an unfolding.\<close>

definition predicate_branch :: "z3_world \<Rightarrow> induction_problem \<Rightarrow> predicate_constructor_info \<Rightarrow> nat \<Rightarrow> (bool \<times> nat) run" where
  "predicate_branch w ip c serial =
     (let d = ip_declaration ip; scope = [induction_scope d, ''branch:'' @ pci_name c]; span = ex_span (ip_target ip);
          recursive = pci_recursive_premise_indices c; fresh = pci_arbitrary_fields c; aux = zip (ip_auxiliary_terms ip) (ip_auxiliary_predicates ip) in
      thenA (check_that (pci_premise_count c = length recursive) span
               (''predicate induction currently requires every constructor premise to recurse on `'' @ pri_name (ip_predicate ip) @ ''`''))
      (bindA (branch_goal w ip c serial) (\<lambda>(goal, goal_resource, serial).
       bindA (resultA (instantiate ip (ip_auxiliary_assumptions ip) (pci_result_indices c))) (\<lambda>assumptions.
       bindA (foldA (branch_assumption w ip c) (bool_val True, 0, serial) (zip aux [0..<length aux])) (\<lambda>(resources, inverted, serial).
       bindA (foldA (branch_hypothesis w ip c) (bool_val True) (zip recursive [0..<length recursive])) (\<lambda>hypotheses.
       bindA (foldA (branch_field w ip c) hypotheses (zip fresh [0..<length fresh])) (\<lambda>hypotheses.
       let query = mk_and (mk_and hypotheses resources) (mk_not goal_resource) in
       thenA (open_branch w ip c assumptions resources inverted goal goal_resource query)
       (bindA (ask_with_proofs w d scope
         (''Previously verified source proof admitted to this constructor branch as a universal SMT '' @ ''assumption'')
         [FString ''constructor'' (pci_name c)] query) (\<lambda>result.
        thenA (case result of
                 Unknown reason \<Rightarrow> reject span (''predicate-induction branch `'' @ pci_name c @ ''` was unknown: '' @ reason)
               | _ \<Rightarrow> retA ())
        (let verified = (case result of Unsat _ \<Rightarrow> True | _ \<Rightarrow> False) in
         thenA (close_branch w ip c verified) (retA (verified, serial))))))))))))"

text \<open>The first branch that is not verified ends the loop; the empty name stands for none.\<close>

primrec predicate_branches :: "z3_world \<Rightarrow> induction_problem \<Rightarrow> nat \<Rightarrow> predicate_constructor_info list \<Rightarrow> string run" where
  "predicate_branches w ip serial [] = retA []"
| "predicate_branches w ip serial (c # cs) =
     bindA (predicate_branch w ip c serial) (\<lambda>(verified, serial).
     if verified then predicate_branches w ip serial cs else retA (pci_name c))"

section \<open>Induction\<close>

definition admitted_theorem :: "induction_problem \<Rightarrow> zexpr" where
  "admitted_theorem ip =
     (let body = mk_implies (mk_and (ip_target_term ip) (ip_auxiliary_assumptions ip)) (ip_guarantees ip);
          bound = ip_index_terms ip @ ip_context_terms ip in
      if bound = [] then body
      else mk_quantifier QForall (SymStr (''fine.proof.'' @ cd_name (ip_declaration ip))) SymNull bound body)"

definition admit_predicate_proof :: "z3_world \<Rightarrow> induction_problem \<Rightarrow> unit run" where
  "admit_predicate_proof w ip =
     (let d = ip_declaration ip; admitted = admitted_theorem ip in
      thenA (modifyA (\<lambda>s. s\<lparr>ru_admitted_proofs := ru_admitted_proofs s @ [(cd_name d, admitted)]\<rparr>))
      (rain_event w ''transition'' ''proof.admit'' [induction_scope d] ''fine.induction''
        (''Only verification of every compiler-owned predicate-constructor branch permits universal '' @
         ''closure and later SMT reuse; the theorem is never added to fixedpoint'')
        [FString ''proof'' (cd_name d), FString ''predicate'' (pri_name (ip_predicate ip)), FTerm ''theorem'' admitted,
         FString ''qid'' (''fine.proof.'' @ cd_name d),
         FNumber ''verified_constructor_branches'' (length (pri_constructors (ip_predicate ip))),
         FBool ''verified_before_admission'' True, FBool ''added_to_fixedpoint'' False]))"

definition close_induction :: "z3_world \<Rightarrow> induction_problem \<Rightarrow> string \<Rightarrow> unit run" where
  "close_induction w ip failed =
     (let d = ip_declaration ip; verified = (failed = []) in
      thenA (rain () (validate_terms w))
      (rain_event w ''scope'' (if cd_reusable d then ''proof.run.close'' else ''predicate-induction.run.close'') [induction_scope d] ''fine.induction''
        ''Compiler-generated predicate induction completed''
        [FString ''status'' (if verified then ''verified'' else ''refuted''), FString ''failed_constructor'' failed]))"

definition induction_text :: "induction_problem \<Rightarrow> string \<Rightarrow> string" where
  "induction_text ip failed =
     (let d = ip_declaration ip; verified = (failed = []) in
      (if cd_reusable d then if verified then ''verified-proof: '' else ''refuted-proof: ''
       else if verified then ''verified-predicate-induction: '' else ''refuted-predicate-induction: '') @ cd_name d @ [CHR 0x0A] @
      ''predicate: '' @ pri_name (ip_predicate ip) @ [CHR 0x0A] @
      (if verified then ''constructor-branches: '' @ nat_to_string (length (pri_constructors (ip_predicate ip))) @ '' verified'' @ [CHR 0x0A]
       else ''failed-constructor: '' @ failed @ [CHR 0x0A]) @
      ''derivation-witness: erased after compiler-owned branch construction'' @ [CHR 0x0A])"

definition execute_predicate_induction :: "z3_world \<Rightarrow> check_decl \<Rightarrow> expr \<Rightarrow> nat run" where
  "execute_predicate_induction w d target =
     bindA (induction_inputs w d target) (\<lambda>ip.
     thenA (open_induction w ip)
     (thenA (check_layers w ip)
     (bindA (predicate_branches w ip 0 (pri_constructors (ip_predicate ip))) (\<lambda>failed.
      thenA (whenA (failed = [] \<and> cd_reusable d) (admit_predicate_proof w ip))
      (thenA (close_induction w ip failed)
      (thenA (print (induction_text ip failed))
      (retA (if cd_reusable d \<and> failed \<noteq> [] then 1 else 0))))))))"

section \<open>A check in a document with predicates\<close>

definition execute_predicate_check :: "z3_world \<Rightarrow> check_decl \<Rightarrow> nat run" where
  "execute_predicate_check w d =
     thenA (reserve_value_name (cd_name d) (cd_span d))
     (thenA (check_that (cd_induction_parameter d = None) (the (cd_induction_span d)) ''predicate membership does not yet implement derivation induction'')
     (case cd_predicate_induction d of
        Some target \<Rightarrow> execute_predicate_induction w d target
      | None \<Rightarrow>
        thenA (check_that (\<not> cd_reusable d) (cd_span d)
                 (''a proof declared after predicates must use `inducts(P(...))`; Fine admits only the exact theorem '' @
                  ''verified by all compiler-owned constructor branches and never adds it to fixedpoint''))
        (if cd_parameters d \<noteq> [] then execute_predicate_invariant w d else execute_membership w d)))"

end
