(* ===== verification/Fine_Match_Synthesis.thy ===== *)
theory Fine_Match_Synthesis
  imports Fine_Check
begin

text \<open>
  \<^verbatim>\<open>src/src/fine/synthesis_runtime.cpp\<close>: a \<^verbatim>\<open>synth\<close> declaration, either one function of integers or a
  match whose open arms are synthesized one by one and whose completed body is verified again.  The
  synthesizer may search for ever, so that both operations take its fuel.
\<close>

section \<open>Shared steps\<close>

definition synth_parameter ::
  "z3_world \<Rightarrow> string \<Rightarrow> (runtime_type \<Rightarrow> bool) \<Rightarrow> string \<Rightarrow> bound_parameter list \<Rightarrow> parameter \<times> nat \<Rightarrow> bound_parameter list run" where
  "synth_parameter w name admitted message bound = (\<lambda>(parameter, i).
     thenA (check_that (pa_name parameter \<noteq> ''result'') (pa_span parameter) ''`result` is reserved for the synthesis result'')
     (bind_parameter w ''Fine.synth.'' name admitted message bound (parameter, i)))"

definition synth_parameters ::
  "z3_world \<Rightarrow> string \<Rightarrow> (runtime_type \<Rightarrow> bool) \<Rightarrow> string \<Rightarrow> parameter list \<Rightarrow> bound_parameter list run" where
  "synth_parameters w name admitted message ps =
     foldA (synth_parameter w name admitted message) [] (zip ps [0..<length ps])"

definition synth_result :: "synth_decl \<Rightarrow> zexpr" where
  "synth_result d = mk_const (''Fine.synth.'' @ yd_name d @ ''.result'') SInt"

definition synth_specification :: "z3_world \<Rightarrow> synth_decl \<Rightarrow> environment \<Rightarrow> zexpr run" where
  "synth_specification w d env =
     conjoin w (emplace ''result'' (int_type, synth_result d) env) ''an ensured condition must have type Bool'' (yd_ensures d)"

definition synth_scope :: "synth_decl \<Rightarrow> string" where
  "synth_scope d = ''synth:'' @ yd_name d"

text \<open>The printed body of a witness is parsed and elaborated again; \<open>message\<close> is the diagnostic when it is not
  the witness.\<close>

definition witness_body :: "z3_world \<Rightarrow> (string \<times> zexpr) list \<Rightarrow> environment \<Rightarrow> zexpr \<Rightarrow> source_span \<Rightarrow> string \<Rightarrow> (expr \<times> string) run" where
  "witness_body w named env witness span message =
     bindA (resultA (lift_expression named witness)) (\<lambda>lifted.
     let body = print_expression lifted in
     bindA (resultA (case parse_expression body of Inl e \<Rightarrow> Inl (SyntaxFailure e) | Inr e \<Rightarrow> Inr e)) (\<lambda>reparsed.
     bindA (elaborate_expression w env reparsed) (\<lambda>(type, term).
     thenA (check_that (type = int_type \<and> term = witness) span message)
     (retA (lifted, body)))))"

section \<open>Functions\<close>

definition record_synthesis :: "z3_world \<Rightarrow> synth_decl \<Rightarrow> string \<Rightarrow> zexpr \<Rightarrow> unit run" where
  "record_synthesis w d body witness =
     thenA (rain_event w ''object'' ''fine.source-witness'' [synth_scope d] ''fine.runtime''
       ''Lifted, printed, parsed, elaborated witness with exact same-manager AST identity''
       [FString ''declaration'' (yd_name d), FString ''body'' body, FTerm ''semantic_term'' witness,
        FBool ''parse_reify_exact_identity'' True])
     (thenA (rain_event w ''transition'' ''fine.witness.accept'' [synth_scope d] ''fine.runtime''
       ''Backend verification plus Fine source round-trip identity check''
       [FString ''declaration'' (yd_name d), FString ''status'' ''source-program'', FBool ''verified'' True])
     (thenA (rain () (validate_terms w))
     (rain_event w ''scope'' ''synth.run.close'' [synth_scope d] ''fine.runtime''
       ''Native synthesis plus Fine source witness round trip'' [FString ''status'' ''source-program''])))"

text \<open>\<open>int_type\<close> is the only type of kind \<open>rk_integer\<close>.\<close>

definition execute_function_synthesis :: "nat \<Rightarrow> z3_world \<Rightarrow> synth_decl \<Rightarrow> nat run" where
  "execute_function_synthesis fuel w d =
     thenA (reserve_value_name (yd_name d) (yd_span d))
     (bindA (resolve_type w (yd_result_type d)) (\<lambda>result_type.
      thenA (check_that (result_type = int_type) (ty_span (yd_result_type d)) ''the first synthesis slice returns Int'')
      (thenA (check_that (yd_parameters d \<noteq> []) (yd_span d) ''a synthesized function needs a parameter'')
      (bindA (synth_parameters w (yd_name d) (\<lambda>t. rt_kind t = rk_integer)
                ''the first synthesis slice admits only Int parameters'' (yd_parameters d)) (\<lambda>bound.
       bindA (synth_specification w d (bound_environment bound)) (\<lambda>specification.
       bindA (run_synthesizer fuel w (mk_synthesizer (yd_name d) (map bp_term bound) (synth_result d) specification [] False)) (\<lambda>synthesized.
       bindA (witness_body w (map (\<lambda>p. (bp_name p, bp_term p)) bound) (bound_environment bound) (sr_witness synthesized)
                (yd_span d) ''parse(print(lift(witness))) violated exact AST identity'') (\<lambda>(_, body).
       thenA (record_synthesis w d body (sr_witness synthesized))
       (thenA (print (''source-program: synthesized '' @ yd_name d @ '' from '' @ nat_to_string (length (sr_selections synthesized)) @
                 '' ground instances; core kept '' @ nat_to_string (length (sr_core_indices synthesized)) @ [CHR 0x0A]))
       (thenA (print (body @ [CHR 0x0A]))
       (thenA (print (''verification: no counterexample'' @ [CHR 0x0A]))
       (thenA (print (''parse(print(lift(witness))): exact ast identity (diagnostic ast_id: '' @
                 nat_to_string (w_ast_id w (sr_witness synthesized)) @ '')'' @ [CHR 0x0A]))
       (retA 0)))))))))))))"

section \<open>Match arms\<close>

text \<open>What the loop over the arms carries.\<close>

record arm_state =
  as_seen_cases :: "string list"
  as_seen_holes :: "string list"
  as_branches :: "(zexpr \<times> zexpr) list"
  as_materialized :: "expr list"
  as_open_arms :: nat
  as_selections :: nat
  as_core_members :: nat
  as_replacements :: "string list"

text \<open>What an arm is elaborated in.\<close>

record arm_context =
  ac_item :: datatype_case_info
  ac_field_symbols :: "zexpr list"
  ac_parameters :: "zexpr list"
  ac_named_inputs :: "(string \<times> zexpr) list"
  ac_environment :: environment
  ac_specification :: zexpr

definition arm_symbols :: "runtime_type list \<Rightarrow> synth_decl \<Rightarrow> match_arm \<Rightarrow> datatype_case_info \<Rightarrow> zexpr list" where
  "arm_symbols heap d arm item =
     map (\<lambda>i. mk_const (''Fine.synth.'' @ yd_name d @ ''.arm.'' @ ma_constructor arm @ ''.field'' @ nat_to_string i)
                (rt_sort (heap ! (dc_field_types item ! i)))) [0..<length (ma_bindings arm)]"

text \<open>One pattern binding: the environment, the names bound so far, and the integer inputs of the grammar.\<close>

definition bind_symbol ::
  "datatype_case_info \<Rightarrow> zexpr list \<Rightarrow> environment \<times> string list \<times> (string \<times> zexpr) list \<Rightarrow> match_binding \<times> nat \<Rightarrow>
   (environment \<times> string list \<times> (string \<times> zexpr) list) run" where
  "bind_symbol item symbols = (\<lambda>(env, local_bindings, named) (b, i).
     if mb_name b = ''_'' then retA (env, local_bindings, named)
     else thenA (check_that (mb_name b \<notin> set local_bindings \<and> map_of env (mb_name b) = None) (mb_span b)
                   (''duplicate or shadowing pattern binding `'' @ mb_name b @ ''`''))
          (retA (emplace (mb_name b) (dc_field_types item ! i, symbols ! i) env, mb_name b # local_bindings,
                 if dc_field_types item ! i = int_type then named @ [(mb_name b, symbols ! i)] else named)))"

definition enter_arm ::
  "synth_decl \<Rightarrow> bound_parameter list \<Rightarrow> nat \<Rightarrow> datatype_info \<Rightarrow> zexpr \<Rightarrow> string list \<Rightarrow> match_arm \<Rightarrow> arm_context run" where
  "enter_arm d bound matched info specification seen_cases arm =
     (case position_of (map dc_name (di_cases info)) (ma_constructor arm) of
        None \<Rightarrow> reject (ma_span arm) (''constructor `'' @ ma_constructor arm @ ''` does not belong to `'' @ di_name info @ ''`'')
      | Some c \<Rightarrow>
        let item = di_cases info ! c;
            others = map (\<lambda>i. bound ! i) (filter (\<lambda>i. i \<noteq> matched) [0..<length bound]);
            inputs = map (\<lambda>p. (bp_name p, bp_term p)) (filter (\<lambda>p. bp_type p = int_type) others) in
        thenA (check_that (ma_constructor arm \<notin> set seen_cases) (ma_span arm) (''duplicate match arm for `'' @ ma_constructor arm @ ''`''))
        (thenA (check_that (length (ma_bindings arm) = length (dc_field_types item)) (ma_span arm)
                  (''constructor `'' @ ma_constructor arm @ ''` expects '' @ nat_to_string (length (dc_field_types item)) @ '' pattern bindings''))
        (bindA (getA ru_heap) (\<lambda>heap.
         let symbols = arm_symbols heap d arm item; constructed = ZApp (dc_constructor item) symbols in
         bindA (foldA (bind_symbol item symbols) (bound_environment bound, [], inputs)
                  (zip (ma_bindings arm) [0..<length (ma_bindings arm)])) (\<lambda>(env, _, named).
         retA \<lparr>ac_item = item, ac_field_symbols = symbols, ac_parameters = map bp_term others @ symbols, ac_named_inputs = named,
               ac_environment = (ex_name (the (yd_scrutinee d)), (bp_type (bound ! matched), constructed)) # env,
               ac_specification = z_substitute [bp_term (bound ! matched)] [constructed] specification\<rparr>)))))"

definition hole_name :: "expr \<Rightarrow> string" where
  "hole_name e = ''hole:'' @ nat_to_string (ex_node_id e)"

definition record_hole :: "z3_world \<Rightarrow> synth_decl \<Rightarrow> expr \<Rightarrow> zexpr list \<Rightarrow> unit recording" where
  "record_hole w d hole inputs =
     bindA (source_node (ex_node_id hole) (ex_span hole) ''expr.hole'') (\<lambda>source.
     bindA (mapA (rain_term w) inputs) (\<lambda>references.
     thenA (record_event ''object'' ''synth.hole.declare'' [synth_scope d] ''fine.synthesis''
       ''Snapshot-scoped typed source hole and its fixed integer grammar inputs''
       [string_field ''id'' (hole_name hole), string_field ''snapshot'' ''snapshot:0'', string_field ''source'' source,
        string_field ''name'' (ex_name hole), string_field ''expected_type'' ''Int'',
        string_field ''grammar'' ''fine.qf-lia-int.v1'', raw_field ''grammar_inputs'' (string_array references)])
     (retA ())))"

definition replacement_json :: "expr \<Rightarrow> string \<Rightarrow> string" where
  \<open>replacement_json hole body =
     ''{"hole":'' @ rain_quote (hole_name hole) @ '',"from":'' @ nat_to_string (offset (span_begin (ex_span hole))) @
     '',"to":'' @ nat_to_string (offset (span_end (ex_span hole))) @ '',"insert":'' @ rain_quote body @ ''}''\<close>

definition synthesize_arm ::
  "nat \<Rightarrow> z3_world \<Rightarrow> synth_decl \<Rightarrow> arm_context \<Rightarrow> arm_state \<Rightarrow> match_arm \<Rightarrow> (zexpr \<times> expr \<times> arm_state) run" where
  "synthesize_arm fuel w d c st arm =
     (let hole = ma_value arm; arm_name = yd_name d @ ''.'' @ ex_name hole; inputs = map snd (ac_named_inputs c) in
      thenA (check_that (ex_name hole \<notin> set (as_seen_holes st)) (ex_span hole) (''duplicate synthesis hole `?'' @ ex_name hole @ ''`''))
      (thenA (rain () (record_hole w d hole inputs))
      (bindA (run_synthesizer fuel w (mk_synthesizer arm_name (ac_parameters c) (synth_result d) (ac_specification c) inputs True)) (\<lambda>synthesized.
       let witness = sr_witness synthesized in
       bindA (witness_body w (ac_named_inputs c) (ac_environment c) witness (ex_span hole) ''open-arm witness failed exact Fine source round trip'') (\<lambda>(lifted, body).
       thenA (rain_event w ''transition'' ''synth.arm.close'' [''synth-arm:'' @ arm_name] ''fine.synthesis''
         ''One open match arm produced an independently verified witness''
         [FString ''hole'' (hole_name hole), FString ''constructor'' (ma_constructor arm), FString ''body'' body,
          FTerm ''semantic_term'' witness, FString ''status'' ''verified''])
       (retA (witness, lifted,
          st\<lparr>as_seen_holes := ex_name hole # as_seen_holes st, as_open_arms := Suc (as_open_arms st),
             as_selections := as_selections st + length (sr_selections synthesized),
             as_core_members := as_core_members st + length (sr_core_indices synthesized),
             as_replacements := as_replacements st @ [replacement_json hole body]\<rparr>)))))))"

fun reject_nested_hole :: "expr \<Rightarrow> unit run" where
  "reject_nested_hole (Expr k sp nm b it bop es i) =
     thenA (check_that (k \<noteq> ek_hole) sp ''a synthesis hole must occupy an entire match arm'') (forA es reject_nested_hole)"

definition closed_arm :: "z3_world \<Rightarrow> arm_context \<Rightarrow> arm_state \<Rightarrow> match_arm \<Rightarrow> (zexpr \<times> expr \<times> arm_state) run" where
  "closed_arm w c st arm =
     thenA (reject_nested_hole (ma_value arm))
     (bindA (elaborate_expression w (ac_environment c) (ma_value arm)) (\<lambda>(type, term). bindA (type_at int_type) (\<lambda>result.
      thenA (check_that (type = int_type) (ex_span (ma_value arm)) (''match arm must return `'' @ rt_display result @ ''`''))
      (retA (term, ma_value arm, st)))))"

text \<open>The value of an arm speaks of the fields; in the body their accessors stand for them.\<close>

definition synth_arm ::
  "nat \<Rightarrow> z3_world \<Rightarrow> synth_decl \<Rightarrow> bound_parameter list \<Rightarrow> nat \<Rightarrow> datatype_info \<Rightarrow> zexpr \<Rightarrow> arm_state \<Rightarrow> match_arm \<Rightarrow> arm_state run" where
  "synth_arm fuel w d bound matched info specification st arm =
     bindA (enter_arm d bound matched info specification (as_seen_cases st) arm) (\<lambda>c.
     bindA (if ex_kind (ma_value arm) = ek_hole then synthesize_arm fuel w d c st arm else closed_arm w c st arm) (\<lambda>(v, surface, st).
     let matched_term = bp_term (bound ! matched); item = ac_item c;
         accessors = map (\<lambda>a. ZApp a [matched_term]) (dc_accessors item) in
     retA (st\<lparr>as_seen_cases := ma_constructor arm # as_seen_cases st,
              as_branches := as_branches st @ [(ZApp (dc_recognizer item) [matched_term],
                if ac_field_symbols c = [] then v else z_substitute (ac_field_symbols c) accessors v)],
              as_materialized := as_materialized st @ [surface]\<rparr>)))"

section \<open>Matches\<close>

definition open_match :: "z3_world \<Rightarrow> synth_decl \<Rightarrow> zexpr \<Rightarrow> unit run" where
  "open_match w d specification =
     rain_event w ''scope'' ''synth.run.open'' [synth_scope d] ''fine.synthesis''
       ''Fine-owned exhaustive match skeleton with independently typed open arms''
       [FString ''name'' (yd_name d), FString ''matched_parameter'' (ex_name (the (yd_scrutinee d))),
        FTerm ''specification'' specification, FNumber ''arms'' (length (yd_arms d))]"

definition match_query :: string where
  "match_query = ''query:match-verify''"

definition verify_match :: "z3_world \<Rightarrow> synth_decl \<Rightarrow> zexpr \<Rightarrow> zexpr \<Rightarrow> unit run" where
  "verify_match w d body verified =
     (let query = mk_not verified in
      thenA (rain_event w ''constraint'' ''synth.match.counterexample.assert'' [synth_scope d] ''fine.synthesis''
        ''Negation of the completed exhaustive match specification''
        [FTerm ''body'' body, FTerm ''specification'' verified, FTerm ''assertion'' query])
      (thenA (rain_event w ''scope'' ''solver.query.open'' [synth_scope d, match_query] ''fine.synthesis''
        ''Fresh public solver query for the complete materialized match''
        [FString ''id'' match_query, FString ''purpose'' ''refute the completed exhaustive match'',
         FTerm ''assertion'' query, FString ''polarity'' ''counterexample-exists'', FBool ''mbqi'' True, FBool ''ematching'' True])
      (bindA (solver_check w [] None [query] []) (\<lambda>verification.
       thenA (rain_event w ''transition'' ''solver.query.result'' [synth_scope d, match_query] ''z3.public-api''
         ''Final public result for the whole-match verification query''
         [FString ''query'' match_query, FString ''status'' (check_text verification),
          FString ''polarity'' ''counterexample-exists'', FString ''domain_outcome'' (outcome_text verification)])
       (thenA (rain_event w ''scope'' ''solver.query.close'' [synth_scope d, match_query] ''fine.synthesis''
         ''Whole-match public solver query lifetime'' [FString ''id'' match_query])
       (case verification of
          Unknown reason \<Rightarrow> reject (yd_span d) (''materialized match verification was unknown: '' @ reason)
        | Sat _ \<Rightarrow> reject (yd_span d) ''materialized match does not satisfy its specification''
        | Unsat _ \<Rightarrow> retA ()))))))"

definition record_match :: "z3_world \<Rightarrow> synth_decl \<Rightarrow> zexpr \<Rightarrow> arm_state \<Rightarrow> unit run" where
  "record_match w d body st =
     thenA (rain () (source_term w (yd_node_id d) (yd_span d) ''decl.synth'' body ''generated'' [synth_scope d]))
     (thenA (rain_event w ''object'' ''fine.match-witness'' [synth_scope d] ''fine.runtime''
       ''Whole verified match plus exact source-span replacements for its open arms''
       [FString ''declaration'' (yd_name d), FTerm ''semantic_term'' body,
        FRaw ''replacements'' (''['' @ join_commas (as_replacements st) @ '']''),
        FNumber ''open_arms'' (as_open_arms st), FBool ''verified'' True])
     (thenA (rain () (validate_terms w))
     (rain_event w ''scope'' ''synth.run.close'' [synth_scope d] ''fine.runtime''
       ''Exhaustive match with every open arm synthesized and the whole body freshly verified''
       [FString ''status'' (if as_open_arms st \<noteq> 0 then ''source-program'' else ''verified-materialized''),
        FNumber ''open_arms'' (as_open_arms st)])))"

definition arm_text :: "match_arm \<times> expr \<Rightarrow> string" where
  "arm_text = (\<lambda>(arm, e).
     ''  '' @ ma_constructor arm @
     (if ma_bindings arm = [] then [] else ''('' @ comma_separated (map mb_name (ma_bindings arm)) @ '')'') @
     '' => '' @ print_expression e @ '','' @ [CHR 0x0A])"

definition match_text :: "synth_decl \<Rightarrow> arm_state \<Rightarrow> string" where
  "match_text d st =
     (if as_open_arms st \<noteq> 0 then ''source-match: synthesized '' else ''verified-match: '') @ yd_name d @ '' with '' @
     nat_to_string (as_open_arms st) @ '' open arms; selected '' @ nat_to_string (as_selections st) @
     '' ground instances; cores kept '' @ nat_to_string (as_core_members st) @ [CHR 0x0A] @
     ''match '' @ ex_name (the (yd_scrutinee d)) @ '' {'' @ [CHR 0x0A] @
     concat (map arm_text (zip (yd_arms d) (as_materialized st))) @
     ''}'' @ [CHR 0x0A] @ ''verification: no counterexample'' @ [CHR 0x0A]"

definition execute_match_synthesis :: "nat \<Rightarrow> z3_world \<Rightarrow> synth_decl \<Rightarrow> nat run" where
  "execute_match_synthesis fuel w d =
     thenA (reserve_value_name (yd_name d) (yd_span d))
     (bindA (resolve_type w (yd_result_type d)) (\<lambda>result_type.
      thenA (check_that (result_type = int_type) (ty_span (yd_result_type d)) ''the first match-synthesis slice returns Int'')
      (thenA (check_that (yd_scrutinee d \<noteq> None \<and> ex_kind (the (yd_scrutinee d)) = ek_name) (yd_span d)
                ''a synthesis match must inspect one named parameter directly'')
      (let scrutinee = the (yd_scrutinee d) in
       bindA (synth_parameters w (yd_name d) (\<lambda>t. rt_kind t \<noteq> rk_table) ''synthesis parameters cannot have Table type'' (yd_parameters d)) (\<lambda>bound.
       case position_of (map bp_name bound) (ex_name scrutinee) of
         None \<Rightarrow> reject (ex_span scrutinee) ''the matched name is not a synthesis parameter''
       | Some matched \<Rightarrow>
         bindA (type_at (bp_type (bound ! matched))) (\<lambda>t.
         thenA (check_that (rt_kind t = rk_datatype) (ex_span scrutinee) ''a synthesis match requires a field-bearing datatype parameter'')
         (bindA (synth_specification w d (bound_environment bound)) (\<lambda>specification.
          bindA (getA (\<lambda>s. datatype_of s t)) (\<lambda>info.
          thenA (open_match w d specification)
          (bindA (foldA (synth_arm fuel w d bound matched info specification)
             \<lparr>as_seen_cases = [], as_seen_holes = [], as_branches = [], as_materialized = [], as_open_arms = 0,
              as_selections = 0, as_core_members = 0, as_replacements = []\<rparr> (yd_arms d)) (\<lambda>st.
           thenA (check_that (length (as_seen_cases st) = length (di_cases info)) (yd_span d)
                    (''non-exhaustive synthesis match; missing '' @ missing_cases info (as_seen_cases st)))
           (let body = match_body (as_branches st) in
            thenA (verify_match w d body (z_substitute [synth_result d] [body] specification))
            (thenA (record_match w d body st)
            (thenA (print (match_text d st))
            (retA 0)))))))))))))))"

definition execute_synthesis :: "nat \<Rightarrow> z3_world \<Rightarrow> synth_decl \<Rightarrow> nat run" where
  "execute_synthesis fuel w d =
     (case yd_scrutinee d of
        Some _ \<Rightarrow> execute_match_synthesis fuel w d
      | None \<Rightarrow> execute_function_synthesis fuel w d)"

end
