(* ===== verification/Fine_Bisimulation.thy ===== *)
theory Fine_Bisimulation
  imports Fine_Check "HOL-Library.List_Lexorder"
begin

text \<open>
  \<^verbatim>\<open>src/src/fine/bisimulation_runtime.cpp\<close>: \<^verbatim>\<open>solve bisimulation\<close> asks for a relation between the states
  of two finite transition systems, reads it off the model cell by cell, and returns it as a table
  declaration that is printed, parsed and elaborated again.
\<close>

section \<open>Inputs\<close>

definition expect_table :: "table_binding \<Rightarrow> source_span \<Rightarrow> string \<Rightarrow> unit run" where
  "expect_table b span role =
     bindA (type_at (bi_type b)) (\<lambda>t. check_that (rt_kind t = rk_table) span (role @ '' must have Table type''))"

definition expect_bool_range :: "table_binding \<Rightarrow> source_span \<Rightarrow> string \<Rightarrow> unit run" where
  "expect_bool_range b span role =
     thenA (expect_table b span role)
     (bindA (type_at (bi_type b)) (\<lambda>t. bindA (type_at (rt_arguments t ! 1)) (\<lambda>rng.
      check_that (rt_kind rng = rk_boolean) span (role @ '' must return Bool''))))"

text \<open>\<open>expected_inputs\<close> is in the order in which a \<^verbatim>\<open>std::set\<close> of strings is traversed.\<close>

definition expected_inputs :: "string list" where
  "expected_inputs = [''initial'', ''left_label'', ''left_step'', ''relation'', ''right_label'', ''right_step'']"

definition take_map :: "solve_decl \<Rightarrow> (string \<times> expr) list run" where
  "take_map d =
     bindA (foldA (\<lambda>result argument.
       thenA (check_that (map_of result (na_name argument) = None) (na_span argument)
                (''duplicate solve input `'' @ na_name argument @ ''`''))
       (retA ((na_name argument, na_value argument) # result))) [] (sd_takes d)) (\<lambda>result.
     thenA (forA (sort (map fst result)) (\<lambda>name.
       check_that (name \<in> set expected_inputs) (sd_span d) (''unexpected solve input `'' @ name @ ''`'')))
     (thenA (forA expected_inputs (\<lambda>name.
       check_that (map_of result name \<noteq> None) (sd_span d) (''missing solve input `'' @ name @ ''`'')))
     (retA result)))"

definition validate_step :: "table_binding \<Rightarrow> type_ptr \<Rightarrow> source_span \<Rightarrow> string \<Rightarrow> unit run" where
  "validate_step step state span role =
     thenA (expect_bool_range step span role)
     (bindA (type_at (bi_type step)) (\<lambda>t. bindA (type_at (rt_arguments t ! 0)) (\<lambda>domain. bindA (type_at state) (\<lambda>st.
      check_that (rt_kind domain = rk_tuple \<and> rt_arguments domain ! 0 = state \<and> rt_arguments domain ! 1 = state) span
        (role @ '' must have type Table(('' @ rt_display st @ '', '' @ rt_display st @ ''), Bool)'')))))"

definition validate_label :: "table_binding \<Rightarrow> type_ptr \<Rightarrow> source_span \<Rightarrow> string \<Rightarrow> unit run" where
  "validate_label label state span role =
     thenA (expect_bool_range label span role)
     (bindA (type_at (bi_type label)) (\<lambda>t. bindA (type_at state) (\<lambda>st.
      check_that (rt_arguments t ! 0 = state) span (role @ '' must have type Table('' @ rt_display st @ '', Bool)''))))"

text \<open>What the problem consists of once its inputs are accepted.\<close>

record bisim_problem =
  bs_name :: string
  bs_relation :: table_binding
  bs_left_step :: table_binding
  bs_right_step :: table_binding
  bs_left_label :: table_binding
  bs_right_label :: table_binding
  bs_domain :: type_ptr
  bs_left :: type_ptr
  bs_right :: type_ptr
  bs_initial :: zexpr

definition bisim_inputs :: "solve_decl \<Rightarrow> bisim_problem run" where
  "bisim_inputs d =
     thenA (check_that (sd_name d = ''bisimulation'') (sd_span d)
              (''unknown solve form `'' @ sd_name d @ ''`; this slice admits `solve bisimulation`''))
     (bindA (take_map d) (\<lambda>inputs.
      let input = (\<lambda>name. the (map_of inputs name)) in
      bindA (table_binding_of (input ''relation'') ''relation'') (\<lambda>relation.
      bindA (table_binding_of (input ''left_step'') ''left_step'') (\<lambda>left_step.
      bindA (table_binding_of (input ''right_step'') ''right_step'') (\<lambda>right_step.
      bindA (table_binding_of (input ''left_label'') ''left_label'') (\<lambda>left_label.
      bindA (table_binding_of (input ''right_label'') ''right_label'') (\<lambda>right_label.
      thenA (expect_bool_range relation (sd_span d) ''relation'')
      (thenA (check_that (bi_is_model relation) (ex_span (input ''relation'')) ''relation must name the `model` hole'')
      (bindA (type_at (bi_type relation)) (\<lambda>table. bindA (type_at (rt_arguments table ! 0)) (\<lambda>domain.
       thenA (check_that (rt_kind domain = rk_tuple) (ex_span (input ''relation'')) ''relation must be indexed by a pair of enum states'')
       (let left_type = rt_arguments domain ! 0; right_type = rt_arguments domain ! 1 in
        bindA (type_at left_type) (\<lambda>lt. bindA (type_at right_type) (\<lambda>rt.
        thenA (check_that (rt_kind lt = rk_enumeration \<and> rt_kind rt = rk_enumeration) (ex_span (input ''relation''))
                 ''bisimulation state types must be finite enums'')
        (thenA (validate_step left_step left_type (ex_span (input ''left_step'')) ''left_step'')
        (thenA (validate_step right_step right_type (ex_span (input ''right_step'')) ''right_step'')
        (thenA (validate_label left_label left_type (ex_span (input ''left_label'')) ''left_label'')
        (thenA (validate_label right_label right_type (ex_span (input ''right_label'')) ''right_label'')
        (thenA (check_that (ex_kind (sd_gives d) = ek_name \<and> ex_name (sd_gives d) = ex_name (input ''relation'')) (ex_span (sd_gives d))
                  ''`gives` must return the relation model hole'')
        (bindA (literal_value (input ''initial'') (rt_arguments table ! 0)) (\<lambda>initial.
         retA \<lparr>bs_name = ex_name (input ''relation''), bs_relation = relation, bs_left_step = left_step, bs_right_step = right_step,
               bs_left_label = left_label, bs_right_label = right_label, bs_domain = rt_arguments table ! 0,
               bs_left = left_type, bs_right = right_type, bs_initial = initial\<rparr>)))))))))))))))))))))"

section \<open>The clauses\<close>

definition pair_of :: "runtime_type list \<Rightarrow> type_ptr \<Rightarrow> zexpr \<Rightarrow> zexpr \<Rightarrow> zexpr" where
  "pair_of heap p first second = ZApp (the (rt_tuple_constructor (heap ! p))) [first, second]"

definition related :: "runtime_type list \<Rightarrow> bisim_problem \<Rightarrow> zexpr \<Rightarrow> zexpr \<Rightarrow> zexpr" where
  "related heap b l r = mk_select (bi_value (bs_relation b)) (pair_of heap (bs_domain b) l r)"

text \<open>\<^verbatim>\<open>steps_left\<close> and \<^verbatim>\<open>steps_right\<close>: a step of the system whose table is given.\<close>

definition steps :: "runtime_type list \<Rightarrow> table_binding \<Rightarrow> zexpr \<Rightarrow> zexpr \<Rightarrow> zexpr" where
  "steps heap step source target =
     mk_select (bi_value step) (pair_of heap (rt_arguments (heap ! bi_type step) ! 0) source target)"

definition named_forall :: "string \<Rightarrow> zexpr list \<Rightarrow> zexpr \<Rightarrow> zexpr" where
  "named_forall role variables body = mk_quantifier QForall (SymStr (''fine.bisim.'' @ role)) SymNull variables body"

definition bisim_clauses :: "runtime_type list \<Rightarrow> bisim_problem \<Rightarrow> (string \<times> zexpr) list" where
  "bisim_clauses heap b =
     (let left = mk_const ''Fine.left'' (rt_sort (heap ! bs_left b));
          right = mk_const ''Fine.right'' (rt_sort (heap ! bs_right b));
          left_next = mk_const ''Fine.left_next'' (rt_sort (heap ! bs_left b));
          right_next = mk_const ''Fine.right_next'' (rt_sort (heap ! bs_right b));
          steps_left = steps heap (bs_left_step b);
          steps_right = steps heap (bs_right_step b) in
      [(''labels-agree'', named_forall ''labels-agree'' [left, right]
          (mk_implies (related heap b left right)
             (mk_eq (mk_select (bi_value (bs_left_label b)) left) (mk_select (bi_value (bs_right_label b)) right)))),
       (''left-step-matched'', named_forall ''left-step-matched'' [left, right, left_next]
          (mk_implies (mk_and (related heap b left right) (steps_left left left_next))
             (mk_exists [right_next] (mk_and (steps_right right right_next) (related heap b left_next right_next))))),
       (''right-step-matched'', named_forall ''right-step-matched'' [left, right, right_next]
          (mk_implies (mk_and (related heap b left right) (steps_right right right_next))
             (mk_exists [left_next] (mk_and (steps_left left left_next) (related heap b left_next right_next))))),
       (''initial-related'', mk_select (bi_value (bs_relation b)) (bs_initial b))])"

section \<open>The query\<close>

definition bisim_scope :: "bisim_problem \<Rightarrow> string" where
  "bisim_scope b = ''bisim:'' @ bs_name b"

definition open_bisim :: "z3_world \<Rightarrow> bisim_problem \<Rightarrow> unit run" where
  "open_bisim w b =
     rain_event w ''scope'' ''bisim.run.open'' [bisim_scope b] ''fine.bisimulation''
       (''Fine's finite bisimulation elaboration, one public solver query, accepted MBQI bindings, the '' @
        ''public post-preprocessing clause stream, model extensionalization, and source round trip; '' @
        ''excludes every solver-internal boundary not named by a producer event'')
       [FTerm ''relation'' (bi_value (bs_relation b)), FTerm ''left_step'' (bi_value (bs_left_step b)),
        FTerm ''right_step'' (bi_value (bs_right_step b)), FTerm ''left_label'' (bi_value (bs_left_label b)),
        FTerm ''right_label'' (bi_value (bs_right_label b)), FTerm ''initial'' (bs_initial b), FBool ''mbqi'' True]"

definition assert_clause :: "z3_world \<Rightarrow> solve_decl \<Rightarrow> bisim_problem \<Rightarrow> string \<times> zexpr \<Rightarrow> string recording" where
  "assert_clause w d b = (\<lambda>(role, assertion).
     bindA (rain_term w assertion) (\<lambda>reference.
     thenA (source_term w (sd_node_id d) (sd_span d) ''decl.solve'' assertion ''generated'' [bisim_scope b])
     (thenA (record_event ''constraint'' ''bisim.clause.assert'' [bisim_scope b] ''fine.bisimulation''
        ''Fully elaborated bisimulation clause asserted through Z3's public solver API''
        [string_field ''role'' role, string_field ''assertion'' reference])
     (retA reference))))"

definition ask_bisim :: "z3_world \<Rightarrow> solve_decl \<Rightarrow> bisim_problem \<Rightarrow> (string \<times> zexpr) list \<Rightarrow> check_outcome run" where
  "ask_bisim w d b clauses =
     bindA (mapA (\<lambda>c. rain [] (assert_clause w d b c)) clauses) (\<lambda>references.
     thenA (rain_event w ''scope'' ''solver.query.open'' [bisim_scope b, check_query] ''fine.bisimulation''
       ''Public solver assertion boundary with scoped read-only MBQI-binding and on-clause observers''
       [FString ''id'' check_query, FString ''purpose'' ''find a finite bisimulation relation model'',
        FRaw ''assertions'' (string_array references), FString ''polarity'' ''model-exists'',
        FBool ''mbqi'' True, FBool ''ematching'' False])
     (bindA (solver_check w [(''mbqi'', True), (''ematching'', False)]
        (Some \<lparr>qo_within = [bisim_scope b, check_query], qo_ematching_enabled = False, qo_mbqi_enabled = True\<rparr>)
        (map snd clauses) []) (\<lambda>result.
      thenA (rain_event w ''transition'' ''solver.query.result'' [bisim_scope b, check_query] ''z3.public-api''
        ''Final public check result only; no claim about solver search, MBQI steps, or internal cause''
        [FString ''query'' check_query, FString ''status'' (check_text result), FString ''polarity'' ''model-exists''])
      (thenA (rain_event w ''scope'' ''solver.query.close'' [bisim_scope b, check_query] ''fine.bisimulation''
        ''Public solver query lifetime'' [FString ''id'' check_query])
      (retA result)))))"

section \<open>The relation\<close>

text \<open>One cell of the model: the array with its store, and the evidence collected so far.\<close>

definition record_cell :: "z3_world \<Rightarrow> bisim_problem \<Rightarrow> zexpr \<Rightarrow> zexpr \<Rightarrow> zexpr \<Rightarrow> string recording" where
  \<open>record_cell w b key selection cell =
     bindA (rain_term w key) (\<lambda>key_reference.
     bindA (rain_term w selection) (\<lambda>selection_reference.
     bindA (rain_term w cell) (\<lambda>value_reference.
     thenA (record_event ''derive'' ''model.eval-cell'' [bisim_scope b] ''z3.public-api''
       (''Completed evaluation of one finite relation selection under the model returned by the '' @ ''named satisfiable query'')
       [string_field ''evidence_query'' check_query, string_field ''key'' key_reference,
        string_field ''selection'' selection_reference, string_field ''value'' value_reference,
        boolean_field ''model_completion'' True, string_field ''relation'' ''equality-under-this-model''])
     (retA (''{"key":'' @ rain_quote key_reference @ '',"selection":'' @ rain_quote selection_reference @
            '',"value":'' @ rain_quote value_reference @ ''}'')))))\<close>

definition extend_cell ::
  "z3_world \<Rightarrow> solve_decl \<Rightarrow> bisim_problem \<Rightarrow> runtime_type list \<Rightarrow> (zexpr \<Rightarrow> zexpr) \<Rightarrow> zexpr \<times> string list \<Rightarrow> zexpr \<times> zexpr \<Rightarrow>
   (zexpr \<times> string list) run" where
  "extend_cell w d b heap model = (\<lambda>(canonical, evidence) (l, r).
     let key = pair_of heap (bs_domain b) l r;
         selection = mk_select (bi_value (bs_relation b)) key;
         cell = model selection in
     thenA (check_that (is_true cell \<or> is_false cell) (sd_span d) ''model returned a non-Boolean relation cell'')
     (bindA (rain [] (record_cell w b key selection cell)) (\<lambda>item.
      retA (if is_true cell then mk_store canonical key (bool_val True) else canonical, evidence @ [item]))))"

definition extensionalize ::
  "z3_world \<Rightarrow> solve_decl \<Rightarrow> bisim_problem \<Rightarrow> (zexpr \<Rightarrow> zexpr) \<Rightarrow> zexpr run" where
  "extensionalize w d b model =
     bindA (getA (\<lambda>s. (ru_heap s, ei_values (enum_of s (ru_heap s ! bs_left b)), ei_values (enum_of s (ru_heap s ! bs_right b)))))
       (\<lambda>(heap, lefts, rights).
     bindA (foldA (extend_cell w d b heap model) (const_array (rt_sort (heap ! bs_domain b)) (bool_val False), [])
              (List.product lefts rights)) (\<lambda>(canonical, evidence).
     thenA (rain_event w ''derive'' ''bisim.extensionalize-model'' [bisim_scope b] ''fine.bisimulation''
       (''Complete finite-domain enumeration assembled into Fine's deterministic false-default array '' @ ''plus true stores'')
       [FString ''evidence_query'' check_query, FRaw ''cells'' (''['' @ join_commas evidence @ '']''),
        FTerm ''output'' canonical, FString ''policy'' ''false-default-then-enumeration-order-true-stores''])
     (retA canonical)))"

section \<open>The witness\<close>

definition check_model_witness :: "z3_world \<Rightarrow> solve_decl \<Rightarrow> bisim_problem \<Rightarrow> zexpr \<Rightarrow> string \<Rightarrow> unit run" where
  "check_model_witness w d b canonical source =
     bindA (parsed source) (\<lambda>doc.
     case doc_declarations doc of
       [decl] \<Rightarrow>
         (case decl of
            ModelDecl m \<Rightarrow>
              (case md_value m of
                 Some literal \<Rightarrow>
                   thenA (guardA (md_name m = bs_name b) (RuntimeError ''internal Fine witness parser changed the declaration''))
                   (bindA (resolve_type w (md_type m)) (\<lambda>parsed_type.
                    thenA (guardA (parsed_type = bi_type (bs_relation b)) (RuntimeError ''internal Fine witness parser changed the model type''))
                    (bindA (table_value parsed_type literal) (\<lambda>roundtrip.
                     check_that (canonical = roundtrip) (sd_span d)
                       ''parse(print(lift(x))) violated exact AST identity after reification''))))
               | None \<Rightarrow> throwA (RuntimeError ''internal Fine witness parser changed the declaration''))
          | _ \<Rightarrow> throwA (RuntimeError ''internal Fine witness parser changed the declaration''))
     | _ \<Rightarrow> throwA (RuntimeError ''internal Fine witness parser returned extra declarations''))"

definition record_model_witness :: "z3_world \<Rightarrow> bisim_problem \<Rightarrow> zexpr \<Rightarrow> string \<Rightarrow> unit run" where
  "record_model_witness w b canonical source =
     thenA (rain_event w ''object'' ''fine.model-witness'' [bisim_scope b] ''fine.runtime''
       ''Lifted, printed, parsed, and elaborated model witness with exact same-manager AST identity''
       [FString ''declaration'' (bs_name b), FString ''source'' source, FTerm ''semantic_term'' canonical,
        FBool ''parse_reify_exact_identity'' True])
     (thenA (rain_event w ''transition'' ''fine.witness.accept'' [bisim_scope b] ''fine.runtime''
       (''Satisfiable model query plus finite extensionalization and Fine source '' @ ''round-trip identity check'')
       [FString ''declaration'' (bs_name b), FString ''evidence_query'' check_query,
        FString ''status'' ''model-witness'', FBool ''source_roundtrip_exact_identity'' True])
     (thenA (rain () (validate_terms w))
     (rain_event w ''scope'' ''bisim.run.close'' [bisim_scope b] ''fine.runtime''
       ''Finite bisimulation model and Fine source witness round trip'' [FString ''status'' ''model-witness''])))"

definition return_model :: "z3_world \<Rightarrow> solve_decl \<Rightarrow> bisim_problem \<Rightarrow> zexpr \<Rightarrow> nat run" where
  "return_model w d b canonical =
     bindA (getA (\<lambda>s. s)) (\<lambda>s.
     bindA (resultA (lift_table s (bi_type (bs_relation b)) canonical)) (\<lambda>table.
     let source = render_model_witness s (bs_name b) (bi_type (bs_relation b)) table in
     thenA (check_model_witness w d b canonical source)
     (thenA (record_model_witness w b canonical source)
     (thenA (print (''sat: z3 filled model-shaped hole '' @ bs_name b @ [CHR 0x0A]))
     (thenA (print source)
     (thenA (print (''parse(print(lift(x))): exact ast identity (diagnostic ast_id: '' @ nat_to_string (w_ast_id w canonical) @ '')'' @ [CHR 0x0A]))
     (retA 0)))))))"

definition execute_bisimulation :: "z3_world \<Rightarrow> solve_decl \<Rightarrow> nat run" where
  "execute_bisimulation w d =
     bindA (bisim_inputs d) (\<lambda>b.
     thenA (open_bisim w b)
     (bindA (getA ru_heap) (\<lambda>heap.
      bindA (ask_bisim w d b (bisim_clauses heap b)) (\<lambda>result.
      case result of
        Unknown reason \<Rightarrow> reject (sd_span d) (''bisimulation model hole was unknown: '' @ reason)
      | Unsat _ \<Rightarrow> reject (sd_span d) ''bisimulation model hole was unsatisfiable''
      | Sat model \<Rightarrow> bindA (extensionalize w d b model) (return_model w d b)))))"

end
