(* ===== verification/Fine_Execute.thy ===== *)
theory Fine_Execute
  imports Fine_Predicate_Induction Fine_Match_Synthesis Fine_Bisimulation
begin

text \<open>
  \<^verbatim>\<open>Runtime::execute\<close> of \<^verbatim>\<open>src/src/fine/runtime.cpp\<close>, which runs the declarations of a document, and the
  command line of \<^verbatim>\<open>src/src/fine/main.cpp\<close>: what a process prints to its two streams and returns.  The
  file system, the clock, the random device and the embedded demo are the record \<open>machine\<close>.
\<close>

section \<open>Documents\<close>

definition execute_check :: "z3_world \<Rightarrow> check_decl \<Rightarrow> nat run" where
  "execute_check w d =
     bindA (getA ru_predicates) (\<lambda>predicates.
     if predicates \<noteq> [] then execute_predicate_check w d else execute_plain_check w d)"

text \<open>What is left to run after the declarations.\<close>

record pending =
  pe_solve :: "solve_decl option"
  pe_synth :: "synth_decl option"
  pe_check :: "check_decl option"
  pe_model_hole :: "model_decl option"

definition nothing_pending :: pending where
  "nothing_pending = \<lparr>pe_solve = None, pe_synth = None, pe_check = None, pe_model_hole = None\<rparr>"

definition executable_pending :: "pending \<Rightarrow> bool" where
  "executable_pending p = (pe_solve p \<noteq> None \<or> pe_synth p \<noteq> None \<or> pe_check p \<noteq> None)"

text \<open>One declaration.  The left value of the result ends the run: a reusable proof was refuted.\<close>

primrec execute_declaration :: "z3_world \<Rightarrow> pending \<Rightarrow> fine_declaration \<Rightarrow> (nat + pending) run" where
  "execute_declaration w p (EnumDecl d) = thenA (declare_enum w d) (retA (Inr p))"
| "execute_declaration w p (FunctionDecl d) = thenA (declare_function w d) (retA (Inr p))"
| "execute_declaration w p (LetDecl d) = thenA (declare_let w d) (retA (Inr p))"
| "execute_declaration w p (ModelDecl d) =
     thenA (declare_model w d)
     (case md_value d of
        Some _ \<Rightarrow> retA (Inr p)
      | None \<Rightarrow>
        thenA (check_that (pe_model_hole p = None) (md_span d) ''this solve slice admits exactly one model-shaped hole'')
        (retA (Inr (p\<lparr>pe_model_hole := Some d\<rparr>))))"
| "execute_declaration w p (SolveDecl d) =
     thenA (check_that (\<not> executable_pending p) (sd_span d) ''this source slice admits one executable declaration'')
     (retA (Inr (p\<lparr>pe_solve := Some d\<rparr>)))"
| "execute_declaration w p (ViewDecl d) = thenA (declare_view w d) (retA (Inr p))"
| "execute_declaration w p (PredicateDecl d) = thenA (declare_predicate w d) (retA (Inr p))"
| "execute_declaration w p (SynthDecl d) =
     thenA (check_that (\<not> executable_pending p) (yd_span d) ''this source slice admits one executable declaration'')
     (retA (Inr (p\<lparr>pe_synth := Some d\<rparr>)))"
| "execute_declaration w p (CheckDecl d) =
     (if cd_reusable d
      then thenA (check_that (\<not> executable_pending p) (cd_span d) ''a reusable proof must precede the executable declaration'')
           (bindA (execute_check w d) (\<lambda>result. retA (if result \<noteq> 0 then Inl result else Inr p)))
      else thenA (check_that (\<not> executable_pending p) (cd_span d) ''this source slice admits one executable declaration'')
           (retA (Inr (p\<lparr>pe_check := Some d\<rparr>))))"
| "execute_declaration w p (CounterexampleDecl d) =
     reject (xd_span d) ''a `counterexample` declaration is a returned witness, not an executable check''"

primrec execute_declarations :: "z3_world \<Rightarrow> pending \<Rightarrow> fine_declaration list \<Rightarrow> (nat + pending) run" where
  "execute_declarations w p [] = retA (Inr p)"
| "execute_declarations w p (d # ds) =
     bindA (execute_declaration w p d) (\<lambda>r. case r of Inl result \<Rightarrow> retA (Inl result) | Inr p \<Rightarrow> execute_declarations w p ds)"

definition execute_pending :: "nat \<Rightarrow> z3_world \<Rightarrow> source_span \<Rightarrow> pending \<Rightarrow> nat run" where
  "execute_pending fuel w span p =
     bindA (getA ru_predicates) (\<lambda>predicates.
     thenA (check_that (predicates = [] \<or> pe_check p \<noteq> None) span
              ''predicates currently require one ground least-relation membership `check`'')
     (case pe_synth p of
        Some d \<Rightarrow> execute_synthesis fuel w d
      | None \<Rightarrow>
        (case pe_check p of
           Some d \<Rightarrow> execute_check w d
         | None \<Rightarrow>
           (case pe_solve p of
              None \<Rightarrow> reject span ''expected one `solve`, `synth`, or `check` declaration''
            | Some d \<Rightarrow>
              thenA (check_that (pe_model_hole p \<noteq> None) span ''expected one model-shaped hole for the solve result'')
              (execute_bisimulation w d)))))"

definition execute_runtime :: "nat \<Rightarrow> z3_world \<Rightarrow> document \<Rightarrow> nat run" where
  "execute_runtime fuel w doc =
     thenA (declare_document_sources doc)
     (bindA (execute_declarations w nothing_pending (doc_declarations doc)) (\<lambda>r.
      case r of Inl result \<Rightarrow> retA result | Inr p \<Rightarrow> execute_pending fuel w (doc_span doc) p))"

text \<open>\<^verbatim>\<open>fine::execute\<close>: a fresh runtime, with a recorder or without.\<close>

definition execute ::
  "nat \<Rightarrow> z3_world \<Rightarrow> nat list \<Rightarrow> document \<Rightarrow> bool \<Rightarrow> source_snapshot option \<Rightarrow> string \<Rightarrow> (fine_error + nat) \<times> runtime" where
  "execute fuel w random doc rainfall_output snapshot rainfall_run =
     execute_runtime fuel w doc (new_runtime rainfall_output random rainfall_run snapshot)"

section \<open>The process\<close>

record rain_request =
  rq_document_id :: string
  rq_revision :: nat
  rq_generation :: string

datatype file_contents = Contents string | CannotOpen | ReadFailed

record machine =
  ma_z3 :: z3_world
  ma_fuel :: nat
  ma_files :: "string \<Rightarrow> file_contents"
  ma_fresh_document :: string
  ma_random :: "nat list"
  ma_demo_source :: string

record process_end =
  pr_code :: nat
  pr_output :: string
  pr_errors :: string

text \<open>What the handlers of \<^verbatim>\<open>run_source\<close> and \<^verbatim>\<open>main\<close> print for an exception.  \<open>None\<close> stands for a run of the model
  that did not end within its fuel.\<close>

definition error_report :: "string \<Rightarrow> string \<Rightarrow> fine_error \<Rightarrow> string option" where
  "error_report filename source e =
     (case e of
        SemanticError span message \<Rightarrow> Some (format_semantic_error span message filename source @ [CHR 0x0A])
      | SyntaxFailure x \<Rightarrow>
          (case x of ParseError span message \<Rightarrow> Some (format_parse_error span message filename source @ [CHR 0x0A]) | OutOfFuel \<Rightarrow> None)
      | Z3Failure message \<Rightarrow> Some (''z3: '' @ message @ [CHR 0x0A])
      | RuntimeError message \<Rightarrow> Some (''fine: '' @ message @ [CHR 0x0A])
      | OutOfTime \<Rightarrow> None)"

definition process_of :: "string \<Rightarrow> string \<Rightarrow> string \<Rightarrow> fine_error + nat \<Rightarrow> process_end option" where
  "process_of filename source output r =
     (case r of
        Inr code \<Rightarrow> Some \<lparr>pr_code = code, pr_output = output, pr_errors = []\<rparr>
      | Inl e \<Rightarrow> map_option (\<lambda>report. \<lparr>pr_code = 1, pr_output = output, pr_errors = report\<rparr>) (error_report filename source e))"

definition recorded_lines :: "runtime \<Rightarrow> string" where
  "recorded_lines s = (case st_rainfall s of None \<Rightarrow> [] | Some r \<Rightarrow> concat (rc_lines r))"

text \<open>With a trace the ordinary output is discarded.\<close>

definition run_source :: "machine \<Rightarrow> string \<Rightarrow> string \<Rightarrow> bool \<Rightarrow> rain_request option \<Rightarrow> process_end option" where
  "run_source m filename source rainfall request =
     (case parse source of
        Inl e \<Rightarrow> process_of filename source [] (Inl (SyntaxFailure e))
      | Inr doc \<Rightarrow>
        if \<not> rainfall
        then (case execute (ma_fuel m) (ma_z3 m) (ma_random m) doc False None [] of (r, s) \<Rightarrow> process_of filename source (ru_output s) r)
        else
          let snapshot = make_source_snapshot (ma_fresh_document m) filename source
                (case request of None \<Rightarrow> 0 | Some q \<Rightarrow> rq_revision q) (case request of None \<Rightarrow> [] | Some q \<Rightarrow> rq_document_id q) in
          case execute (ma_fuel m) (ma_z3 m) (ma_random m) doc True (Some snapshot) (case request of None \<Rightarrow> [] | Some q \<Rightarrow> rq_generation q) of
            (r, s) \<Rightarrow> process_of filename source (recorded_lines s) r)"

definition failed_process :: "string \<Rightarrow> process_end option" where
  "failed_process message = Some \<lparr>pr_code = 1, pr_output = [], pr_errors = message @ [CHR 0x0A]\<rparr>"

definition run_file :: "machine \<Rightarrow> string \<Rightarrow> bool \<Rightarrow> rain_request option \<Rightarrow> process_end option" where
  "run_file m path rainfall request =
     (case ma_files m path of
        CannotOpen \<Rightarrow> failed_process (''fine: cannot open `'' @ path @ ''`'')
      | ReadFailed \<Rightarrow> failed_process (''fine: failed while reading `'' @ path @ ''`'')
      | Contents source \<Rightarrow> run_source m path source rainfall request)"

text \<open>\<^verbatim>\<open>std::from_chars\<close> of a 64-bit unsigned integer, which must take the whole text.\<close>

definition parse_revision :: "string \<Rightarrow> nat option" where
  "parse_revision t =
     (if t \<noteq> [] \<and> list_all is_digit t \<and> string_to_nat t < 2 ^ 64 then Some (string_to_nat t) else None)"

definition usage :: string where
  "usage =
     ''usage: fine demo-bisim'' @ [CHR 0x0A] @
     ''       fine run <source.fine>'' @ [CHR 0x0A] @
     ''       fine rain <source.fine>'' @ [CHR 0x0A] @
     ''       fine rain --document <id> --revision <n> '' @ ''--generation <id> <source.fine>''"

text \<open>\<^verbatim>\<open>main\<close> on the arguments after the name of the program.\<close>

definition main :: "machine \<Rightarrow> string list \<Rightarrow> process_end option" where
  "main m args =
     (if args = [''demo-bisim''] then run_source m ''<demo-bisim>'' (ma_demo_source m) False None
      else if length args = 2 \<and> args ! 0 = ''run'' then run_file m (args ! 1) False None
      else if length args = 2 \<and> args ! 0 = ''rain'' then run_file m (args ! 1) True None
      else if length args = 8 \<and> args ! 0 = ''rain'' \<and> args ! 1 = ''--document'' \<and> args ! 3 = ''--revision'' \<and> args ! 5 = ''--generation''
      then if args ! 2 = [] \<or> args ! 6 = [] then failed_process ''fine: invalid rain snapshot request''
           else (case parse_revision (args ! 4) of
                   None \<Rightarrow> failed_process ''fine: invalid rain snapshot request''
                 | Some revision \<Rightarrow>
                   run_file m (args ! 7) True (Some \<lparr>rq_document_id = args ! 2, rq_revision = revision, rq_generation = args ! 6\<rparr>))
      else failed_process usage)"

end
