(* ===== verification/Fine_Typing.thy ===== *)
theory Fine_Typing
  imports Fine_Execute Rainfall_Observers_Props
begin

text \<open>
  The types of the runtime.  \<open>runtime_ok\<close> says that the tables of a runtime agree with each other and with
  the sorts and declarations that Z3 was given; every operation keeps it, also when it throws.  In such
  a runtime elaboration builds only terms that Z3 accepts, of the sort of the type it reports.
\<close>

section \<open>Terms\<close>

text \<open>A term without variables and quantifiers, and the uninterpreted declarations in it.\<close>

primrec quantifier_free :: "zexpr \<Rightarrow> bool" where
  "quantifier_free (ZNumeral v s) \<longleftrightarrow> True"
| "quantifier_free (ZApp d args) \<longleftrightarrow> list_all (\<lambda>b. b) (map quantifier_free args)"
| "quantifier_free (ZVar i s) \<longleftrightarrow> False"
| "quantifier_free (ZQuant k w qid skid bs body pats nopats) \<longleftrightarrow> False"

primrec uninterpreted :: "zexpr \<Rightarrow> zdecl set" where
  "uninterpreted (ZNumeral v s) = {}"
| "uninterpreted (ZApp d args) = (if zd_family d = Uninterpreted then {d} else {}) \<union> \<Union> (set (map uninterpreted args))"
| "uninterpreted (ZVar i s) = {}"
| "uninterpreted (ZQuant k w qid skid bs body pats nopats) = uninterpreted body"

definition sorted_term :: "zdecl set \<Rightarrow> zsort \<Rightarrow> zexpr \<Rightarrow> bool" where
  "sorted_term C s t \<longleftrightarrow> well_sorted t \<and> sort_of t = s \<and> quantifier_free t \<and> uninterpreted t \<subseteq> C"

lemma sorted_term_mono: "sorted_term C s t \<Longrightarrow> C \<subseteq> D \<Longrightarrow> sorted_term D s t"
  by (auto simp: sorted_term_def)

lemma sorted_term_app:
  "list_all2 (sorted_term C) (zd_domain d) args \<Longrightarrow> (zd_family d = Uninterpreted \<Longrightarrow> d \<in> C) \<Longrightarrow>
   sorted_term C (zd_range d) (ZApp d args)"
  by (auto simp: sorted_term_def list_all2_conv_all_nth list_all_length in_set_conv_nth list_eq_iff_nth_eq)
    (metis nth_mem subsetD)+

lemma sorted_term_builtin:
  "list_all2 (sorted_term C) domain args \<Longrightarrow> sorted_term C rng (builtin name kind domain rng args)"
  unfolding builtin_def using sorted_term_app [of C "ZDecl name (Builtin kind) domain rng" args] by simp

lemma sorted_sort: "sorted_term C s t \<Longrightarrow> sort_of t = s"
  by (simp add: sorted_term_def)

lemma sorted_mk:
  "sorted_term C SBool (bool_val b)"
  "sorted_term C SInt (int_val t)"
  "sorted_term C SBool a \<Longrightarrow> sorted_term C SBool (mk_not a)"
  "sorted_term C SBool a \<Longrightarrow> sorted_term C SBool b' \<Longrightarrow> sorted_term C SBool (mk_and a b')"
  "sorted_term C SBool a \<Longrightarrow> sorted_term C SBool b' \<Longrightarrow> sorted_term C SBool (mk_or a b')"
  "sorted_term C SBool a \<Longrightarrow> sorted_term C SBool b' \<Longrightarrow> sorted_term C SBool (mk_implies a b')"
  "sorted_term C s a \<Longrightarrow> sorted_term C s b' \<Longrightarrow> sorted_term C SBool (mk_eq a b')"
  "sorted_term C SInt a \<Longrightarrow> sorted_term C SInt b' \<Longrightarrow> sorted_term C SBool (mk_le a b')"
  "sorted_term C SInt a \<Longrightarrow> sorted_term C SInt b' \<Longrightarrow> sorted_term C SBool (mk_ge a b')"
  "sorted_term C SInt a \<Longrightarrow> sorted_term C SInt b' \<Longrightarrow> sorted_term C SInt (mk_add a b')"
  "sorted_term C SInt a \<Longrightarrow> sorted_term C SInt b' \<Longrightarrow> sorted_term C SInt (mk_sub a b')"
  "sorted_term C SBool c \<Longrightarrow> sorted_term C s a \<Longrightarrow> sorted_term C s b' \<Longrightarrow> sorted_term C s (mk_ite c a b')"
  by (auto simp: bool_val_def mk_not_def mk_and_def mk_or_def mk_implies_def mk_eq_def mk_le_def mk_ge_def mk_add_def mk_sub_def
      mk_ite_def sorted_sort intro!: sorted_term_builtin)
    (simp add: sorted_term_def int_val_def)

lemma sorted_const: "ZDecl name Uninterpreted [] s \<in> C \<Longrightarrow> sorted_term C s (mk_const name s)"
  unfolding mk_const_def using sorted_term_app [of C "ZDecl name Uninterpreted [] s" "[]"] by simp

section \<open>The texts of types\<close>

text \<open>A type as a tree, and the text that stands for it in the runtime.\<close>

datatype type_tree = TName string | TPair type_tree type_tree | TTable type_tree type_tree

primrec tree_text :: "type_tree \<Rightarrow> string" where
  "tree_text (TName n) = n"
| "tree_text (TPair a b) = ''('' @ tree_text a @ '', '' @ tree_text b @ '')''"
| "tree_text (TTable a b) = ''Table('' @ tree_text a @ '', '' @ tree_text b @ '')''"

definition plain_name :: "string \<Rightarrow> bool" where
  "plain_name n \<longleftrightarrow> n \<noteq> [] \<and> list_all is_name_continue n"

primrec tree_ok :: "type_tree \<Rightarrow> bool" where
  "tree_ok (TName n) \<longleftrightarrow> plain_name n"
| "tree_ok (TPair a b) \<longleftrightarrow> tree_ok a \<and> tree_ok b"
| "tree_ok (TTable a b) \<longleftrightarrow> tree_ok a \<and> tree_ok b"

definition delimited :: "string \<Rightarrow> bool" where
  "delimited r \<longleftrightarrow> r = [] \<or> hd r \<in> {CHR '','', CHR '')''}"

lemma punctuation_ends_names [simp]:
  "\<not> is_name_continue (CHR '','')" "\<not> is_name_continue (CHR '')'')" "\<not> is_name_continue (CHR ''('')"
  by (simp_all add: is_name_continue_def is_name_start_def is_digit_def)

lemma name_prefix: "plain_name n \<Longrightarrow> r = [] \<or> \<not> is_name_continue (hd r) \<Longrightarrow> takeWhile is_name_continue (n @ r) = n"
  by (cases r) (auto simp: plain_name_def list_all_iff takeWhile_append2)

lemma delimited_not_name: "delimited r \<Longrightarrow> r = [] \<or> \<not> is_name_continue (hd r)"
  by (auto simp: delimited_def)

lemma plain_name_hd: "plain_name n \<Longrightarrow> n @ r \<noteq> CHR ''('' # t"
  by (cases n) (auto simp: plain_name_def)

lemma delimited_simps [simp]: "delimited []" "delimited (CHR '','' # r)" "delimited (CHR '')'' # r)"
  by (simp_all add: delimited_def)

lemma plain_name_table: "plain_name n \<Longrightarrow> delimited r \<Longrightarrow> n @ r \<noteq> ''Table('' @ t"
proof
  assume n: "plain_name n" and r: "delimited r" and eq: "n @ r = ''Table('' @ t"
  have "takeWhile is_name_continue (''Table'' @ ''('' @ t) = ''Table''"
    by (rule name_prefix) (simp_all add: plain_name_def is_name_continue_def is_name_start_def)
  with name_prefix [OF n delimited_not_name [OF r]] eq have "n = ''Table''" by simp
  with eq r show False by (simp add: delimited_def)
qed

lemma tree_text_prefix:
  "tree_ok t \<Longrightarrow> tree_ok u \<Longrightarrow> delimited r \<Longrightarrow> delimited r' \<Longrightarrow> tree_text t @ r = tree_text u @ r' \<Longrightarrow> t = u \<and> r = r'"
proof (induction t arbitrary: u r r')
  case (TName n)
  show ?case
  proof (cases u)
    fix m assume u: "u = TName m"
    have "takeWhile is_name_continue (n @ r) = n" by (rule name_prefix) (use TName in \<open>auto intro!: delimited_not_name\<close>)
    moreover have "takeWhile is_name_continue (m @ r') = m" by (rule name_prefix) (use TName u in \<open>auto intro!: delimited_not_name\<close>)
    ultimately show ?thesis using TName.prems(5) u by simp
  qed (use TName plain_name_hd [of n] plain_name_table [of n r] in auto)
next
  case (TPair a b)
  show ?case
  proof (cases u)
    fix c d assume u: "u = TPair c d"
    have "a = c \<and> CHR '','' # CHR '' '' # tree_text b @ '')'' @ r = CHR '','' # CHR '' '' # tree_text d @ '')'' @ r'"
      by (rule TPair.IH(1)) (use TPair.prems u in auto)
    moreover then have "b = d \<and> '')'' @ r = '')'' @ r'" by (intro TPair.IH(2)) (use TPair.prems u in auto)
    ultimately show ?thesis using u by simp
  qed (use TPair.prems plain_name_hd [of _ r'] in \<open>auto dest: sym\<close>)
next
  case (TTable a b)
  show ?case
  proof (cases u)
    fix c d assume u: "u = TTable c d"
    have "a = c \<and> CHR '','' # CHR '' '' # tree_text b @ '')'' @ r = CHR '','' # CHR '' '' # tree_text d @ '')'' @ r'"
      by (rule TTable.IH(1)) (use TTable.prems u in auto)
    moreover then have "b = d \<and> '')'' @ r = '')'' @ r'" by (intro TTable.IH(2)) (use TTable.prems u in auto)
    ultimately show ?thesis using u by simp
  qed (use TTable.prems plain_name_table [of _ r'] in \<open>auto dest: sym\<close>)
qed

lemma tree_text_inject: "tree_ok t \<Longrightarrow> tree_ok u \<Longrightarrow> tree_text t = tree_text u \<Longrightarrow> t = u"
  using tree_text_prefix [of t u "[]" "[]"] by simp

section \<open>The invariant of the runtime\<close>

definition native :: "runtime_type list \<Rightarrow> type_ptr \<Rightarrow> bool" where
  "native heap p \<longleftrightarrow> p < length heap \<and> rt_kind (heap ! p) \<noteq> rk_table"

definition sort_at :: "runtime_type list \<Rightarrow> type_ptr \<Rightarrow> zsort" where
  "sort_at heap p = rt_sort (heap ! p)"

text \<open>The names that the runtime gives to the sorts of pairs.\<close>

definition pair_name :: "string \<Rightarrow> bool" where
  "pair_name z \<longleftrightarrow> take 10 z = ''Fine.Pair.''"

text \<open>A type of the heap; its arguments are older than it is.\<close>

definition type_ok :: "runtime_type list \<Rightarrow> type_ptr \<Rightarrow> bool" where
  "type_ok heap p \<longleftrightarrow>
     (case rt_kind (heap ! p) of
        rk_boolean \<Rightarrow> p = bool_type
      | rk_integer \<Rightarrow> p = int_type
      | rk_enumeration \<Rightarrow> rt_enumeration (heap ! p) = Some (rt_display (heap ! p)) \<and> sort_at heap p = SDatatype (rt_display (heap ! p))
      | rk_datatype \<Rightarrow> rt_datatype (heap ! p) = Some (rt_display (heap ! p)) \<and> sort_at heap p = SDatatype (rt_display (heap ! p))
      | rk_tuple \<Rightarrow> (\<exists>a b z. rt_arguments (heap ! p) = [a, b] \<and> a < p \<and> b < p \<and> native heap a \<and> native heap b \<and>
          rt_display (heap ! p) = ''('' @ rt_display (heap ! a) @ '', '' @ rt_display (heap ! b) @ '')'' \<and> sort_at heap p = SDatatype z \<and>
          rt_tuple_constructor (heap ! p) = Some (ZDecl z Constructor [sort_at heap a, sort_at heap b] (SDatatype z)) \<and> pair_name z)
      | rk_table \<Rightarrow> (\<exists>a b. rt_arguments (heap ! p) = [a, b] \<and> a < p \<and> b < p \<and> native heap a \<and> native heap b \<and>
          rt_display (heap ! p) = ''Table('' @ rt_display (heap ! a) @ '', '' @ rt_display (heap ! b) @ '')'' \<and>
          sort_at heap p = SArray (sort_at heap a) (sort_at heap b)))"

definition named_kind :: "rt_kind \<Rightarrow> bool" where
  "named_kind k \<longleftrightarrow> k \<noteq> rk_tuple \<and> k \<noteq> rk_table"

definition heap_ok :: "runtime_type list \<Rightarrow> bool" where
  "heap_ok heap \<longleftrightarrow>
     2 \<le> length heap \<and> heap ! bool_type = plain_type rk_boolean SBool ''Bool'' \<and> heap ! int_type = plain_type rk_integer SInt ''Int'' \<and>
     (\<forall>p<length heap. type_ok heap p)"

definition enum_ok :: "runtime_type list \<Rightarrow> string \<Rightarrow> enum_info \<Rightarrow> bool" where
  "enum_ok heap name info \<longleftrightarrow>
     ei_name info = name \<and> ei_type info < length heap \<and> rt_kind (heap ! ei_type info) = rk_enumeration \<and>
     rt_display (heap ! ei_type info) = name \<and> distinct (ei_case_names info) \<and>
     ei_constructors info = map (\<lambda>n. ZDecl n Constructor [] (SDatatype name)) (ei_case_names info) \<and>
     ei_values info = map (\<lambda>c. ZApp c []) (ei_constructors info)"

definition item_ok :: "runtime_type list \<Rightarrow> string \<Rightarrow> datatype_case_info \<Rightarrow> bool" where
  "item_ok heap name c \<longleftrightarrow>
     length (dc_field_names c) = length (dc_field_types c) \<and> list_all (native heap) (dc_field_types c) \<and>
     dc_constructor c = ZDecl (dc_name c) Constructor (map (sort_at heap) (dc_field_types c)) (SDatatype name) \<and>
     dc_recognizer c = ZDecl (''is_'' @ dc_name c) (Recognizer (dc_name c)) [SDatatype name] SBool \<and>
     dc_accessors c = map (\<lambda>(f, p). ZDecl f (Accessor (dc_name c)) [SDatatype name] (sort_at heap p)) (zip (dc_field_names c) (dc_field_types c))"

definition datatype_ok :: "runtime_type list \<Rightarrow> string \<Rightarrow> datatype_info \<Rightarrow> bool" where
  "datatype_ok heap name info \<longleftrightarrow>
     di_name info = name \<and> di_type info < length heap \<and> rt_kind (heap ! di_type info) = rk_datatype \<and>
     rt_display (heap ! di_type info) = name \<and> di_cases info \<noteq> [] \<and> distinct (map dc_name (di_cases info)) \<and> list_all (item_ok heap name) (di_cases info)"

definition function_ok :: "runtime_type list \<Rightarrow> function_info \<Rightarrow> bool" where
  "function_ok heap f \<longleftrightarrow>
     list_all (native heap) (fi_parameter_types f) \<and> native heap (fi_result_type f) \<and>
     fi_declaration f = ZDecl (fi_name f) RecursiveFunction (map (sort_at heap) (fi_parameter_types f)) (sort_at heap (fi_result_type f))"

definition predicate_ok :: "runtime_type list \<Rightarrow> predicate_info \<Rightarrow> bool" where
  "predicate_ok heap p \<longleftrightarrow>
     list_all (native heap) (pri_index_types p) \<and>
     pri_relation p = ZDecl (pri_name p) Uninterpreted (map (sort_at heap) (pri_index_types p)) SBool"

definition view_ok :: "runtime_type list \<Rightarrow> view_info \<Rightarrow> bool" where
  "view_ok heap v \<longleftrightarrow> native heap (vi_carrier v) \<and> list_all (native heap) (vi_parameter_types v) \<and>
     length (vi_parameter_names v) = length (vi_parameter_types v)"

text \<open>A name of a constructor leads to the type and the place where it is declared.\<close>

definition cases_ok :: "runtime \<Rightarrow> bool" where
  "cases_ok s \<longleftrightarrow> (\<forall>c n i. map_of (ru_cases s) c = Some (n, i) \<longrightarrow>
     (\<exists>info. map_of (ru_enums s) n = Some info \<and> i < length (ei_case_names info) \<and> ei_case_names info ! i = c))"

definition constructors_ok :: "runtime \<Rightarrow> bool" where
  "constructors_ok s \<longleftrightarrow> (\<forall>c n i. map_of (ru_constructors s) c = Some (n, i) \<longrightarrow>
     (\<exists>info. map_of (ru_datatypes s) n = Some info \<and> i < length (di_cases info) \<and> dc_name (di_cases info ! i) = c))"

definition tables_ok :: "runtime \<Rightarrow> bool" where
  "tables_ok s \<longleftrightarrow>
     (\<forall>n info. map_of (ru_enums s) n = Some info \<longrightarrow> enum_ok (ru_heap s) n info) \<and>
     (\<forall>n info. map_of (ru_datatypes s) n = Some info \<longrightarrow> datatype_ok (ru_heap s) n info) \<and>
     (\<forall>n f. map_of (ru_functions s) n = Some f \<longrightarrow> function_ok (ru_heap s) f) \<and>
     (\<forall>n p. map_of (ru_predicates s) n = Some p \<longrightarrow> predicate_ok (ru_heap s) p) \<and>
     (\<forall>n v. map_of (ru_views s) n = Some v \<longrightarrow> view_ok (ru_heap s) v)"

text \<open>Types are interned: each is found under its text, a named one among the names, a compound one among
  the compound types.\<close>

definition interned :: "runtime \<Rightarrow> bool" where
  "interned s \<longleftrightarrow>
     (\<forall>p<length (ru_heap s). named_kind (rt_kind (ru_heap s ! p)) \<longrightarrow>
        plain_name (rt_display (ru_heap s ! p)) \<and> map_of (ru_types s) (rt_display (ru_heap s ! p)) = Some p) \<and>
     (\<forall>p<length (ru_heap s). \<not> named_kind (rt_kind (ru_heap s ! p)) \<longrightarrow> map_of (ru_compound_types s) (rt_display (ru_heap s ! p)) = Some p) \<and>
     (\<forall>n p. map_of (ru_types s) n = Some p \<longrightarrow>
        p < length (ru_heap s) \<and> rt_display (ru_heap s ! p) = n \<and> named_kind (rt_kind (ru_heap s ! p))) \<and>
     (\<forall>k p. map_of (ru_compound_types s) k = Some p \<longrightarrow>
        p < length (ru_heap s) \<and> rt_display (ru_heap s ! p) = k \<and> \<not> named_kind (rt_kind (ru_heap s ! p)))"

text \<open>Every enumeration and every datatype of the heap has its information.\<close>

definition informed :: "runtime \<Rightarrow> bool" where
  "informed s \<longleftrightarrow>
     (\<forall>p<length (ru_heap s). rt_kind (ru_heap s ! p) = rk_enumeration \<longrightarrow>
        (\<exists>info. map_of (ru_enums s) (rt_display (ru_heap s ! p)) = Some info)) \<and>
     (\<forall>p<length (ru_heap s). rt_kind (ru_heap s ! p) = rk_datatype \<longrightarrow>
        (\<exists>info. map_of (ru_datatypes s) (rt_display (ru_heap s ! p)) = Some info))"

definition runtime_ok :: "runtime \<Rightarrow> bool" where
  "runtime_ok s \<longleftrightarrow> heap_ok (ru_heap s) \<and> tables_ok s \<and> cases_ok s \<and> constructors_ok s \<and> interned s \<and> informed s"

definition runtime_le :: "runtime \<Rightarrow> runtime \<Rightarrow> bool" where
  "runtime_le s s' \<longleftrightarrow> (\<exists>types. ru_heap s' = ru_heap s @ types) \<and>
     (\<forall>n info. map_of (ru_enums s) n = Some info \<longrightarrow> map_of (ru_enums s') n = Some info) \<and>
     (\<forall>n info. map_of (ru_datatypes s) n = Some info \<longrightarrow> map_of (ru_datatypes s') n = Some info) \<and>
     (\<forall>n p. map_of (ru_predicates s) n = Some p \<longrightarrow> (\<exists>p'. map_of (ru_predicates s') n = Some p' \<and> pri_relation p' = pri_relation p))"

lemma runtime_le_refl: "runtime_le s s"
  by (simp add: runtime_le_def)

lemma runtime_le_trans: "runtime_le s t \<Longrightarrow> runtime_le t u \<Longrightarrow> runtime_le s u"
  by (auto simp: runtime_le_def) metis

text \<open>Actions that keep the invariant and whose result has a property.\<close>

context action_invariant
begin

definition ensures :: "'s \<Rightarrow> ('s, 'e, 'a) action \<Rightarrow> ('a \<Rightarrow> 's \<Rightarrow> bool) \<Rightarrow> bool" where
  "ensures s p Q \<longleftrightarrow> vcA p (\<lambda>x s'. inv s' \<and> le s s' \<and> Q x s') (\<lambda>_ s'. weak s' \<and> le s s') s"

lemma ensures_mono: "ensures s p Q \<Longrightarrow> (\<And>x s'. inv s' \<Longrightarrow> le s s' \<Longrightarrow> Q x s' \<Longrightarrow> R x s') \<Longrightarrow> ensures s p R"
  unfolding ensures_def by (erule vcA_mono) auto

lemma ensures_keeps: "keeps p \<Longrightarrow> inv s \<Longrightarrow> ensures s p (\<lambda>_ _. True)"
  unfolding ensures_def by (rule vcA_mono [OF keepsD]) auto

lemma keeps_ensures: "(\<And>s. inv s \<Longrightarrow> ensures s p (\<lambda>_ _. True)) \<Longrightarrow> keeps p"
  unfolding ensures_def by (intro keepsI) (auto elim: vcA_mono)

lemma ensures_ret: "inv s \<Longrightarrow> Q x s \<Longrightarrow> ensures s (retA x) Q"
  unfolding ensures_def by (intro act_rule) (simp add: le_refl)

lemma ensures_throw: "inv s \<Longrightarrow> ensures s (throwA e) Q"
  unfolding ensures_def by (intro act_rule) (simp add: le_refl inv_weak)

lemma ensures_get: "inv s \<Longrightarrow> Q (f s) s \<Longrightarrow> ensures s (getA f) Q"
  unfolding ensures_def by (intro act_rule) (simp add: le_refl)

lemma ensures_modify: "inv (f s) \<Longrightarrow> le s (f s) \<Longrightarrow> Q () (f s) \<Longrightarrow> ensures s (modifyA f) Q"
  unfolding ensures_def by (intro act_rule) simp

lemma ensures_bind:
  assumes "ensures s p Q" "\<And>x s'. inv s' \<Longrightarrow> le s s' \<Longrightarrow> Q x s' \<Longrightarrow> ensures s' (f x) R"
  shows "ensures s (bindA p f) R"
  using assms(1) unfolding ensures_def
proof (intro vcA_bind, elim vcA_mono)
  fix x s' assume x: "inv s' \<and> le s s' \<and> Q x s'"
  with assms(2) have "ensures s' (f x) R" by simp
  then show "vcA (f x) (\<lambda>y t. inv t \<and> le s t \<and> R y t) (\<lambda>_ t. weak t \<and> le s t) s'"
    unfolding ensures_def by (rule vcA_mono) (use x in \<open>auto intro: le_trans\<close>)
qed

lemma ensures_then: "ensures s p Q \<Longrightarrow> (\<And>x s'. inv s' \<Longrightarrow> le s s' \<Longrightarrow> Q x s' \<Longrightarrow> ensures s' q R) \<Longrightarrow> ensures s (thenA p q) R"
  unfolding thenA_def by (rule ensures_bind)

lemma ensures_guard: "inv s \<Longrightarrow> (b \<Longrightarrow> ensures s q R) \<Longrightarrow> ensures s (thenA (guardA b e) q) R"
  unfolding ensures_def by (intro act_rule) (simp_all add: le_refl inv_weak)

lemma ensures_read: "inv s \<Longrightarrow> ensures s (f (g s)) R \<Longrightarrow> ensures s (bindA (getA g) f) R"
  unfolding ensures_def by (intro act_rule)

lemma ensures_if: "(b \<Longrightarrow> ensures s p Q) \<Longrightarrow> (\<not> b \<Longrightarrow> ensures s q Q) \<Longrightarrow> ensures s (if b then p else q) Q"
  by simp

lemma ensures_option:
  "(x = None \<Longrightarrow> ensures s p Q) \<Longrightarrow> (\<And>y. x = Some y \<Longrightarrow> ensures s (q y) Q) \<Longrightarrow> ensures s (case x of None \<Rightarrow> p | Some y \<Rightarrow> q y) Q"
  by (cases x) simp_all

lemma ensures_prod: "(\<And>y z. x = (y, z) \<Longrightarrow> ensures s (f y z) Q) \<Longrightarrow> ensures s (case x of (y, z) \<Rightarrow> f y z) Q"
  by (cases x) simp

lemma ensures_let: "(\<And>y. y = x \<Longrightarrow> ensures s (f y) Q) \<Longrightarrow> ensures s (let y = x in f y) Q"
  by (simp add: Let_def)

lemma ensures_map:
  assumes "\<And>x s'. x \<in> set xs \<Longrightarrow> inv s' \<Longrightarrow> le s s' \<Longrightarrow> ensures s' (f x) (P x)"
    and "\<And>x y s' s''. P x y s' \<Longrightarrow> le s' s'' \<Longrightarrow> P x y s''" and "inv s"
  shows "ensures s (mapA f xs) (\<lambda>ys s'. list_all2 (\<lambda>x y. P x y s') xs ys)"
  using assms(1,3)
proof (induction xs arbitrary: s)
  case Nil
  then show ?case by (simp add: ensures_ret)
next
  case (Cons x xs)
  have tail: "ensures s' (mapA f xs) (\<lambda>ys s''. list_all2 (\<lambda>x y. P x y s'') xs ys)" if "inv s'" "le s s'" for s'
    using that Cons.prems(1) by (intro Cons.IH) (auto intro: le_trans)
  show ?case unfolding mapA.simps
    by (rule ensures_bind [OF Cons.prems(1)], simp, rule Cons.prems(2), rule le_refl,
        rule ensures_bind [OF tail], assumption, assumption, rule ensures_ret) (auto intro: assms(2))
qed

lemma ensures_fold:
  assumes "\<And>b x s'. x \<in> set xs \<Longrightarrow> inv s' \<Longrightarrow> le s s' \<Longrightarrow> I b s' \<Longrightarrow> ensures s' (f b x) I" and "inv s" "I b s"
  shows "ensures s (foldA f b xs) I"
  using assms
proof (induction xs arbitrary: s b)
  case Nil
  then show ?case by (simp add: ensures_ret)
next
  case (Cons x xs)
  have tail: "ensures s' (foldA f c xs) I" if "inv s'" "le s s'" "I c s'" for c s'
    using that Cons.prems(1) by (intro Cons.IH) (auto intro: le_trans)
  show ?case unfolding foldA.simps
    by (rule ensures_bind [OF Cons.prems(1)]) (use Cons.prems in \<open>auto intro: tail le_refl\<close>)
qed

lemma ensures_fold_step:
  assumes "\<And>ys x zs b s'. xs = ys @ x # zs \<Longrightarrow> inv s' \<Longrightarrow> le s s' \<Longrightarrow> I ys b s' \<Longrightarrow> ensures s' (f b x) (I (ys @ [x]))"
    and "inv s" "I [] b s"
  shows "ensures s (foldA f b xs) (I xs)"
  unfolding ensures_def
proof (rule vcA_fold_step [where I = "\<lambda>ys b s'. inv s' \<and> le s s' \<and> I ys b s'"])
  fix ys x zs b s' assume "xs = ys @ x # zs" and s': "inv s' \<and> le s s' \<and> I ys b s'"
  with assms(1) have "ensures s' (f b x) (I (ys @ [x]))" by blast
  then show "vcA (f b x) (\<lambda>b t. inv t \<and> le s t \<and> I (ys @ [x]) b t) (\<lambda>_ t. weak t \<and> le s t) s'"
    unfolding ensures_def by (rule vcA_mono) (use s' in \<open>auto intro: le_trans\<close>)
qed (use assms in \<open>auto intro: le_refl\<close>)

end

interpretation typed: action_invariant runtime_ok runtime_ok runtime_le
  by unfold_locales (auto intro: runtime_le_refl runtime_le_trans)

lemma new_runtime_ok: "runtime_ok (new_runtime rainfall random run snapshot)"
  by (auto simp: runtime_ok_def new_runtime_def heap_ok_def tables_ok_def cases_ok_def constructors_ok_def interned_def informed_def
      type_ok_def bool_type_def int_type_def plain_type_def native_def named_kind_def plain_name_def is_name_continue_def is_name_start_def
      less_Suc_eq numeral_2_eq_2 split: if_splits)

section \<open>Extending the heap\<close>

lemma native_append: "native heap p \<Longrightarrow> native (heap @ ts) p"
  by (simp add: native_def nth_append)

lemma sort_at_append: "p < length heap \<Longrightarrow> sort_at (heap @ ts) p = sort_at heap p"
  by (simp add: sort_at_def nth_append)

lemma native_sort_append: "native heap p \<Longrightarrow> sort_at (heap @ ts) p = sort_at heap p"
  by (simp add: native_def sort_at_append)

lemma map_sort_append: "list_all (native heap) ps \<Longrightarrow> map (sort_at (heap @ ts)) ps = map (sort_at heap) ps"
  by (simp add: list_all_iff native_sort_append)

lemma list_native_append: "list_all (native heap) ps \<Longrightarrow> list_all (native (heap @ ts)) ps"
  by (auto simp: list_all_iff native_append)

lemma type_ok_append: "p < length heap \<Longrightarrow> type_ok heap p \<Longrightarrow> type_ok (heap @ ts) p"
  by (cases "rt_kind (heap ! p)") (auto simp: type_ok_def nth_append sort_at_def native_def)

lemma heap_ok_snoc: "heap_ok heap \<Longrightarrow> type_ok (heap @ [t]) (length heap) \<Longrightarrow> heap_ok (heap @ [t])"
  by (auto simp: heap_ok_def less_Suc_eq type_ok_append nth_append bool_type_def int_type_def)

lemma enum_ok_append: "enum_ok heap n info \<Longrightarrow> enum_ok (heap @ ts) n info"
  by (simp add: enum_ok_def nth_append)

lemma item_ok_append: "item_ok heap n c \<Longrightarrow> item_ok (heap @ ts) n c"
proof -
  assume c: "item_ok heap n c"
  have "map (\<lambda>(f, p). ZDecl f (Accessor (dc_name c)) [SDatatype n] (sort_at (heap @ ts) p)) (zip (dc_field_names c) (dc_field_types c)) =
      map (\<lambda>(f, p). ZDecl f (Accessor (dc_name c)) [SDatatype n] (sort_at heap p)) (zip (dc_field_names c) (dc_field_types c))"
    using c by (auto simp: item_ok_def list_all_iff native_sort_append dest: set_zip_rightD)
  with c show ?thesis by (simp add: item_ok_def list_native_append map_sort_append)
qed

lemma datatype_ok_append: "datatype_ok heap n info \<Longrightarrow> datatype_ok (heap @ ts) n info"
  by (auto simp: datatype_ok_def nth_append list_all_iff item_ok_append)

lemma function_ok_append: "function_ok heap f \<Longrightarrow> function_ok (heap @ ts) f"
  by (simp add: function_ok_def list_native_append map_sort_append native_append native_sort_append)

lemma predicate_ok_append: "predicate_ok heap p \<Longrightarrow> predicate_ok (heap @ ts) p"
  by (simp add: predicate_ok_def list_native_append map_sort_append)

lemma view_ok_append: "view_ok heap v \<Longrightarrow> view_ok (heap @ ts) v"
  by (simp add: view_ok_def list_native_append native_append)

lemmas ok_append = native_append enum_ok_append datatype_ok_append function_ok_append predicate_ok_append view_ok_append

lemma tables_ok_append: "tables_ok s \<Longrightarrow> tables_ok (s\<lparr>ru_heap := ru_heap s @ ts\<rparr>)"
  unfolding tables_ok_def by (auto simp: ok_append nth_append trans_less_add1)

section \<open>Interning\<close>

text \<open>The tree that a type of the heap stands for.\<close>

inductive represents :: "runtime_type list \<Rightarrow> type_ptr \<Rightarrow> type_tree \<Rightarrow> bool" for heap where
  represents_name: "p < length heap \<Longrightarrow> named_kind (rt_kind (heap ! p)) \<Longrightarrow> represents heap p (TName (rt_display (heap ! p)))"
| represents_pair: "p < length heap \<Longrightarrow> rt_kind (heap ! p) = rk_tuple \<Longrightarrow> rt_arguments (heap ! p) = [a, b] \<Longrightarrow>
    represents heap a t \<Longrightarrow> represents heap b u \<Longrightarrow> represents heap p (TPair t u)"
| represents_table: "p < length heap \<Longrightarrow> rt_kind (heap ! p) = rk_table \<Longrightarrow> rt_arguments (heap ! p) = [a, b] \<Longrightarrow>
    represents heap a t \<Longrightarrow> represents heap b u \<Longrightarrow> represents heap p (TTable t u)"

inductive_cases represents_nameE: "represents heap p (TName n)"
inductive_cases represents_pairE: "represents heap p (TPair t u)"
inductive_cases represents_tableE: "represents heap p (TTable t u)"

lemma runtime_okD:
  assumes "runtime_ok s"
  shows "heap_ok (ru_heap s)" "tables_ok s" "cases_ok s" "constructors_ok s" "interned s" "informed s"
  using assms by (simp_all add: runtime_ok_def)

lemma type_okD: "runtime_ok s \<Longrightarrow> p < length (ru_heap s) \<Longrightarrow> type_ok (ru_heap s) p"
  by (simp add: runtime_ok_def heap_ok_def)

lemma internedD:
  assumes "runtime_ok s" "p < length (ru_heap s)"
  shows "named_kind (rt_kind (ru_heap s ! p)) \<Longrightarrow> plain_name (rt_display (ru_heap s ! p))"
    and "named_kind (rt_kind (ru_heap s ! p)) \<Longrightarrow> map_of (ru_types s) (rt_display (ru_heap s ! p)) = Some p"
    and "\<not> named_kind (rt_kind (ru_heap s ! p)) \<Longrightarrow> map_of (ru_compound_types s) (rt_display (ru_heap s ! p)) = Some p"
  using runtime_okD(5) [OF assms(1)] assms(2) unfolding interned_def by blast+

lemma namedD:
  assumes "runtime_ok s" "map_of (ru_types s) n = Some p"
  shows "p < length (ru_heap s)" "rt_display (ru_heap s ! p) = n" "named_kind (rt_kind (ru_heap s ! p))"
  using runtime_okD(5) [OF assms(1)] assms(2) unfolding interned_def by blast+

lemma compoundD:
  assumes "runtime_ok s" "map_of (ru_compound_types s) k = Some p"
  shows "p < length (ru_heap s)" "rt_display (ru_heap s ! p) = k" "\<not> named_kind (rt_kind (ru_heap s ! p))"
  using runtime_okD(5) [OF assms(1)] assms(2) unfolding interned_def by blast+

lemma tuple_typeD:
  assumes "runtime_ok s" "p < length (ru_heap s)" "rt_kind (ru_heap s ! p) = rk_tuple"
  obtains a b z where "rt_arguments (ru_heap s ! p) = [a, b]" "a < p" "b < p" "native (ru_heap s) a" "native (ru_heap s) b"
    "rt_display (ru_heap s ! p) = ''('' @ rt_display (ru_heap s ! a) @ '', '' @ rt_display (ru_heap s ! b) @ '')''"
    "sort_at (ru_heap s) p = SDatatype z"
    "rt_tuple_constructor (ru_heap s ! p) = Some (ZDecl z Constructor [sort_at (ru_heap s) a, sort_at (ru_heap s) b] (SDatatype z))" "pair_name z"
  using type_okD [OF assms(1,2)] assms(3) by (auto simp: type_ok_def)

lemma table_typeD:
  assumes "runtime_ok s" "p < length (ru_heap s)" "rt_kind (ru_heap s ! p) = rk_table"
  obtains a b where "rt_arguments (ru_heap s ! p) = [a, b]" "a < p" "b < p" "native (ru_heap s) a" "native (ru_heap s) b"
    "rt_display (ru_heap s ! p) = ''Table('' @ rt_display (ru_heap s ! a) @ '', '' @ rt_display (ru_heap s ! b) @ '')''"
    "sort_at (ru_heap s) p = SArray (sort_at (ru_heap s) a) (sort_at (ru_heap s) b)"
  using type_okD [OF assms(1,2)] assms(3) by (auto simp: type_ok_def)

lemma represented:
  assumes "runtime_ok s" "p < length (ru_heap s)"
  shows "\<exists>t. represents (ru_heap s) p t \<and> tree_ok t \<and> rt_display (ru_heap s ! p) = tree_text t"
  using assms(2)
proof (induction p rule: less_induct)
  case (less p)
  consider "named_kind (rt_kind (ru_heap s ! p))" | "rt_kind (ru_heap s ! p) = rk_tuple" | "rt_kind (ru_heap s ! p) = rk_table"
    by (auto simp: named_kind_def)
  then show ?case
  proof cases
    case 1
    then show ?thesis
      using represents_name [OF less.prems 1] internedD(1) [OF assms(1) less.prems 1]
      by (intro exI [of _ "TName (rt_display (ru_heap s ! p))"]) simp
  next
    case 2
    obtain a b where ab: "rt_arguments (ru_heap s ! p) = [a, b]" "a < p" "b < p"
      "rt_display (ru_heap s ! p) = ''('' @ rt_display (ru_heap s ! a) @ '', '' @ rt_display (ru_heap s ! b) @ '')''"
      by (rule tuple_typeD [OF assms(1) less.prems 2]) (rule that)
    have "a < length (ru_heap s)" "b < length (ru_heap s)" using ab less.prems by auto
    then obtain t u where "represents (ru_heap s) a t" "tree_ok t" "rt_display (ru_heap s ! a) = tree_text t"
      "represents (ru_heap s) b u" "tree_ok u" "rt_display (ru_heap s ! b) = tree_text u"
      using less.IH [OF ab(2)] less.IH [OF ab(3)] by auto
    with ab less.prems 2 show ?thesis by (intro exI [of _ "TPair t u"]) (auto intro: represents_pair)
  next
    case 3
    obtain a b where ab: "rt_arguments (ru_heap s ! p) = [a, b]" "a < p" "b < p"
      "rt_display (ru_heap s ! p) = ''Table('' @ rt_display (ru_heap s ! a) @ '', '' @ rt_display (ru_heap s ! b) @ '')''"
      by (rule table_typeD [OF assms(1) less.prems 3]) (rule that)
    have "a < length (ru_heap s)" "b < length (ru_heap s)" using ab less.prems by auto
    then obtain t u where "represents (ru_heap s) a t" "tree_ok t" "rt_display (ru_heap s ! a) = tree_text t"
      "represents (ru_heap s) b u" "tree_ok u" "rt_display (ru_heap s ! b) = tree_text u"
      using less.IH [OF ab(2)] less.IH [OF ab(3)] by auto
    with ab less.prems 3 show ?thesis by (intro exI [of _ "TTable t u"]) (auto intro: represents_table)
  qed
qed

lemma compound_display:
  assumes "runtime_ok s" "p < length (ru_heap s)" "\<not> named_kind (rt_kind (ru_heap s ! p))"
  shows "\<not> plain_name (rt_display (ru_heap s ! p))"
proof -
  consider "rt_kind (ru_heap s ! p) = rk_tuple" | "rt_kind (ru_heap s ! p) = rk_table"
    using assms(3) by (auto simp: named_kind_def)
  then have "CHR ''('' \<in> set (rt_display (ru_heap s ! p))"
  proof cases
    case 1
    show ?thesis by (rule tuple_typeD [OF assms(1,2) 1]) simp
  next
    case 2
    show ?thesis by (rule table_typeD [OF assms(1,2) 2]) simp
  qed
  then show ?thesis unfolding plain_name_def list_all_iff using punctuation_ends_names(3) by blast
qed

lemma display_inject:
  assumes "runtime_ok s" "p < length (ru_heap s)" "q < length (ru_heap s)" "rt_display (ru_heap s ! p) = rt_display (ru_heap s ! q)"
  shows "p = q"
proof (cases "named_kind (rt_kind (ru_heap s ! p))")
  case True
  have "plain_name (rt_display (ru_heap s ! q))" using internedD(1) [OF assms(1,2) True] by (simp only: assms(4))
  with compound_display [OF assms(1,3)] have q: "named_kind (rt_kind (ru_heap s ! q))" by blast
  have "Some p = Some q"
    by (rule trans [OF internedD(2) [OF assms(1,2) True, symmetric]]) (simp only: assms(4) internedD(2) [OF assms(1,3) q])
  then show ?thesis by simp
next
  case False
  have "\<not> plain_name (rt_display (ru_heap s ! q))" using compound_display [OF assms(1,2) False] unfolding assms(4) .
  with internedD(1) [OF assms(1,3)] have q: "\<not> named_kind (rt_kind (ru_heap s ! q))" by blast
  have "Some p = Some q"
    by (rule trans [OF internedD(3) [OF assms(1,2) False, symmetric]]) (simp only: assms(4) internedD(3) [OF assms(1,3) q])
  then show ?thesis by simp
qed

lemma display_pair:
  assumes "runtime_ok s" "a < length (ru_heap s)" "b < length (ru_heap s)" "c < length (ru_heap s)" "d < length (ru_heap s)"
    and "rt_display (ru_heap s ! a) @ '', '' @ rt_display (ru_heap s ! b) @ '')'' = rt_display (ru_heap s ! c) @ '', '' @ rt_display (ru_heap s ! d) @ '')''"
  shows "a = c \<and> b = d"
proof -
  obtain ta tb tc td where t: "tree_ok ta" "rt_display (ru_heap s ! a) = tree_text ta" "tree_ok tb" "rt_display (ru_heap s ! b) = tree_text tb"
    "tree_ok tc" "rt_display (ru_heap s ! c) = tree_text tc" "tree_ok td" "rt_display (ru_heap s ! d) = tree_text td"
    using assms(1-5) by (meson represented)
  with assms(6) have "ta = tc \<and> CHR '','' # CHR '' '' # tree_text tb @ '')'' = CHR '','' # CHR '' '' # tree_text td @ '')''"
    by (intro tree_text_prefix) auto
  moreover then have "tb = td \<and> '')'' = '')''" using t by (intro tree_text_prefix) auto
  ultimately show ?thesis using t assms(2-5) display_inject [OF assms(1)] by simp
qed

section \<open>Operations that leave the tables alone\<close>

lemma runtime_ok_update [simp]:
  "runtime_ok (s\<lparr>st_rainfall := a\<rparr>) = runtime_ok s" "runtime_ok (s\<lparr>st_queries := b\<rparr>) = runtime_ok s"
  "runtime_ok (s\<lparr>ru_output := c\<rparr>) = runtime_ok s" "runtime_ok (s\<lparr>ru_bindings := d\<rparr>) = runtime_ok s"
  "runtime_ok (s\<lparr>ru_admitted_proofs := e\<rparr>) = runtime_ok s" "runtime_ok (s\<lparr>ru_value_names := f\<rparr>) = runtime_ok s"
  "runtime_ok (s\<lparr>ru_tuple_sequence := g\<rparr>) = runtime_ok s" "runtime_ok (s\<lparr>ru_capture_source_edges := h\<rparr>) = runtime_ok s"
  "runtime_ok (s\<lparr>ru_source_edge_within := i\<rparr>) = runtime_ok s" "runtime_ok (s\<lparr>ru_recdefs := j\<rparr>) = runtime_ok s"
  "runtime_ok (s\<lparr>ru_relations := k\<rparr>) = runtime_ok s" "runtime_ok (s\<lparr>ru_rules := l\<rparr>) = runtime_ok s"
  by (simp_all add: runtime_ok_def tables_ok_def cases_ok_def constructors_ok_def interned_def informed_def)

lemma runtime_le_update [simp]:
  "runtime_le s (t\<lparr>st_rainfall := a\<rparr>) = runtime_le s t" "runtime_le s (t\<lparr>st_queries := b\<rparr>) = runtime_le s t"
  "runtime_le s (t\<lparr>ru_output := c\<rparr>) = runtime_le s t" "runtime_le s (t\<lparr>ru_bindings := d\<rparr>) = runtime_le s t"
  "runtime_le s (t\<lparr>ru_admitted_proofs := e\<rparr>) = runtime_le s t" "runtime_le s (t\<lparr>ru_value_names := f\<rparr>) = runtime_le s t"
  "runtime_le s (t\<lparr>ru_tuple_sequence := g\<rparr>) = runtime_le s t" "runtime_le s (t\<lparr>ru_capture_source_edges := h\<rparr>) = runtime_le s t"
  "runtime_le s (t\<lparr>ru_source_edge_within := i\<rparr>) = runtime_le s t" "runtime_le s (t\<lparr>ru_recdefs := j\<rparr>) = runtime_le s t"
  "runtime_le s (t\<lparr>ru_relations := k\<rparr>) = runtime_le s t" "runtime_le s (t\<lparr>ru_rules := l\<rparr>) = runtime_le s t"
  by (simp_all add: runtime_le_def)

lemma typed_rain: "typed.keeps (rain d p)"
  by (rule typed.keepsI) (auto simp: vcA_def rain_def runtime_le_refl split: option.splits prod.splits sum.splits)

lemma typed_rain_event: "typed.keeps (rain_event w kind operation within producer coverage specs)"
  unfolding rain_event_def by (rule typed_rain)

lemma typed_check_that: "typed.keeps (check_that b span message)"
  unfolding check_that_def by (rule typed.keeps_guard)

lemma typed_reject: "typed.keeps (reject span message)"
  unfolding reject_def by (rule typed.keeps_throw)

lemma typed_type_at: "typed.keeps (type_at p)"
  unfolding type_at_def by (rule typed.keeps_get)

lemma typed_print: "typed.keeps (print t)"
  unfolding print_def by (rule typed.keeps_modify) (simp add: runtime_le_refl)

lemma typed_new_datatype: "typed.keeps (new_datatype w name cases)"
  unfolding new_datatype_def by (intro typed.keeps_rules)

lemma typed_reserve_type_name: "typed.keeps (reserve_type_name name span)"
  unfolding reserve_type_name_def by (intro typed.keeps_rules typed_check_that)

lemma typed_reserve_value_name: "typed.keeps (reserve_value_name name span)"
  unfolding reserve_value_name_def
  by (intro typed.keeps_rules typed_check_that typed.keeps_modify) (simp add: runtime_le_refl)

lemma typed_solver_check: "typed.keeps (solver_check w params obs assertions assumptions)"
proof (rule typed.keepsI)
  fix s assume s: "runtime_ok s"
  obtain cs outcome where c: "w_check w (st_queries s) params assertions assumptions = (cs, outcome)"
    by (cases "w_check w (st_queries s) params assertions assumptions")
  have k: "typed.keeps (thenA (case obs of None \<Rightarrow> retA () | Some ob \<Rightarrow> rain () (forA cs (run_callback w ob))) (retA outcome))"
    by (intro typed.keeps_rules typed_rain)
  from typed.keepsD [OF k, of "s\<lparr>st_queries := Suc (st_queries s)\<rparr>"] s
  show "vcA (solver_check w params obs assertions assumptions) (\<lambda>_ t. runtime_ok t \<and> runtime_le s t) (\<lambda>_ t. runtime_ok t \<and> runtime_le s t) s"
    unfolding solver_check_def by (simp add: vcA_def bindA_def thenA_def getA_def modifyA_def c runtime_le_def)
qed

lemma typed_simplify: "typed.keeps (simplify_with_rainfall w e within)"
  unfolding simplify_with_rainfall_def by (intro typed.keeps_rules typed_rain)

lemma typed_completed: "typed.keeps (completed_expression w source type e)"
  unfolding completed_expression_def by (intro typed.keeps_rules typed_rain)

lemmas typed_rules = typed.keeps_rules typed_rain typed_rain_event typed_check_that typed_reject typed_type_at typed_print
  typed_new_datatype typed_reserve_type_name typed_reserve_value_name typed_solver_check typed_simplify typed_completed

section \<open>Types\<close>

lemma runtime_ok_push:
  assumes s: "runtime_ok s" and t: "type_ok (ru_heap s @ [t]) (length (ru_heap s))" "\<not> named_kind (rt_kind t)"
    and fresh: "map_of (ru_compound_types s) (rt_display t) = None"
  shows "runtime_ok (s\<lparr>ru_heap := ru_heap s @ [t], ru_compound_types := emplace (rt_display t) (length (ru_heap s)) (ru_compound_types s)\<rparr>)"
    (is "runtime_ok ?s")
proof -
  note ok = runtime_okD [OF s]
  have "heap_ok (ru_heap ?s)" using heap_ok_snoc [OF ok(1) t(1)] by simp
  moreover have "tables_ok ?s" using tables_ok_append [OF ok(2), of "[t]"] by (simp add: tables_ok_def)
  moreover have "cases_ok ?s" "constructors_ok ?s" using ok(3,4) by (simp_all add: cases_ok_def constructors_ok_def)
  moreover have "interned ?s" unfolding interned_def
  proof (intro conjI allI impI)
    fix p assume p: "p < length (ru_heap ?s)" and k: "named_kind (rt_kind (ru_heap ?s ! p))"
    with t(2) have p': "p < length (ru_heap s)" by (auto simp: nth_append less_Suc_eq)
    with k have "named_kind (rt_kind (ru_heap s ! p))" by (simp add: nth_append)
    note internedD(1,2) [OF s p' this]
    with p' show "plain_name (rt_display (ru_heap ?s ! p))" "map_of (ru_types ?s) (rt_display (ru_heap ?s ! p)) = Some p"
      by (simp_all add: nth_append)
  next
    fix p assume p: "p < length (ru_heap ?s)" and k: "\<not> named_kind (rt_kind (ru_heap ?s ! p))"
    show "map_of (ru_compound_types ?s) (rt_display (ru_heap ?s ! p)) = Some p"
    proof (cases "p < length (ru_heap s)")
      case True
      with k have "\<not> named_kind (rt_kind (ru_heap s ! p))" by (simp add: nth_append)
      note c = internedD(3) [OF s True this]
      with fresh have "rt_display (ru_heap s ! p) \<noteq> rt_display t" by fastforce
      with c fresh True show ?thesis by (simp add: emplace_def nth_append)
    next
      case False
      with p have "p = length (ru_heap s)" by simp
      with fresh show ?thesis by (simp add: emplace_def)
    qed
  next
    fix n p assume "map_of (ru_types ?s) n = Some p"
    then have "map_of (ru_types s) n = Some p" by simp
    from namedD [OF s this]
    show "p < length (ru_heap ?s)" "rt_display (ru_heap ?s ! p) = n" "named_kind (rt_kind (ru_heap ?s ! p))"
      by (simp_all add: nth_append)
  next
    fix n p assume n: "map_of (ru_compound_types ?s) n = Some p"
    have "p < length (ru_heap ?s) \<and> rt_display (ru_heap ?s ! p) = n \<and> \<not> named_kind (rt_kind (ru_heap ?s ! p))"
    proof (cases "n = rt_display t")
      case True
      with n fresh have "p = length (ru_heap s)" by (simp add: emplace_def)
      with True t(2) show ?thesis by simp
    next
      case False
      with n fresh have "map_of (ru_compound_types s) n = Some p" by (simp add: emplace_def)
      from compoundD [OF s this] show ?thesis by (simp add: nth_append)
    qed
    then show "p < length (ru_heap ?s)" "rt_display (ru_heap ?s ! p) = n" "\<not> named_kind (rt_kind (ru_heap ?s ! p))" by simp_all
  qed
  moreover have "informed ?s"
    using ok(6) t(2) by (auto simp: informed_def nth_append named_kind_def)
  ultimately show ?thesis by (simp add: runtime_ok_def)
qed

text \<open>A compound type of the heap.\<close>

definition compound_type :: "runtime_type list \<Rightarrow> rt_kind \<Rightarrow> type_ptr \<Rightarrow> type_ptr \<Rightarrow> type_ptr \<Rightarrow> bool" where
  "compound_type heap k a b p \<longleftrightarrow> p < length heap \<and> rt_kind (heap ! p) = k \<and> rt_arguments (heap ! p) = [a, b]"

lemma tuple_found:
  assumes s: "runtime_ok s" and a: "a < length (ru_heap s)" and b: "b < length (ru_heap s)"
    and p: "map_of (ru_compound_types s) (''('' @ rt_display (ru_heap s ! a) @ '', '' @ rt_display (ru_heap s ! b) @ '')'') = Some p"
  shows "compound_type (ru_heap s) rk_tuple a b p"
proof -
  note p = compoundD [OF s p]
  have k: "rt_kind (ru_heap s ! p) = rk_tuple"
  proof (rule ccontr)
    assume "rt_kind (ru_heap s ! p) \<noteq> rk_tuple"
    with p(3) have "rt_kind (ru_heap s ! p) = rk_table" by (auto simp: named_kind_def)
    then show False by (rule table_typeD [OF s p(1)]) (use p(2) in simp)
  qed
  from tuple_typeD [OF s p(1) k] obtain c d where cd: "rt_arguments (ru_heap s ! p) = [c, d]" "c < p" "d < p"
    "rt_display (ru_heap s ! p) = ''('' @ rt_display (ru_heap s ! c) @ '', '' @ rt_display (ru_heap s ! d) @ '')''" .
  have "c < length (ru_heap s)" "d < length (ru_heap s)" using cd p(1) by simp_all
  from display_pair [OF s this a b] cd(4) p(2) have "c = a \<and> d = b" by simp
  with p(1) k cd(1) show ?thesis by (simp add: compound_type_def)
qed

lemma table_found:
  assumes s: "runtime_ok s" and a: "a < length (ru_heap s)" and b: "b < length (ru_heap s)"
    and p: "map_of (ru_compound_types s) (''Table('' @ rt_display (ru_heap s ! a) @ '', '' @ rt_display (ru_heap s ! b) @ '')'') = Some p"
  shows "compound_type (ru_heap s) rk_table a b p"
proof -
  note p = compoundD [OF s p]
  have k: "rt_kind (ru_heap s ! p) = rk_table"
  proof (rule ccontr)
    assume "rt_kind (ru_heap s ! p) \<noteq> rk_table"
    with p(3) have "rt_kind (ru_heap s ! p) = rk_tuple" by (auto simp: named_kind_def)
    then show False by (rule tuple_typeD [OF s p(1)]) (use p(2) in simp)
  qed
  from table_typeD [OF s p(1) k] obtain c d where cd: "rt_arguments (ru_heap s ! p) = [c, d]" "c < p" "d < p"
    "rt_display (ru_heap s ! p) = ''Table('' @ rt_display (ru_heap s ! c) @ '', '' @ rt_display (ru_heap s ! d) @ '')''" .
  have "c < length (ru_heap s)" "d < length (ru_heap s)" using cd p(1) by simp_all
  from display_pair [OF s this a b] cd(4) p(2) have "c = a \<and> d = b" by simp
  with p(1) k cd(1) show ?thesis by (simp add: compound_type_def)
qed

lemma tuple_type_vc:
  assumes s: "runtime_ok s" and a: "a < length (ru_heap s)" and b: "b < length (ru_heap s)"
  shows "typed.ensures s (tuple_type w a b span) (\<lambda>p s'. compound_type (ru_heap s') rk_tuple a b p)"
  unfolding typed.ensures_def tuple_type_def type_at_def check_that_def new_datatype_def new_type_def
proof (intro act_rule, goal_cases)
  case (1 key found sequence z c)
  let ?s = "s\<lparr>ru_tuple_sequence := Suc sequence mod 2 ^ 32\<rparr>"
  let ?t = "(plain_type rk_tuple (SDatatype z) key)\<lparr>rt_arguments := [a, b], rt_tuple_constructor := Some c\<rparr>"
  have t: "type_ok (ru_heap ?s @ [?t]) (length (ru_heap ?s))" "\<not> named_kind (rt_kind ?t)"
    using a b 1 by (simp_all add: type_ok_def plain_type_def native_def sort_at_def nth_append named_kind_def pair_name_def)
  have "map_of (ru_compound_types ?s) (rt_display ?t) = None" using 1 by (simp add: plain_type_def)
  from runtime_ok_push [OF _ t this] s
  show ?case by (simp add: plain_type_def compound_type_def runtime_le_def)
next
  case (3 key found sequence p)
  then show ?case using tuple_found [OF s a b, of p] s by (simp add: runtime_le_refl)
qed (simp_all add: s runtime_le_refl)

lemma table_type_vc:
  assumes s: "runtime_ok s" and a: "a < length (ru_heap s)" and b: "b < length (ru_heap s)"
  shows "typed.ensures s (table_type a b span) (\<lambda>p s'. compound_type (ru_heap s') rk_table a b p)"
  unfolding typed.ensures_def table_type_def type_at_def check_that_def new_type_def
proof (intro act_rule, goal_cases)
  case (1 key)
  let ?t = "(plain_type rk_table (SArray (rt_sort (ru_heap s ! a)) (rt_sort (ru_heap s ! b))) key)\<lparr>rt_arguments := [a, b]\<rparr>"
  have t: "type_ok (ru_heap s @ [?t]) (length (ru_heap s))" "\<not> named_kind (rt_kind ?t)"
    using a b 1 by (simp_all add: type_ok_def plain_type_def native_def sort_at_def nth_append named_kind_def)
  have "map_of (ru_compound_types s) (rt_display ?t) = None" using 1 by (simp add: plain_type_def)
  from runtime_ok_push [OF s t this]
  show ?case by (simp add: plain_type_def compound_type_def runtime_le_def)
next
  case (2 key p)
  then show ?case using table_found [OF s a b, of p] s by (simp add: runtime_le_refl)
qed (simp_all add: s runtime_le_refl)

text \<open>The tree that a type of the source denotes.\<close>

fun tree_of :: "fine_type \<Rightarrow> type_tree option" where
  "tree_of (Type k sp nm args) =
     (if k = ty_named then Some (TName nm)
      else case args of
        [a, b] \<Rightarrow>
          (case (tree_of a, tree_of b) of
             (Some t, Some u) \<Rightarrow> Some (if k = ty_tuple then TPair t u else TTable t u)
           | _ \<Rightarrow> None)
      | _ \<Rightarrow> None)"

lemma represents_append: "represents heap p t \<Longrightarrow> represents (heap @ types) p t"
proof (induction rule: represents.induct)
  case (represents_name p)
  then show ?case using represents.represents_name [of p "heap @ types"] by (simp add: nth_append)
qed (auto intro: represents_pair represents_table simp: nth_append)

lemma represents_range: "represents heap p t \<Longrightarrow> p < length heap"
  by (induction rule: represents.induct)

lemma represents_le: "runtime_le s s' \<Longrightarrow> represents (ru_heap s) p t \<Longrightarrow> represents (ru_heap s') p t"
  by (auto simp: runtime_le_def intro: represents_append)

lemma represents_text: "runtime_ok s \<Longrightarrow> represents (ru_heap s) p t \<Longrightarrow> tree_ok t \<and> rt_display (ru_heap s ! p) = tree_text t"
proof (rotate_tac, induction rule: represents.induct)
  case (represents_name p)
  then show ?case using internedD(1) by simp
next
  case (represents_pair p a b t u)
  then show ?case by - (rule tuple_typeD [OF \<open>runtime_ok s\<close> represents_pair(1,2)], simp)
next
  case (represents_table p a b t u)
  then show ?case by - (rule table_typeD [OF \<open>runtime_ok s\<close> represents_table(1,2)], simp)
qed

lemma represents_eq:
  assumes s: "runtime_ok s" and p: "represents (ru_heap s) p t" and q: "represents (ru_heap s) q u"
  shows "p = q \<longleftrightarrow> t = u"
proof
  note tp = represents_text [OF s p] and tq = represents_text [OF s q]
  show "t = u" if "p = q" using tp tq that by (intro tree_text_inject) simp_all
  assume "t = u"
  with tp tq have "rt_display (ru_heap s ! p) = rt_display (ru_heap s ! q)" by simp
  then show "p = q" by (rule display_inject [OF s represents_range [OF p] represents_range [OF q]])
qed

lemma compound_represents:
  assumes "compound_type heap k a b p" "represents heap a t" "represents heap b u"
  shows "k = rk_tuple \<Longrightarrow> represents heap p (TPair t u)" "k = rk_table \<Longrightarrow> represents heap p (TTable t u)"
  using assms by (auto simp: compound_type_def intro: represents_pair represents_table)

lemma resolve_type_vc:
  "runtime_ok s \<Longrightarrow> typed.ensures s (resolve_type w ty) (\<lambda>p s'. \<exists>t. tree_of ty = Some t \<and> represents (ru_heap s') p t)"
proof (induction w ty arbitrary: s rule: resolve_type.induct)
  case (1 w k sp nm args)
  note s = \<open>runtime_ok s\<close> and IH = 1(1,2)
  show ?case
  proof (cases "k = ty_named")
    case True
    have "represents (ru_heap s) p (TName nm)" if "map_of (ru_types s) nm = Some p" for p
      using namedD [OF s that] represents_name [of p "ru_heap s"] by simp
    with True show ?thesis unfolding resolve_type.simps if_P [OF True] reject_def
      by (intro typed.ensures_read typed.ensures_option typed.ensures_ret typed.ensures_throw s) simp
  next
    case False
    show ?thesis
    proof (cases "\<exists>a b. args = [a, b]")
      case two: True
      then obtain a b where args: "args = [a, b]" by blast
      show ?thesis unfolding resolve_type.simps if_not_P [OF False] args list.case
      proof (rule typed.ensures_bind [OF IH(1) [OF False args refl refl s]], elim exE conjE,
          rule typed.ensures_bind [OF IH(2) [OF False args refl refl]], assumption, elim exE conjE)
        fix p s1 t q s2 u
        assume t: "tree_of a = Some t" "represents (ru_heap s1) p t"
          and u: "runtime_ok s2" "runtime_le s1 s2" "tree_of b = Some u" "represents (ru_heap s2) q u"
        note p = represents_le [OF u(2) t(2)] and vc = tuple_type_vc [OF u(1)] table_type_vc [OF u(1)]
        have c: "represents (ru_heap s3) r (if k = ty_tuple then TPair t u else TTable t u)"
          if "runtime_le s2 s3" "compound_type (ru_heap s3) (if k = ty_tuple then rk_tuple else rk_table) p q r" for r s3
          using compound_represents [OF that(2) represents_le [OF that(1) p] represents_le [OF that(1) u(4)]] by simp
        show "typed.ensures s2 (if k = ty_tuple then tuple_type w p q sp else table_type p q sp)
            (\<lambda>r s3. \<exists>v. tree_of (Type k sp nm [a, b]) = Some v \<and> represents (ru_heap s3) r v)"
          using c t(1) u(3) False represents_range [OF p] represents_range [OF u(4)]
          by (intro typed.ensures_if; intro typed.ensures_mono [OF vc(1)] typed.ensures_mono [OF vc(2)]) auto
      qed
    next
      case other: False
      then have "resolve_type w (Type k sp nm args) = reject sp ((if k = ty_tuple then ''tuple'' else ''Table'') @ '' requires exactly two type arguments'')"
        using False by (auto split: list.splits)
      with s show ?thesis by (simp add: reject_def typed.ensures_throw)
    qed
  qed
qed

section \<open>Expressions\<close>

text \<open>The relations of the declared predicates, the only uninterpreted functions with arguments that a term may
  apply, and a term of a type.\<close>

definition relations :: "runtime \<Rightarrow> zdecl set" where
  "relations s = {pri_relation p | n p. map_of (ru_predicates s) n = Some p}"

definition typed_term :: "runtime \<Rightarrow> zdecl set \<Rightarrow> typed_expression \<Rightarrow> bool" where
  "typed_term s C e \<longleftrightarrow> fst e < length (ru_heap s) \<and> sorted_term (C \<union> relations s) (sort_at (ru_heap s) (fst e)) (snd e)"

definition typed_environment :: "runtime \<Rightarrow> zdecl set \<Rightarrow> environment \<Rightarrow> bool" where
  "typed_environment s C env \<longleftrightarrow> (\<forall>n e. map_of env n = Some e \<longrightarrow> typed_term s C e)"

lemma relations_le: "runtime_le s s' \<Longrightarrow> relations s \<subseteq> relations s'"
  unfolding relations_def runtime_le_def by clarsimp metis

lemma sort_at_le: "runtime_le s s' \<Longrightarrow> p < length (ru_heap s) \<Longrightarrow> p < length (ru_heap s') \<and> sort_at (ru_heap s') p = sort_at (ru_heap s) p"
  by (auto simp: runtime_le_def sort_at_append)

lemma sorted_le: "sorted_term (C \<union> relations s) k t \<Longrightarrow> runtime_le s s' \<Longrightarrow> sorted_term (C \<union> relations s') k t"
  by (erule sorted_term_mono) (use relations_le in blast)

lemma typed_term_le: "typed_term s C e \<Longrightarrow> runtime_le s s' \<Longrightarrow> typed_term s' C e"
  unfolding typed_term_def by (metis Un_mono relations_le sort_at_le sorted_term_mono subset_refl)

lemma typed_environment_le: "typed_environment s C env \<Longrightarrow> runtime_le s s' \<Longrightarrow> typed_environment s' C env"
  unfolding typed_environment_def by (blast intro: typed_term_le)

lemma builtin_types:
  assumes "runtime_ok s"
  shows "bool_type < length (ru_heap s)" "sort_at (ru_heap s) bool_type = SBool" "int_type < length (ru_heap s)" "sort_at (ru_heap s) int_type = SInt"
  using runtime_okD(1) [OF assms] by (auto simp: heap_ok_def sort_at_def plain_type_def bool_type_def int_type_def)

abbreviation elaborates :: "runtime \<Rightarrow> zdecl set \<Rightarrow> typed_expression run \<Rightarrow> bool" where
  "elaborates s C p \<equiv> typed.ensures s p (\<lambda>e s'. typed_term s' C e)"

lemma completed_vc: "runtime_ok s \<Longrightarrow> typed_term s C (p, t) \<Longrightarrow> elaborates s C (completed_expression w e p t)"
  unfolding typed.ensures_def completed_expression_def
  by (intro act_rule typed.keeps_use [OF typed_rain]) (auto intro: typed_term_le runtime_le_refl)

lemma reject_vc: "runtime_ok s \<Longrightarrow> typed.ensures s (reject span message) Q"
  unfolding reject_def by (rule typed.ensures_throw)

lemma check_that_vc: "runtime_ok s \<Longrightarrow> (b \<Longrightarrow> typed.ensures s q Q) \<Longrightarrow> typed.ensures s (thenA (check_that b span message) q) Q"
  unfolding check_that_def by (rule typed.ensures_guard)

lemma type_at_vc: "runtime_ok s \<Longrightarrow> typed.ensures s (f (ru_heap s ! p)) Q \<Longrightarrow> typed.ensures s (bindA (type_at p) f) Q"
  unfolding type_at_def by (rule typed.ensures_read)

lemmas ensures_branch = typed.ensures_if typed.ensures_option typed.ensures_prod typed.ensures_let

lemmas ensures_intro = ensures_branch check_that_vc type_at_vc reject_vc typed.ensures_read typed.ensures_ret typed.ensures_throw completed_vc

lemma caseD:
  assumes s: "runtime_ok s" and c: "map_of (ru_cases s) n = Some c"
  obtains info where "enum_value s c = (info, ei_values info ! snd c)" "map_of (ru_enums s) (fst c) = Some info" "snd c < length (ei_case_names info)"
    "enum_ok (ru_heap s) (fst c) info" "ei_case_names info ! snd c = n"
proof -
  obtain m i where mi: "c = (m, i)" by (cases c)
  with c runtime_okD(3) [OF s] obtain info where "map_of (ru_enums s) m = Some info" "i < length (ei_case_names info)" "ei_case_names info ! i = n"
    unfolding cases_ok_def by blast
  moreover then have "enum_ok (ru_heap s) m info" using runtime_okD(2) [OF s] by (simp add: tables_ok_def)
  ultimately show thesis using mi by (intro that [of info]) (simp_all add: enum_value_def)
qed

lemma constructorD:
  assumes s: "runtime_ok s" and c: "map_of (ru_constructors s) n = Some c"
  obtains info where "datatype_case s c = (info, di_cases info ! snd c)" "map_of (ru_datatypes s) (fst c) = Some info" "snd c < length (di_cases info)"
    "datatype_ok (ru_heap s) (fst c) info" "item_ok (ru_heap s) (fst c) (di_cases info ! snd c)" "dc_name (di_cases info ! snd c) = n"
proof -
  obtain m i where mi: "c = (m, i)" by (cases c)
  with c runtime_okD(4) [OF s] obtain info where i: "map_of (ru_datatypes s) m = Some info" "i < length (di_cases info)" "dc_name (di_cases info ! i) = n"
    unfolding constructors_ok_def by blast
  then have "datatype_ok (ru_heap s) m info" using runtime_okD(2) [OF s] by (simp add: tables_ok_def)
  moreover with i have "item_ok (ru_heap s) m (di_cases info ! i)" by (simp add: datatype_ok_def list_all_length)
  ultimately show thesis using mi i by (intro that [of info]) (simp_all add: datatype_case_def)
qed

lemma enum_sort: "runtime_ok s \<Longrightarrow> enum_ok (ru_heap s) n info \<Longrightarrow> ei_type info < length (ru_heap s) \<and> sort_at (ru_heap s) (ei_type info) = SDatatype n"
  using type_okD [of s "ei_type info"] by (auto simp: enum_ok_def type_ok_def)

lemma datatype_sort: "runtime_ok s \<Longrightarrow> datatype_ok (ru_heap s) n info \<Longrightarrow> di_type info < length (ru_heap s) \<and> sort_at (ru_heap s) (di_type info) = SDatatype n"
  using type_okD [of s "di_type info"] by (auto simp: datatype_ok_def type_ok_def)

lemma enum_value_typed:
  assumes s: "runtime_ok s" and c: "map_of (ru_cases s) n = Some c" and v: "enum_value s c = (info, v)"
  shows "typed_term s C (ei_type info, v)"
proof (rule caseD [OF s c])
  fix i assume i: "enum_value s c = (i, ei_values i ! snd c)" "enum_ok (ru_heap s) (fst c) i" "snd c < length (ei_case_names i)"
  then show ?thesis using v enum_sort [OF s i(2)] by (auto simp: typed_term_def enum_ok_def sorted_term_def)
qed

lemma nullary_typed:
  assumes s: "runtime_ok s" and c: "map_of (ru_constructors s) n = Some c" and i: "datatype_case s c = (info, item)" "dc_field_types item = []"
  shows "typed_term s C (di_type info, ZApp (dc_constructor item) [])"
proof (rule constructorD [OF s c])
  fix d assume d: "datatype_case s c = (d, di_cases d ! snd c)" "datatype_ok (ru_heap s) (fst c) d" "item_ok (ru_heap s) (fst c) (di_cases d ! snd c)"
  then show ?thesis using i datatype_sort [OF s d(2)] by (simp add: typed_term_def item_ok_def sorted_term_def)
qed

lemma elaborate_name_vc:
  assumes s: "runtime_ok s" and env: "typed_environment s C env"
  shows "elaborates s C (elaborate_name w env e)"
  using env enum_value_typed [OF s] nullary_typed [OF s] unfolding elaborate_name_def
  by (intro ensures_intro s) (auto simp: typed_environment_def)

lemma tuple_constructor_typed:
  assumes s: "runtime_ok s" and p: "compound_type (ru_heap s) rk_tuple (fst a) (fst b) p" and "typed_term s C a" "typed_term s C b"
  shows "typed_term s C (p, ZApp (the (rt_tuple_constructor (ru_heap s ! p))) [snd a, snd b])"
proof -
  have k: "p < length (ru_heap s)" "rt_kind (ru_heap s ! p) = rk_tuple" "rt_arguments (ru_heap s ! p) = [fst a, fst b]"
    using p by (simp_all add: compound_type_def)
  obtain z where "sort_at (ru_heap s) p = SDatatype z"
    "rt_tuple_constructor (ru_heap s ! p) = Some (ZDecl z Constructor [sort_at (ru_heap s) (fst a), sort_at (ru_heap s) (fst b)] (SDatatype z))"
    by (rule tuple_typeD [OF s k(1,2)]) (use k(3) in \<open>auto intro: that\<close>)
  with k(1) assms(3,4) sorted_term_app [of "C \<union> relations s" "ZDecl z Constructor [sort_at (ru_heap s) (fst a), sort_at (ru_heap s) (fst b)] (SDatatype z)"]
  show ?thesis by (simp add: typed_term_def)
qed

lemma elaborate_tuple_vc:
  assumes s: "runtime_ok s" and a: "typed_term s C a" and b: "typed_term s C b"
  shows "elaborates s C (elaborate_tuple w e a b)"
  unfolding elaborate_tuple_def
proof (rule typed.ensures_bind [OF tuple_type_vc [OF s]], goal_cases)
  case (3 p s')
  then show ?case using typed_term_le [OF a 3(2)] typed_term_le [OF b 3(2)] by (intro type_at_vc completed_vc tuple_constructor_typed)
qed (use a b in \<open>simp_all add: typed_term_def\<close>)

lemma typed_int: "runtime_ok s \<Longrightarrow> typed_term s C (int_type, t) \<longleftrightarrow> sorted_term (C \<union> relations s) SInt t"
  by (simp add: typed_term_def builtin_types)

lemma typed_bool: "runtime_ok s \<Longrightarrow> typed_term s C (bool_type, t) \<longleftrightarrow> sorted_term (C \<union> relations s) SBool t"
  by (simp add: typed_term_def builtin_types)

lemma elaborate_binary_vc:
  assumes s: "runtime_ok s" and a: "typed_term s C a" and b: "typed_term s C b"
  shows "elaborates s C (elaborate_binary w e a b)"
proof -
  obtain lt l rt r where ab: "a = (lt, l)" "b = (rt, r)" by (cases a, cases b) auto
  have eq: "typed_term s C (bool_type, mk_eq l r)" if "lt = rt"
    using a b that by (auto simp: ab builtin_types [OF s] typed_term_def intro: sorted_mk)
  have int: "typed_term s C (bool_type, mk_le l r)" "typed_term s C (bool_type, mk_ge l r)"
    "typed_term s C (int_type, mk_add l r)" "typed_term s C (int_type, mk_sub l r)" if "lt = int_type \<and> rt = int_type"
    using a b that by (auto simp: ab typed_bool [OF s] typed_int [OF s] intro: sorted_mk)
  have bool: "typed_term s C (bool_type, mk_and l r)" "typed_term s C (bool_type, mk_or l r)" if "lt = bool_type \<and> rt = bool_type"
    using a b that by (auto simp: ab typed_bool [OF s] intro: sorted_mk)
  show ?thesis unfolding ab elaborate_binary_def prod.case using eq int bool
    by (cases "ex_binary_op e") (simp_all, (intro ensures_intro s; simp)+)
qed

lemma elaborate_conditional_vc:
  assumes s: "runtime_ok s" and "typed_term s C c" "typed_term s C a" "typed_term s C b"
  shows "elaborates s C (elaborate_conditional w e span c a b)"
proof -
  have "typed_term s C (fst a, mk_ite (snd c) (snd a) (snd b))" if "fst c = bool_type" "fst a = fst b"
    using assms that by (auto simp: typed_term_def builtin_types intro: sorted_mk)
  then show ?thesis unfolding elaborate_conditional_def by (intro ensures_intro s)
qed

text \<open>What a call may apply.\<close>

definition callee_ok :: "runtime \<Rightarrow> callee \<Rightarrow> bool" where
  "callee_ok s f \<longleftrightarrow>
     ca_result f < length (ru_heap s) \<and> zd_range (ca_declaration f) = sort_at (ru_heap s) (ca_result f) \<and>
     (\<forall>p\<in>set (ca_types f). p < length (ru_heap s)) \<and> zd_domain (ca_declaration f) = map (sort_at (ru_heap s)) (ca_types f) \<and>
     (zd_family (ca_declaration f) = Uninterpreted \<longrightarrow> ca_declaration f \<in> relations s)"

lemma native_range: "list_all (native heap) ps \<Longrightarrow> p \<in> set ps \<Longrightarrow> p < length heap"
  by (auto simp: list_all_iff native_def)

lemma constructor_callee:
  assumes s: "runtime_ok s" and c: "map_of (ru_constructors s) n = Some c" and i: "datatype_case s c = (info, item)"
    and f: "ca_declaration f = dc_constructor item" "ca_types f = dc_field_types item" "ca_result f = di_type info"
  shows "callee_ok s f"
proof (rule constructorD [OF s c])
  fix d assume d: "datatype_case s c = (d, di_cases d ! snd c)" "datatype_ok (ru_heap s) (fst c) d" "item_ok (ru_heap s) (fst c) (di_cases d ! snd c)"
  then show ?thesis using i f datatype_sort [OF s d(2)] by (auto simp: callee_ok_def item_ok_def intro: native_range)
qed

lemma callee:
  assumes s: "runtime_ok s" and f: "find_callee s n = Some f"
  shows "callee_ok s f"
proof -
  note t = runtime_okD(2) [OF s]
  have pred: "predicate_ok (ru_heap s) p \<and> pri_relation p \<in> relations s" if "map_of (ru_predicates s) n = Some p" for p
    using t that by (auto simp: tables_ok_def relations_def)
  have func: "function_ok (ru_heap s) g" if "map_of (ru_functions s) n = Some g" for g
    using t that by (auto simp: tables_ok_def)
  show ?thesis
    using f pred func constructor_callee [OF s] builtin_types [OF s]
    by (auto simp: find_callee_def split: option.splits prod.splits)
      (auto simp: callee_ok_def predicate_ok_def function_ok_def native_def intro: native_range)
qed

lemma callee_le: "callee_ok s f \<Longrightarrow> runtime_le s s' \<Longrightarrow> callee_ok s' f"
  using sort_at_le [of s s'] relations_le [of s s'] by (auto simp: callee_ok_def)

lemma call_typed:
  assumes "callee_ok s f" "list_all2 (\<lambda>p t. typed_term s C (p, t)) (ca_types f) ts"
  shows "typed_term s C (ca_result f, ZApp (ca_declaration f) ts)"
proof -
  have "list_all2 (sorted_term (C \<union> relations s)) (zd_domain (ca_declaration f)) ts"
    using assms by (auto simp: callee_ok_def typed_term_def list_all2_conv_all_nth)
  from sorted_term_app [OF this] assms(1) show ?thesis by (auto simp: typed_term_def callee_ok_def)
qed

lemma call_vc:
  assumes s: "runtime_ok s" and f: "callee_ok s f" and n: "length es = length (ca_types f)"
    and es: "\<And>a s'. a \<in> set es \<Longrightarrow> runtime_ok s' \<Longrightarrow> runtime_le s s' \<Longrightarrow> elaborates s' C (g a)"
  shows "elaborates s C (bindA (mapA (\<lambda>(a, j). bindA (g a) (\<lambda>argument.
      thenA (check_that (fst argument = ca_types f ! j) (ex_span a) (ca_mismatch f j)) (retA (snd argument)))) (zip es [0..<length es]))
    (\<lambda>arguments. completed_expression w e (ca_result f) (ZApp (ca_declaration f) arguments)))"
proof (rule typed.ensures_bind [OF typed.ensures_map [where P = "\<lambda>x t s'. typed_term s' C (ca_types f ! snd x, t)"]])
  fix x s' assume x: "x \<in> set (zip es [0..<length es])" and s': "runtime_ok s'" "runtime_le s s'"
  have "fst x \<in> set es" by (rule set_zip_leftD [of _ "snd x" _ "[0..<length es]"]) (simp add: x)
  from es [OF this s']
  show "typed.ensures s' (case x of (a, j) \<Rightarrow> bindA (g a) (\<lambda>argument.
      thenA (check_that (fst argument = ca_types f ! j) (ex_span a) (ca_mismatch f j)) (retA (snd argument))))
     (\<lambda>t s''. typed_term s'' C (ca_types f ! snd x, t))"
    unfolding case_prod_beta by (rule typed.ensures_bind) (intro ensures_intro, auto)
next
  fix ts s' assume s': "runtime_ok s'" "runtime_le s s'" and ts: "list_all2 (\<lambda>x t. typed_term s' C (ca_types f ! snd x, t)) (zip es [0..<length es]) ts"
  have "list_all2 (\<lambda>p t. typed_term s' C (p, t)) (ca_types f) ts" using ts n by (auto simp: list_all2_conv_all_nth)
  with s' show "elaborates s' C (completed_expression w e (ca_result f) (ZApp (ca_declaration f) ts))"
    by (intro completed_vc call_typed callee_le [OF f])
qed (auto intro: s typed_term_le)

lemma elaborate_expression_vc:
  "runtime_ok s \<Longrightarrow> typed_environment s C env \<Longrightarrow> elaborates s C (elaborate_expression w env e)"
proof (induction e arbitrary: s)
  case (Expr k sp nm b it bop es i)
  note s = \<open>runtime_ok s\<close> and env = \<open>typed_environment s C env\<close>
  have IH: "elaborates s' C (elaborate_expression w env a)" if "a \<in> set es" "runtime_ok s'" "runtime_le s s'" for a s'
    using Expr.IH that typed_environment_le [OF env] by blast
  have two: "elaborates s C (bindA (elaborate_expression w env a) (\<lambda>x. bindA (elaborate_expression w env c) (\<lambda>y. h x y)))"
    if "a \<in> set es" "c \<in> set es" "\<And>s' x y. runtime_ok s' \<Longrightarrow> runtime_le s s' \<Longrightarrow> typed_term s' C x \<Longrightarrow> typed_term s' C y \<Longrightarrow> elaborates s' C (h x y)" for a c h
    by (rule typed.ensures_bind [OF IH [OF that(1) s runtime_le_refl]], rule typed.ensures_bind [OF IH [OF that(2)]])
      (auto intro!: that(3) intro: runtime_le_trans typed_term_le)
  show ?case
  proof (cases k)
    case ek_name
    then show ?thesis using elaborate_name_vc [OF s env] by (simp add: elaborate_expression.simps)
  next
    case ek_boolean
    then show ?thesis using s by (auto simp: elaborate_expression.simps typed_bool intro!: completed_vc sorted_mk)
  next
    case ek_integer
    then show ?thesis using s by (auto simp: elaborate_expression.simps typed_int intro!: completed_vc sorted_mk)
  next
    case ek_tuple
    then show ?thesis using s
      by (auto simp: elaborate_expression.simps split: list.splits intro!: reject_vc two elaborate_tuple_vc)
  next
    case ek_call
    then show ?thesis using callee_le callee [OF s] IH
      by (simp add: elaborate_expression.simps) (intro ensures_intro s call_vc; simp)
  next
    case ek_binary
    then show ?thesis using s
      by (auto simp: elaborate_expression.simps split: list.splits intro!: typed.ensures_throw two elaborate_binary_vc)
  next
    case ek_conditional
    have "elaborates s C (bindA (elaborate_expression w env a) (\<lambda>x. bindA (elaborate_expression w env c) (\<lambda>y. bindA (elaborate_expression w env d) (\<lambda>z.
        elaborate_conditional w (Expr k sp nm b it bop es i) (ex_span a) x y z))))" if "es = [a, c, d]" for a c d
      using that by (intro two typed.ensures_bind [OF IH] elaborate_conditional_vc) (auto intro: typed_term_le)
    with ek_conditional s show ?thesis
      by (auto simp: elaborate_expression.simps split: list.splits intro!: typed.ensures_throw)
  next
    case ek_hole
    then show ?thesis using s by (simp add: elaborate_expression.simps reject_vc)
  qed
qed

lemma conjoin_vc:
  assumes "runtime_ok s" "typed_environment s C env"
  shows "typed.ensures s (conjoin w env message es) (\<lambda>t s'. typed_term s' C (bool_type, t))"
  unfolding conjoin_def
proof (rule typed.ensures_fold [where I = "\<lambda>t s'. typed_term s' C (bool_type, t)"], goal_cases)
  case (1 t e s')
  then show ?case
    by (intro typed.ensures_bind [OF elaborate_expression_vc [OF 1(2) typed_environment_le [OF assms(2) 1(3)]]] ensures_intro)
      (auto simp: typed_bool intro: sorted_le intro!: sorted_mk)
qed (auto simp: typed_bool assms intro: sorted_mk)

section \<open>Declarations of types\<close>

lemma map_of_emplace: "map_of (emplace k v m) n = (if n = k \<and> map_of m k = None then Some v else map_of m n)"
  by (simp add: emplace_def split: option.split)

lemma map_of_fold_emplace:
  "map_of (fold (\<lambda>(n, i). emplace (f n) (g i)) xs m) c =
     (case map_of m c of Some y \<Rightarrow> Some y | None \<Rightarrow> map_option g (map_of (map (\<lambda>(n, i). (f n, i)) xs) c))"
  by (induction xs arbitrary: m) (auto simp: map_of_emplace split: option.splits)

lemma map_of_positions: "map_of (zip ns [0..<length ns]) c = Some i \<Longrightarrow> i < length ns \<and> ns ! i = c"
  by (drule map_of_SomeD) (auto simp: in_set_zip)

lemma interned_named:
  assumes s: "runtime_ok s" and t: "named_kind (rt_kind t)" "plain_name (rt_display t)" and fresh: "map_of (ru_types s) (rt_display t) = None"
    and s': "ru_heap s' = ru_heap s @ [t]" "ru_types s' = emplace (rt_display t) (length (ru_heap s)) (ru_types s)"
      "ru_compound_types s' = ru_compound_types s"
  shows "interned s'"
  unfolding interned_def
proof (intro conjI allI impI)
  fix p assume p: "p < length (ru_heap s')" and k: "named_kind (rt_kind (ru_heap s' ! p))"
  have "plain_name (rt_display (ru_heap s' ! p)) \<and> map_of (ru_types s') (rt_display (ru_heap s' ! p)) = Some p"
  proof (cases "p < length (ru_heap s)")
    case True
    with k have k: "named_kind (rt_kind (ru_heap s ! p))" by (simp add: s' nth_append)
    note i = internedD(1,2) [OF s True k]
    with fresh have "rt_display (ru_heap s ! p) \<noteq> rt_display t" by fastforce
    with i True show ?thesis by (simp add: s' nth_append map_of_emplace)
  next
    case False
    with p have "p = length (ru_heap s)" by (simp add: s')
    with fresh t show ?thesis by (simp add: s' map_of_emplace)
  qed
  then show "plain_name (rt_display (ru_heap s' ! p))" "map_of (ru_types s') (rt_display (ru_heap s' ! p)) = Some p" by simp_all
next
  fix p assume p: "p < length (ru_heap s')" and k: "\<not> named_kind (rt_kind (ru_heap s' ! p))"
  with t(1) have p': "p < length (ru_heap s)" by (auto simp: s' nth_append less_Suc_eq)
  with k have "\<not> named_kind (rt_kind (ru_heap s ! p))" by (simp add: s' nth_append)
  from internedD(3) [OF s p' this] p' show "map_of (ru_compound_types s') (rt_display (ru_heap s' ! p)) = Some p"
    by (simp add: s' nth_append)
next
  fix n p assume n: "map_of (ru_types s') n = Some p"
  have "p < length (ru_heap s') \<and> rt_display (ru_heap s' ! p) = n \<and> named_kind (rt_kind (ru_heap s' ! p))"
  proof (cases "n = rt_display t")
    case True
    with n fresh have "p = length (ru_heap s)" by (simp add: s' map_of_emplace)
    with True t(1) show ?thesis by (simp add: s')
  next
    case False
    with n have "map_of (ru_types s) n = Some p" by (simp add: s' map_of_emplace)
    from namedD [OF s this] show ?thesis by (simp add: s' nth_append)
  qed
  then show "p < length (ru_heap s')" "rt_display (ru_heap s' ! p) = n" "named_kind (rt_kind (ru_heap s' ! p))" by simp_all
next
  fix n p assume "map_of (ru_compound_types s') n = Some p"
  then have "map_of (ru_compound_types s) n = Some p" by (simp add: s')
  from compoundD [OF s this]
  show "p < length (ru_heap s')" "rt_display (ru_heap s' ! p) = n" "\<not> named_kind (rt_kind (ru_heap s' ! p))"
    by (simp_all add: s' nth_append)
qed

text \<open>A name without a type has no information.\<close>

lemma fresh_type:
  assumes s: "runtime_ok s" and fresh: "map_of (ru_types s) n = None"
  shows "map_of (ru_enums s) n = None" "map_of (ru_datatypes s) n = None"
proof -
  note t = runtime_okD(2) [OF s]
  have no: False if "p < length (ru_heap s)" "named_kind (rt_kind (ru_heap s ! p))" "rt_display (ru_heap s ! p) = n" for p
    using internedD(2) [OF s that(1,2)] that(3) fresh by simp
  have "enum_ok (ru_heap s) n i \<Longrightarrow> False" "datatype_ok (ru_heap s) n j \<Longrightarrow> False" for i j
    using no [of "ei_type i"] no [of "di_type j"] by (auto simp: enum_ok_def datatype_ok_def named_kind_def)
  with t show "map_of (ru_enums s) n = None" "map_of (ru_datatypes s) n = None"
    unfolding tables_ok_def by (metis option.exhaust)+
qed

lemma enumeration_ok:
  assumes s: "runtime_ok s" and n: "plain_name n" "map_of (ru_types s) n = None" and ns: "distinct ns"
    and t: "t = (plain_type rk_enumeration (SDatatype n) n)\<lparr>rt_enumeration := Some n\<rparr>"
    and i: "i = \<lparr>ei_name = n, ei_type = length (ru_heap s), ei_case_names = ns, ei_constructors = map (\<lambda>m. ZDecl m Constructor [] (SDatatype n)) ns,
      ei_values = map (\<lambda>c. ZApp c []) (map (\<lambda>m. ZDecl m Constructor [] (SDatatype n)) ns)\<rparr>"
    and s': "s' = s\<lparr>ru_heap := ru_heap s @ [t], ru_cases := fold (\<lambda>(m, i). emplace m (n, i)) (zip ns [0..<length ns]) (ru_cases s),
      ru_types := emplace n (length (ru_heap s)) (ru_types s), ru_enums := emplace n i (ru_enums s)\<rparr>"
  shows "runtime_ok s' \<and> runtime_le s s'"
proof -
  note ok = runtime_okD [OF s] and fresh = fresh_type [OF s n(2)]
  have "type_ok (ru_heap s @ [t]) (length (ru_heap s))" by (simp add: t type_ok_def plain_type_def sort_at_def)
  then have "heap_ok (ru_heap s')" using heap_ok_snoc [OF ok(1)] by (simp add: s')
  moreover have "tables_ok s'"
    using tables_ok_append [OF ok(2), of "[t]"] ns
    by (auto simp: s' tables_ok_def map_of_emplace t i enum_ok_def plain_type_def comp_def)
  moreover have "cases_ok s'" unfolding cases_ok_def
  proof (intro allI impI)
    fix c m j assume "map_of (ru_cases s') c = Some (m, j)"
    then consider "map_of (ru_cases s) c = Some (m, j)" | "m = n" "map_of (zip ns [0..<length ns]) c = Some j"
      unfolding s' using map_of_fold_emplace [of "\<lambda>m. m" "Pair n" "zip ns [0..<length ns]" "ru_cases s" c]
      by (auto split: option.splits)
    then show "\<exists>info. map_of (ru_enums s') m = Some info \<and> j < length (ei_case_names info) \<and> ei_case_names info ! j = c"
    proof cases
      case 1
      with ok(3) obtain info where "map_of (ru_enums s) m = Some info \<and> j < length (ei_case_names info) \<and> ei_case_names info ! j = c"
        unfolding cases_ok_def by blast
      with fresh show ?thesis by (auto simp: s' map_of_emplace)
    next
      case 2
      with fresh map_of_positions [OF 2(2)] show ?thesis by (simp add: s' map_of_emplace i)
    qed
  qed
  moreover have "constructors_ok s'" using ok(4) by (simp add: s' constructors_ok_def)
  moreover have "interned s'"
    by (rule interned_named [OF s, of t]) (use n in \<open>simp_all add: s' t plain_type_def named_kind_def\<close>)
  moreover have "informed s'"
    using ok(6) by (auto simp: informed_def s' nth_append less_Suc_eq t plain_type_def map_of_emplace)
  ultimately show ?thesis using fresh by (auto simp: runtime_ok_def runtime_le_def s' map_of_emplace)
qed

end
