(* ===== verification/Fine_Declaration_Props.thy ===== *)
theory Fine_Declaration_Props
  imports Fine_Typing
begin

text \<open>
  Every declaration keeps the invariant \<open>runtime_ok\<close>: the declaration of a type extends the tables of types,
  constructors and cases consistently, a function, a view and a predicate are entered with the
  declarations that Z3 was given, and the terms that are built on the way are well sorted.
\<close>

section \<open>Operations that declare nothing\<close>

text \<open>Resolution and elaboration add compound types, and nothing else, to the tables.\<close>

definition quiet :: "runtime \<Rightarrow> runtime \<Rightarrow> bool" where
  "quiet s s' \<longleftrightarrow> ru_types s' = ru_types s \<and> ru_enums s' = ru_enums s \<and> ru_cases s' = ru_cases s \<and> ru_datatypes s' = ru_datatypes s \<and>
     ru_constructors s' = ru_constructors s \<and> ru_functions s' = ru_functions s \<and> ru_predicates s' = ru_predicates s \<and>
     ru_views s' = ru_views s \<and> ru_bindings s' = ru_bindings s \<and> ru_recdefs s' = ru_recdefs s \<and> ru_admitted_proofs s' = ru_admitted_proofs s \<and>
     set (ru_value_names s) \<subseteq> set (ru_value_names s')"

interpretation quiet: action_invariant "\<lambda>_. True" "\<lambda>_. True" quiet
  by unfold_locales (auto simp: quiet_def)

lemma quiet_rain: "quiet.keeps (rain d p)"
  by (rule quiet.keepsI) (auto simp: vcA_def rain_def quiet_def split: option.splits prod.splits sum.splits)

lemma quiet_rain_event: "quiet.keeps (rain_event w kind operation within producer coverage specs)"
  unfolding rain_event_def by (rule quiet_rain)

lemma quiet_modify:
  "quiet.keeps (modifyA (\<lambda>s. s\<lparr>ru_output := f s\<rparr>))" "quiet.keeps (modifyA (\<lambda>s. s\<lparr>ru_heap := g s\<rparr>))"
  "quiet.keeps (modifyA (\<lambda>s. s\<lparr>ru_compound_types := h s\<rparr>))" "quiet.keeps (modifyA (\<lambda>s. s\<lparr>ru_tuple_sequence := i s\<rparr>))"
  "quiet.keeps (modifyA (\<lambda>s. s\<lparr>ru_capture_source_edges := k s, ru_source_edge_within := l s\<rparr>))"
  by (rule quiet.keeps_modify, simp add: quiet_def)+

lemma quiet_solver_check: "quiet.keeps (solver_check w params obs assertions assumptions)"
  unfolding solver_check_def
  by (intro quiet.keeps_rules quiet_rain quiet.keeps_modify) (simp add: quiet_def)

lemmas quiet_rules = quiet.keeps_rules quiet_rain quiet_rain_event quiet_modify quiet_solver_check

lemma quiet_reserve: "quiet.keeps (reserve_value_name name span)"
  by (rule quiet.keepsI) (auto simp: reserve_value_name_def check_that_def vcA_def bindA_def getA_def thenA_def guardA_def modifyA_def retA_def throwA_def quiet_def)

lemma quiet_simple:
  "quiet.keeps (check_that b span message)" "quiet.keeps (reject span message)" "quiet.keeps (type_at p)" "quiet.keeps (print t)"
  "quiet.keeps (new_type ty)" "quiet.keeps (new_datatype w name cases)" "quiet.keeps (reserve_type_name name span)"
  "quiet.keeps (reserve_value_name name span)" "quiet.keeps (simplify_with_rainfall w e within)"
  "quiet.keeps (completed_expression w source type e)"
  unfolding check_that_def reject_def type_at_def print_def new_type_def new_datatype_def reserve_type_name_def
    simplify_with_rainfall_def completed_expression_def
  by (intro quiet_rules quiet_reserve)+

lemma quiet_compound: "quiet.keeps (tuple_type w a b span)" "quiet.keeps (table_type a b span)"
  unfolding tuple_type_def table_type_def by (intro quiet_rules quiet_simple)+

lemma quiet_resolve_type: "quiet.keeps (resolve_type w ty)"
  by (induction w ty rule: resolve_type.induct)
    (auto split: list.splits intro!: quiet_rules quiet_simple quiet_compound)

lemma quiet_elaborate:
  "quiet.keeps (elaborate_name w env e)" "quiet.keeps (elaborate_binary w e a b)"
  "quiet.keeps (elaborate_conditional w e span c a b)" "quiet.keeps (elaborate_tuple w e a b)"
  unfolding elaborate_name_def elaborate_conditional_def elaborate_tuple_def
  by (intro quiet_rules quiet_simple quiet_compound)
    (cases a, cases b, cases "ex_binary_op e", auto simp: elaborate_binary_def intro!: quiet_rules quiet_simple quiet_compound)

lemma quiet_elaborate_expression: "quiet.keeps (elaborate_expression w env e)"
proof (induction e)
  case (Expr k sp nm b it bop es i)
  have arguments: "quiet.keeps (mapA (\<lambda>(a, j). bindA (elaborate_expression w env a) (\<lambda>argument.
      thenA (check_that (fst argument = ts ! j) (ex_span a) (m j)) (retA (snd argument)))) (zip es [0..<length es]))" for ts m
    by (intro quiet.keeps_map) (auto dest!: set_zip_leftD intro!: quiet_rules quiet_simple Expr)
  show ?case
    by (cases k)
      (auto simp: elaborate_expression.simps split: list.splits intro!: quiet_rules quiet_simple quiet_elaborate arguments Expr)
qed

section \<open>Enumerations and datatypes\<close>

definition native_field :: "runtime_type list \<Rightarrow> type_ptr option \<Rightarrow> bool" where
  "native_field heap p \<longleftrightarrow> (case p of None \<Rightarrow> True | Some p \<Rightarrow> native heap p)"

lemma heap_le: "runtime_le s s' \<Longrightarrow> p < length (ru_heap s) \<Longrightarrow> p < length (ru_heap s') \<and> ru_heap s' ! p = ru_heap s ! p"
  by (auto simp: runtime_le_def nth_append)

lemma native_le: "native (ru_heap s) p \<Longrightarrow> runtime_le s s' \<Longrightarrow> native (ru_heap s') p"
  by (auto simp: runtime_le_def native_append)

lemma native_field_le: "native_field (ru_heap s) p \<Longrightarrow> runtime_le s s' \<Longrightarrow> native_field (ru_heap s') p"
  by (auto simp: native_field_def native_le split: option.splits)

lemma resolve_type_range: "runtime_ok s \<Longrightarrow> typed.ensures s (resolve_type w ty) (\<lambda>p s'. p < length (ru_heap s'))"
  by (rule typed.ensures_mono [OF resolve_type_vc]) (auto dest: represents_range)

lemma resolve_field_vc: "runtime_ok s \<Longrightarrow> typed.ensures s (resolve_field w n f) (\<lambda>p s'. native_field (ru_heap s') p)"
  unfolding resolve_field_def
  by (intro typed.ensures_if typed.ensures_ret typed.ensures_bind [OF resolve_type_range] ensures_intro)
    (auto simp: native_field_def native_def)

lemma resolve_fields_vc:
  assumes "runtime_ok s"
  shows "typed.ensures s (mapA (\<lambda>c. mapA (resolve_field w n) (ec_fields c)) cs)
    (\<lambda>rs s'. list_all2 (\<lambda>c ps. list_all2 (\<lambda>_ p. native_field (ru_heap s') p) (ec_fields c) ps) cs rs)"
  by (rule typed.ensures_map [where P = "\<lambda>c ps s'. list_all2 (\<lambda>_ p. native_field (ru_heap s') p) (ec_fields c) ps"],
      rule typed.ensures_map [where P = "\<lambda>_ p s'. native_field (ru_heap s') p"])
    (auto intro: assms resolve_field_vc native_field_le elim!: list_all2_mono)

lemma case_info_ok:
  assumes t: "rt_kind t \<noteq> rk_table" "rt_sort t = SDatatype n" and ps: "list_all2 (\<lambda>_ p. native_field heap p) (ec_fields c) ps"
  shows "item_ok (heap @ [t]) n (case_info heap n (length heap) c ps)"
proof -
  let ?self = "\<lambda>p. case p of None \<Rightarrow> length heap | Some p \<Rightarrow> p"
  have len: "length ps = length (ec_fields c)" using ps by (simp add: list_all2_lengthD)
  have p: "native (heap @ [t]) (?self p) \<and> field_sort heap n p = sort_at (heap @ [t]) (?self p)" if "p \<in> set ps" for p
    using that ps t by (auto simp: list_all2_conv_all_nth in_set_conv_nth native_field_def native_def field_sort_def sort_at_def nth_append split: option.splits)
  then have sorts: "map (field_sort heap n) ps = map (sort_at (heap @ [t])) (map ?self ps)" by simp
  have "zip (map ef_name (ec_fields c)) (map ?self ps) = map (\<lambda>(f, p). (ef_name f, ?self p)) (zip (ec_fields c) ps)"
    by (simp add: zip_map_map)
  with p len show ?thesis
    unfolding item_ok_def case_info_def Let_def sorts
    by (auto simp: list_all_iff zip_map2 split_def intro!: nth_equalityI)
qed

lemma datatype_ok_push:
  assumes s: "runtime_ok s" and n: "plain_name n" "map_of (ru_types s) n = None" and cs: "cs \<noteq> []" "distinct (map dc_name cs)"
    and t: "t = (plain_type rk_datatype (SDatatype n) n)\<lparr>rt_datatype := Some n\<rparr>"
    and i: "i = \<lparr>di_name = n, di_type = length (ru_heap s), di_cases = cs\<rparr>" "list_all (item_ok (ru_heap s @ [t]) n) cs"
    and s': "s' = s\<lparr>ru_heap := ru_heap s @ [t], ru_constructors := fold (\<lambda>(c, i). emplace (dc_name c) (n, i)) (zip cs [0..<length cs]) (ru_constructors s),
      ru_types := emplace n (length (ru_heap s)) (ru_types s), ru_datatypes := emplace n i (ru_datatypes s)\<rparr>"
  shows "runtime_ok s' \<and> runtime_le s s'"
proof -
  note ok = runtime_okD [OF s] and fresh = fresh_type [OF s n(2)]
  have "type_ok (ru_heap s @ [t]) (length (ru_heap s))" by (simp add: t type_ok_def plain_type_def sort_at_def)
  then have "heap_ok (ru_heap s')" using heap_ok_snoc [OF ok(1)] by (simp add: s')
  moreover have "tables_ok s'"
    using tables_ok_append [OF ok(2), of "[t]"] cs i(2)
    by (auto simp: s' tables_ok_def map_of_emplace t i(1) datatype_ok_def plain_type_def comp_def)
  moreover have "constructors_ok s'" unfolding constructors_ok_def
  proof (intro allI impI)
    fix c m j assume "map_of (ru_constructors s') c = Some (m, j)"
    moreover have "map (\<lambda>(c, i). (dc_name c, i)) (zip cs [0..<length cs]) = zip (map dc_name cs) [0..<length (map dc_name cs)]"
      by (simp add: zip_map1)
    ultimately consider "map_of (ru_constructors s) c = Some (m, j)" | "m = n" "map_of (zip (map dc_name cs) [0..<length (map dc_name cs)]) c = Some j"
      unfolding s' using map_of_fold_emplace [of dc_name "Pair n" "zip cs [0..<length cs]" "ru_constructors s" c]
      by (auto split: option.splits)
    then show "\<exists>info. map_of (ru_datatypes s') m = Some info \<and> j < length (di_cases info) \<and> dc_name (di_cases info ! j) = c"
    proof cases
      case 1
      with ok(4) obtain info where "map_of (ru_datatypes s) m = Some info \<and> j < length (di_cases info) \<and> dc_name (di_cases info ! j) = c"
        unfolding constructors_ok_def by blast
      with fresh show ?thesis by (auto simp: s' map_of_emplace)
    next
      case 2
      from map_of_positions [OF 2(2)] 2(1) fresh show ?thesis by (auto simp: s' map_of_emplace i(1))
    qed
  qed
  moreover have "cases_ok s'" using ok(3) by (simp add: s' cases_ok_def)
  moreover have "interned s'"
    by (rule interned_named [OF s, of t]) (use n in \<open>simp_all add: s' t plain_type_def named_kind_def\<close>)
  moreover have "informed s'"
    using ok(6) by (auto simp: informed_def s' nth_append less_Suc_eq t plain_type_def map_of_emplace)
  ultimately show ?thesis using fresh by (auto simp: runtime_ok_def runtime_le_def s' map_of_emplace)
qed

lemma ensures_quiet: "quiet.keeps p \<Longrightarrow> typed.ensures s p Q \<Longrightarrow> typed.ensures s p (\<lambda>x s'. Q x s' \<and> quiet s s')"
  using quiet.keepsD [of p s] by (auto simp: typed.ensures_def vcA_def split: prod.splits sum.splits)

lemma new_datatype_vc: "runtime_ok s \<Longrightarrow> typed.ensures s q Q \<Longrightarrow> typed.ensures s (thenA (new_datatype w n cs) q) Q"
  unfolding new_datatype_def typed.ensures_def by (intro act_rule) (auto simp: runtime_le_refl)

lemma new_type_vc:
  "runtime_ok (f (length (ru_heap s)) (s\<lparr>ru_heap := ru_heap s @ [t]\<rparr>)) \<and> runtime_le s (f (length (ru_heap s)) (s\<lparr>ru_heap := ru_heap s @ [t]\<rparr>)) \<Longrightarrow>
   typed.ensures s (bindA (new_type t) (\<lambda>p. modifyA (f p))) (\<lambda>_ _. True)"
  unfolding new_type_def typed.ensures_def by (intro act_rule) simp

lemma reserve_cases_vc:
  assumes "runtime_ok s"
  shows "typed.ensures s (reserve_cases d) (\<lambda>_ s'. distinct (map ec_name (ed_cases d)))"
  unfolding reserve_cases_def
proof (rule typed.ensures_then [OF typed.ensures_fold_step [where I = "\<lambda>ys seen _. seen = rev (map ec_name ys) \<and> distinct seen"]], goal_cases)
  case (1 ys c zs seen s')
  have "typed.keeps (check_fields c)" unfolding check_fields_def by (intro typed_rules)
  with 1 show ?case
    by (intro check_that_vc typed.ensures_then [OF typed.ensures_keeps] typed_reserve_value_name typed.ensures_ret) auto
qed (auto intro: typed.ensures_ret assms)

lemma declare_enumeration_vc:
  assumes s: "runtime_ok s" and n: "plain_name (ed_name d)" "map_of (ru_types s) (ed_name d) = None" and ns: "distinct (map ec_name (ed_cases d))"
  shows "typed.ensures s (declare_enumeration w d) (\<lambda>_ _. True)"
  unfolding declare_enumeration_def Let_def
  by (rule new_datatype_vc [OF s], rule new_type_vc, rule enumeration_ok [OF s n ns refl refl]) simp

lemma declare_datatype_vc:
  assumes s: "runtime_ok s" and n: "plain_name (ed_name d)" "map_of (ru_types s) (ed_name d) = None" and ns: "ed_cases d \<noteq> []" "distinct (map ec_name (ed_cases d))"
  shows "typed.ensures s (declare_datatype w d) (\<lambda>_ _. True)"
  unfolding declare_datatype_def Let_def
proof (rule typed.ensures_bind [OF ensures_quiet [OF _ resolve_fields_vc [OF s]]], goal_cases)
  case 1
  show ?case unfolding resolve_field_def by (intro quiet_rules quiet_simple quiet_resolve_type)
next
  case (2 rs s')
  let ?t = "(plain_type rk_datatype (SDatatype (ed_name d)) (ed_name d))\<lparr>rt_datatype := Some (ed_name d)\<rparr>"
  let ?cs = "map (\<lambda>(c, ps). case_info (ru_heap s') (ed_name d) (length (ru_heap s')) c ps) (zip (ed_cases d) rs)"
  have len: "length rs = length (ed_cases d)" using 2 by (auto dest: list_all2_lengthD)
  have item: "list_all (item_ok (ru_heap s' @ [?t]) (ed_name d)) ?cs"
    using 2 by (auto simp: list_all_iff in_set_zip list_all2_conv_all_nth plain_type_def intro!: case_info_ok)
  have names: "map dc_name ?cs = map ec_name (ed_cases d)"
    using len by (auto simp: case_info_def Let_def intro: nth_equalityI)
  show ?case
    by (rule typed.ensures_read, rule 2, rule new_datatype_vc, rule 2, rule new_type_vc,
        rule datatype_ok_push [OF _ n(1) _ _ _ refl refl item]) (use 2 n names ns len in \<open>auto simp: quiet_def zip_eq_Nil_iff simp del: map_map\<close>)
qed

lemma reserve_type_name_vc:
  "runtime_ok s \<Longrightarrow> (map_of (ru_types s) n = None \<Longrightarrow> typed.ensures s q Q) \<Longrightarrow> typed.ensures s (thenA (reserve_type_name n span) q) Q"
  unfolding reserve_type_name_def check_that_def typed.ensures_def by (intro act_rule) (auto simp: runtime_le_refl)

lemma typed_declare_enum:
  assumes "plain_name (ed_name d)"
  shows "typed.keeps (declare_enum w d)"
proof (rule typed.keeps_ensures)
  fix s assume s: "runtime_ok s"
  have "quiet.keeps (reserve_cases d)"
    unfolding reserve_cases_def check_fields_def by (intro quiet_rules quiet_simple)
  note reserve = ensures_quiet [OF this reserve_cases_vc [OF s]]
  show "typed.ensures s (declare_enum w d) (\<lambda>_ _. True)"
    unfolding declare_enum_def
    by (rule reserve_type_name_vc [OF s], rule typed.ensures_then [OF reserve], rule typed.ensures_if)
      (auto simp: quiet_def intro!: declare_datatype_vc declare_enumeration_vc assms)
qed

section \<open>Parameters\<close>

text \<open>Parameters that a declaration has bound: distinct names, each with a constant of the sort of its type,
  named by its position.\<close>

definition params_ok :: "(runtime_type \<Rightarrow> bool) \<Rightarrow> (nat \<Rightarrow> string) \<Rightarrow> runtime \<Rightarrow> bound_parameter list \<Rightarrow> bool" where
  "params_ok A nm s ps \<longleftrightarrow> distinct (map bp_name ps) \<and>
     (\<forall>i<length ps. bp_type (ps ! i) < length (ru_heap s) \<and> A (ru_heap s ! bp_type (ps ! i)) \<and>
        bp_term (ps ! i) = mk_const (nm i) (sort_at (ru_heap s) (bp_type (ps ! i))))"

definition constants :: "bound_parameter list \<Rightarrow> zdecl set" where
  "constants ps = (\<Union>p\<in>set ps. uninterpreted (bp_term p))"

lemma params_ok_le: "params_ok A nm s ps \<Longrightarrow> runtime_le s s' \<Longrightarrow> params_ok A nm s' ps"
  unfolding params_ok_def by (auto simp: runtime_le_def nth_append sort_at_append)

lemma params_okD:
  assumes ps: "params_ok A nm s ps" and i: "i < length ps"
  shows "bp_type (ps ! i) < length (ru_heap s)" "A (ru_heap s ! bp_type (ps ! i))"
    "bp_term (ps ! i) = mk_const (nm i) (sort_at (ru_heap s) (bp_type (ps ! i)))"
    "sorted_term (constants ps) (sort_at (ru_heap s) (bp_type (ps ! i))) (bp_term (ps ! i))"
proof -
  show t: "bp_type (ps ! i) < length (ru_heap s)" "A (ru_heap s ! bp_type (ps ! i))"
    "bp_term (ps ! i) = mk_const (nm i) (sort_at (ru_heap s) (bp_type (ps ! i)))" using assms by (auto simp: params_ok_def)
  have "uninterpreted (bp_term (ps ! i)) \<subseteq> constants ps" using nth_mem [OF i] by (auto simp: constants_def)
  then show "sorted_term (constants ps) (sort_at (ru_heap s) (bp_type (ps ! i))) (bp_term (ps ! i))"
    unfolding t(3) by (intro sorted_const) (simp add: mk_const_def t(3))
qed

lemma bound_typed: "params_ok A nm s ps \<Longrightarrow> i < length ps \<Longrightarrow> typed_term s (constants ps) (bp_type (ps ! i), bp_term (ps ! i))"
  by (auto simp: typed_term_def params_okD(1) intro: sorted_term_mono [OF params_okD(4)])

lemma bound_environment_typed: "params_ok A nm s ps \<Longrightarrow> typed_environment s (constants ps) (bound_environment ps)"
  by (auto simp: typed_environment_def bound_environment_def in_set_conv_nth dest!: map_of_SomeD) (rule bound_typed)

lemma bound_distinct: "params_ok A nm s ps \<Longrightarrow> inj nm \<Longrightarrow> distinct (map bp_term ps)"
  by (auto simp: params_ok_def distinct_conv_nth mk_const_def dest: injD)

lemma argument_name_inj: "inj (argument_name prefix name)"
  by (rule injI) (simp add: argument_name_def)

lemma parameter_step:
  assumes "runtime_ok s" "params_ok A nm s bound" "pa_name x \<notin> bp_name ` set bound" "p < length (ru_heap s)" "A (ru_heap s ! p)"
  shows "params_ok A nm s (bound @ [\<lparr>bp_name = pa_name x, bp_type = p, bp_term = mk_const (nm (length bound)) (rt_sort (ru_heap s ! p))\<rparr>])"
  using assms by (auto simp: params_ok_def sort_at_def nth_append less_Suc_eq)

text \<open>A loop that binds one parameter in each round.\<close>

lemma bind_loop_vc:
  assumes "runtime_ok s" and "\<And>bound x s'. runtime_ok s' \<Longrightarrow> params_ok A nm s' bound \<Longrightarrow>
      typed.ensures s' (f bound (x, length bound)) (\<lambda>b s'. params_ok A nm s' b \<and> length b = Suc (length bound))"
  shows "typed.ensures s (foldA f [] (zip ps [0..<length ps])) (\<lambda>bound s'. params_ok A nm s' bound \<and> length bound = length ps)"
proof -
  have "typed.ensures s (foldA f [] (zip ps [0..<length ps])) (\<lambda>bound s'. params_ok A nm s' bound \<and> length bound = length (zip ps [0..<length ps]))"
  proof (rule typed.ensures_fold_step [where I = "\<lambda>ys bound s'. params_ok A nm s' bound \<and> length bound = length ys"], goal_cases)
    case (1 ys x zs bound s')
    have n: "length ys < length ps" using arg_cong [OF 1(1), of length] by simp
    have "zip ps [0..<length ps] ! length ys = x" unfolding 1(1) by simp
    with n 1(4) have "x = (ps ! length ys, length bound)" by simp
    with assms(2) [OF 1(2), of bound "ps ! length ys"] 1(4) show ?case by simp
  qed (simp_all add: assms(1) params_ok_def)
  then show ?thesis by simp
qed

lemma bind_parameters_vc:
  assumes "runtime_ok s"
  shows "typed.ensures s (bind_parameters w prefix name A message ps)
    (\<lambda>bound s'. params_ok A (argument_name prefix name) s' bound \<and> length bound = length ps)"
  unfolding bind_parameters_def
proof (rule bind_loop_vc [OF assms], goal_cases)
  case (1 bound x s')
  then show ?case unfolding bind_parameter_def
    by (intro ensures_branch typed.ensures_bind [OF resolve_type_range] ensures_intro) (auto intro!: parameter_step intro: params_ok_le)
qed

lemma capturing_vc:
  assumes s: "runtime_ok s" and p: "\<And>s'. runtime_ok s' \<Longrightarrow> runtime_le s s' \<Longrightarrow> quiet s s' \<Longrightarrow> typed.ensures s' p Q"
    and Q: "\<And>x s' a b. Q x s' \<Longrightarrow> Q x (s'\<lparr>ru_capture_source_edges := a, ru_source_edge_within := b\<rparr>)"
  shows "typed.ensures s (capturing within p) Q"
  unfolding capturing_def
  by (intro typed.ensures_read [OF s] ensures_branch typed.ensures_then [OF typed.ensures_modify [where Q = "\<lambda>_ s'. quiet s s'"]] typed.ensures_bind [OF p]
      typed.ensures_then [OF typed.ensures_modify [where Q = "\<lambda>_ s'. Q x s'" for x]] typed.ensures_ret)
    (auto simp: s runtime_le_refl quiet_def intro: Q)

section \<open>Functions\<close>

lemma quiet_structural: "quiet.keeps (check_structural_calls name arity matched rs dt e)"
  by (induction e) (auto intro!: quiet_rules quiet_simple)

lemma typed_structural: "typed.keeps (check_structural_calls name arity matched rs dt e)"
  by (induction e) (auto intro!: typed_rules)

lemma accessor_typed:
  assumes "item_ok heap n item" "i < length (dc_field_types item)" "heap = ru_heap s" "sorted_term (C \<union> relations s) (SDatatype n) t"
  shows "typed_term s C (dc_field_types item ! i, ZApp (dc_accessors item ! i) [t])"
proof -
  have "dc_accessors item ! i = ZDecl (dc_field_names item ! i) (Accessor (dc_name item)) [SDatatype n] (sort_at heap (dc_field_types item ! i))"
    using assms(1,2) by (simp add: item_ok_def)
  with sorted_term_app [of "C \<union> relations s" "dc_accessors item ! i" "[t]"] assms show ?thesis
    by (simp add: typed_term_def item_ok_def list_all_length native_def)
qed

lemma recognizer_sorted:
  assumes "item_ok heap n item" "sorted_term C (SDatatype n) t"
  shows "sorted_term C SBool (ZApp (dc_recognizer item) [t])"
  using assms sorted_term_app [of C "dc_recognizer item" "[t]"] by (simp add: item_ok_def)

lemma typed_environment_emplace:
  "typed_environment s C env \<Longrightarrow> typed_term s C e \<Longrightarrow> typed_environment s C (emplace n e env)"
  by (auto simp: typed_environment_def map_of_emplace)

lemma bind_fields_vc:
  assumes s: "runtime_ok s" and item: "item_ok (ru_heap s) n item" "length bs = length (dc_field_types item)"
    and t: "sorted_term (C \<union> relations s) (SDatatype n) t" and env: "typed_environment s C env"
  shows "typed.ensures s (foldA (bind_field item p t) (env, [], []) (zip bs [0..<length bs])) (\<lambda>(env, _) s'. typed_environment s' C env)"
proof (rule typed.ensures_fold, goal_cases)
  case (1 b x s')
  then have x: "snd x < length (dc_field_types item)" using item(2) by (auto simp: in_set_zip)
  have "item_ok (ru_heap s') n item" using item(1) 1(3) by (auto simp: runtime_le_def item_ok_append)
  note typed = accessor_typed [OF this x refl sorted_le [OF t 1(3)]]
  obtain env' l r c i where bx: "b = (env', l, r)" "x = (c, i)" by (cases b, cases x) auto
  show ?case unfolding bind_field_def bx prod.case using 1 typed
    by (intro ensures_branch ensures_intro) (auto simp: bx intro: typed_environment_emplace)
qed (simp_all add: s env)

text \<open>The branches of a match: a guard and a term of the result type for each.\<close>

definition branches_ok :: "runtime \<Rightarrow> zdecl set \<Rightarrow> type_ptr \<Rightarrow> string list \<times> (zexpr \<times> zexpr) list \<Rightarrow> bool" where
  "branches_ok s C p b \<longleftrightarrow> length (fst b) = length (snd b) \<and>
     (\<forall>(g, v)\<in>set (snd b). sorted_term (C \<union> relations s) SBool g \<and> typed_term s C (p, v))"

lemma branches_ok_le: "branches_ok s C p b \<Longrightarrow> runtime_le s s' \<Longrightarrow> branches_ok s' C p b"
  by (fastforce simp: branches_ok_def intro: sorted_le typed_term_le)

lemma match_body_sorted:
  assumes "branches_ok s C p b" "snd b \<noteq> []"
  shows "typed_term s C (p, match_body (snd b))"
proof -
  have body: "typed_term s C (p, foldr (\<lambda>(g, v) body. mk_ite g v body) bs t)"
    if "\<forall>(g, v)\<in>set bs. sorted_term (C \<union> relations s) SBool g \<and> typed_term s C (p, v)" "typed_term s C (p, t)" for bs t
    using that by (induction bs) (auto simp: typed_term_def intro!: sorted_mk)
  have "typed_term s C (p, snd (last (snd b)))"
    using assms last_in_set [OF assms(2)] by (auto simp: branches_ok_def case_prod_beta)
  moreover have "\<forall>(g, v)\<in>set (butlast (snd b)). sorted_term (C \<union> relations s) SBool g \<and> typed_term s C (p, v)"
    using assms(1) by (auto simp: branches_ok_def dest: in_set_butlastD)
  ultimately show ?thesis unfolding match_body_def by (rule body [rotated])
qed

lemma function_arm_vc:
  assumes s: "runtime_ok s" and bound: "params_ok A nm s bound" "m < length bound" and info: "datatype_ok (ru_heap s) n info"
    and matched: "sort_at (ru_heap s) (bp_type (bound ! m)) = SDatatype n" and b: "branches_ok s (constants bound) p b"
  shows "typed.ensures s (function_arm w d bound m p info b arm) (\<lambda>b s'. branches_ok s' (constants bound) p b)"
proof -
  let ?C = "constants bound" and ?t = "bp_term (bound ! m)"
  obtain seen bs where b': "b = (seen, bs)" by (cases b)
  have env: "typed_environment s ?C (bound_environment bound)" by (rule bound_environment_typed [OF bound(1)])
  have t: "sorted_term (?C \<union> relations s) (SDatatype n) ?t" using bound_typed [OF bound] by (simp add: typed_term_def matched)
  have item: "item_ok (ru_heap s) n (di_cases info ! i)" if "position_of (map dc_name (di_cases info)) c = Some i" for c i
    using position_of_Some [OF that] info by (simp add: datatype_ok_def list_all_length)
  show ?thesis unfolding function_arm_def b' prod.case
  proof (intro ensures_branch reject_vc check_that_vc s, goal_cases)
    case (1 mt mtt i it)
    then have i: "item_ok (ru_heap s) n it" and mt: "mtt = ?t" using item by simp_all
    show ?case unfolding mt
    proof (rule typed.ensures_bind [OF bind_fields_vc [OF s i 1(6) t env]], clarsimp, goal_cases)
      case 1
      note le = 1(2)
      show ?case
      proof (rule typed.ensures_then [OF typed.ensures_keeps [OF typed_structural 1(1)]],
          rule typed.ensures_bind [OF elaborate_expression_vc [OF _ typed_environment_le [OF 1(3)]]], assumption, assumption, clarsimp, goal_cases)
        case 1
        note this = runtime_le_trans [OF le runtime_le_trans [OF 1(2) 1(4)]]
        with branches_ok_le [OF b this] recognizer_sorted [OF i sorted_le [OF t this]] 1 show ?case
          by (intro type_at_vc check_that_vc typed.ensures_ret) (auto simp: b' branches_ok_def)
      qed
    qed
  qed
qed

lemma quiet_capturing: "quiet.keeps p \<Longrightarrow> quiet.keeps (capturing within p)"
  unfolding capturing_def by (intro quiet_rules)

lemma quiet_bind_parameters: "quiet.keeps (bind_parameters w prefix name A message ps)"
  unfolding bind_parameters_def bind_parameter_def by (intro quiet_rules quiet_simple quiet_resolve_type)

lemma quiet_function_arm: "quiet.keeps (function_arm w d bound m p info b arm)"
proof -
  have "quiet.keeps (bind_field item q t c x)" for item q t c x
    unfolding bind_field_def by (cases c, cases x) (auto intro!: quiet_rules quiet_simple)
  then show ?thesis unfolding function_arm_def
    by (cases b) (auto simp: Let_def intro!: quiet_rules quiet_simple quiet_structural quiet_elaborate_expression split: option.split)
qed

lemma datatype_of_type:
  assumes s: "runtime_ok s" and p: "p < length (ru_heap s)" "rt_kind (ru_heap s ! p) = rk_datatype"
  shows "datatype_ok (ru_heap s) (rt_display (ru_heap s ! p)) (the (map_of (ru_datatypes s) (the (rt_datatype (ru_heap s ! p)))))"
    "sort_at (ru_heap s) p = SDatatype (rt_display (ru_heap s ! p))"
proof -
  have t: "rt_datatype (ru_heap s ! p) = Some (rt_display (ru_heap s ! p))" "sort_at (ru_heap s) p = SDatatype (rt_display (ru_heap s ! p))"
    using type_okD [OF s p(1)] p(2) by (simp_all add: type_ok_def)
  obtain info where "map_of (ru_datatypes s) (rt_display (ru_heap s ! p)) = Some info"
    using runtime_okD(6) [OF s] p by (auto simp: informed_def)
  with t runtime_okD(2) [OF s]
  show "datatype_ok (ru_heap s) (rt_display (ru_heap s ! p)) (the (map_of (ru_datatypes s) (the (rt_datatype (ru_heap s ! p)))))"
    "sort_at (ru_heap s) p = SDatatype (rt_display (ru_heap s ! p))" by (simp_all add: tables_ok_def)
qed

lemma runtime_ok_function:
  assumes "runtime_ok s" "function_ok (ru_heap s) f"
  shows "runtime_ok (s\<lparr>ru_functions := emplace n f (ru_functions s)\<rparr>) \<and> runtime_le s (s\<lparr>ru_functions := emplace n f (ru_functions s)\<rparr>)"
  using assms by (auto simp: runtime_ok_def tables_ok_def cases_ok_def constructors_ok_def interned_def informed_def runtime_le_def map_of_emplace)

text \<open>A recursive definition that Z3 accepts: constants of the sorts of the domain, and a body of the sort of the
  range in which no other constant occurs.\<close>

definition definition_ok :: "runtime \<Rightarrow> zdecl \<times> zexpr list \<times> zexpr \<Rightarrow> bool" where
  "definition_ok s = (\<lambda>(decl, formals, body).
     zd_family decl = RecursiveFunction \<and> map sort_of formals = zd_domain decl \<and> distinct formals \<and>
     (\<forall>t\<in>set formals. \<exists>n k. t = mk_const n k) \<and>
     sorted_term ((\<Union>t\<in>set formals. uninterpreted t) \<union> relations s) (zd_range decl) body)"

lemma declared_function_ok:
  assumes bound: "params_ok (\<lambda>t. rt_kind t \<noteq> rk_table) (argument_name prefix name) s bound" and b: "branches_ok s (constants bound) p b" "snd b \<noteq> []"
    and p: "k = sort_at (ru_heap s) p" "ks = map (\<lambda>q. sort_at (ru_heap s) (bp_type q)) bound"
  shows "definition_ok s (ZDecl n RecursiveFunction ks k, map bp_term bound, match_body (snd b))"
proof -
  have "\<exists>n k. bp_term q = mk_const n k" "sort_of (bp_term q) = sort_at (ru_heap s) (bp_type q)" if "q \<in> set bound" for q
    using that params_okD(3) [OF bound] by (force simp: in_set_conv_nth mk_const_def)+
  then show ?thesis using match_body_sorted [OF b] bound_distinct [OF bound argument_name_inj]
    by (auto simp: definition_ok_def typed_term_def p constants_def)
qed

lemma function_ok_of_parameters:
  assumes "params_ok (\<lambda>t. rt_kind t \<noteq> rk_table) nm s bound" "native (ru_heap s) p"
  shows "function_ok (ru_heap s) \<lparr>fi_name = n, fi_parameter_types = map bp_type bound, fi_result_type = p,
    fi_declaration = ZDecl n RecursiveFunction (map (\<lambda>q. rt_sort (ru_heap s ! bp_type q)) bound) (rt_sort (ru_heap s ! p))\<rparr>"
  using assms by (auto simp: function_ok_def sort_at_def params_ok_def native_def list_all_length)

lemma record_function_keeps: "typed.keeps (record_function w d a body n)" "quiet.keeps (record_function w d a body n)"
  unfolding record_function_def by (intro typed_rules quiet_rules ensures_branch)+

lemma function_body_vc:
  assumes s: "runtime_ok s" and bound: "params_ok (\<lambda>t. rt_kind t \<noteq> rk_table) (argument_name prefix name) s bound" "m < length bound"
    and t: "t = ru_heap s ! bp_type (bound ! m)" "rt_kind t = rk_datatype" and p: "p < length (ru_heap s)"
    and decl: "decl = ZDecl (fd_name d) RecursiveFunction (map (\<lambda>q. sort_at (ru_heap s) (bp_type q)) bound) (sort_at (ru_heap s) p)"
  shows "typed.ensures s (bindA (getA (\<lambda>s. the (map_of (ru_datatypes s) (the (rt_datatype t))))) (\<lambda>dt.
      bindA (capturing within (foldA (function_arm w d bound m p dt) ([], []) (fd_arms d))) (\<lambda>(seen, branches).
      thenA (check_that (length seen = length (di_cases dt)) (fd_span d) (message dt seen))
      (let body = match_body branches; formals = map bp_term bound in
       thenA (modifyA (\<lambda>s. s\<lparr>ru_recdefs := ru_recdefs s @ [(decl, formals, body)]\<rparr>))
       (record_function w d (ZApp decl formals) body (length branches))))))
    (\<lambda>_ s'. \<exists>f. ru_recdefs s' = ru_recdefs s @ [f] \<and> definition_ok s' f)"
proof (rule typed.ensures_read [OF s])
  let ?dt = "the (map_of (ru_datatypes s) (the (rt_datatype t)))" and ?C = "constants bound"
  note q = params_okD(1) [OF bound]
  note dt = datatype_of_type [OF s q, folded t(1), OF t(2)]
  have arms: "typed.ensures s' (foldA (function_arm w d bound m p ?dt) ([], []) (fd_arms d)) (\<lambda>b s'. branches_ok s' ?C p b)"
    if "runtime_ok s'" "runtime_le s s'" for s'
  proof (rule typed.ensures_fold [OF _ that(1)], goal_cases)
    case (1 b x s'')
    note le = runtime_le_trans [OF that(2) 1(3)]
    from le dt(1) have "datatype_ok (ru_heap s'') (rt_display t) ?dt" by (auto simp: runtime_le_def datatype_ok_append)
    with 1 sort_at_le [OF le q] dt(2) show ?case by (intro function_arm_vc [OF 1(2) params_ok_le [OF bound(1) le] bound(2)]) simp_all
  qed (simp add: branches_ok_def)
  have quiet: "quiet.keeps (capturing within (foldA (function_arm w d bound m p ?dt) ([], []) (fd_arms d)))"
    by (intro quiet_capturing quiet_rules quiet_function_arm)
  have nonempty: "di_cases ?dt \<noteq> []" using dt(1) by (simp add: datatype_ok_def)
  show "typed.ensures s (bindA (capturing within (foldA (function_arm w d bound m p ?dt) ([], []) (fd_arms d))) (\<lambda>(seen, branches).
      thenA (check_that (length seen = length (di_cases ?dt)) (fd_span d) (message ?dt seen))
      (let body = match_body branches; formals = map bp_term bound in
       thenA (modifyA (\<lambda>s. s\<lparr>ru_recdefs := ru_recdefs s @ [(decl, formals, body)]\<rparr>))
       (record_function w d (ZApp decl formals) body (length branches)))))
    (\<lambda>_ s'. \<exists>f. ru_recdefs s' = ru_recdefs s @ [f] \<and> definition_ok s' f)"
  proof (rule typed.ensures_bind [OF ensures_quiet [OF quiet capturing_vc [OF s arms]]], assumption, assumption, goal_cases)
    case (1 x s' a b)
    then show ?case by (simp add: branches_ok_def typed_term_def relations_def)
  next
    case (2 b s1)
    let ?f = "(decl, map bp_term bound, match_body (snd b))"
    have def: "definition_ok s1 ?f" if "length (fst b) = length (di_cases ?dt)"
      using that 2 nonempty sort_at_le [OF 2(2) p] sort_at_le [OF 2(2)] params_okD(1) [OF bound(1)] unfolding decl
      by (intro declared_function_ok [OF params_ok_le [OF bound(1) 2(2)], of p]) (auto simp: branches_ok_def in_set_conv_nth)
    obtain seen bs where b: "b = (seen, bs)" by (cases b)
    show ?case unfolding b prod.case Let_def
    proof (rule check_that_vc [OF 2(1)], rule typed.ensures_then [OF typed.ensures_modify [where Q = "\<lambda>_ s'. ru_recdefs s' = ru_recdefs s @ [?f] \<and> definition_ok s' ?f"]], goal_cases)
      case (4 x s2)
      then show ?case using record_function_keeps
        by (intro typed.ensures_mono [OF ensures_quiet [OF record_function_keeps(2) typed.ensures_keeps [OF record_function_keeps(1)]]])
          (auto simp: quiet_def definition_ok_def intro: sorted_le)
    qed (use 2 def b in \<open>auto simp: runtime_le_refl quiet_def definition_ok_def relations_def\<close>)
  qed
qed

lemma declare_function_vc:
  assumes s: "runtime_ok s"
  shows "typed.ensures s (declare_function w d) (\<lambda>_ s'. \<exists>f. ru_recdefs s' = ru_recdefs s @ [f] \<and> definition_ok s' f)"
  unfolding declare_function_def
proof (rule typed.ensures_then [OF ensures_quiet [OF quiet_simple(8) typed.ensures_keeps [OF typed_reserve_value_name s]]],
    intro check_that_vc, assumption, assumption,
    rule typed.ensures_bind [OF ensures_quiet [OF quiet_bind_parameters bind_parameters_vc]], assumption,
    intro ensures_branch reject_vc type_at_vc check_that_vc, assumption, assumption, assumption,
    rule typed.ensures_bind [OF ensures_quiet [OF quiet_resolve_type resolve_type_range]], assumption,
    intro type_at_vc check_that_vc typed.ensures_read ensures_branch, assumption, assumption, assumption, goal_cases)
  case (1 u s1 bound s2 m p s3 decl info)
  let ?s = "s3\<lparr>ru_functions := emplace (fd_name d) info (ru_functions s3)\<rparr>"
  from 1 have bound: "params_ok (\<lambda>t. rt_kind t \<noteq> rk_table) (argument_name ''Fine.function.'' (fd_name d)) s3 bound" "m < length bound"
    by (auto dest: params_ok_le position_of_Some)
  have t: "ru_heap s2 ! bp_type (bound ! m) = ru_heap s3 ! bp_type (bound ! m)"
    using heap_le [OF 1(12) params_okD(1) [OF 1(8) [THEN conjunct1, THEN conjunct1] bound(2)]] by simp
  have p: "native (ru_heap s3) p" using 1 by (simp add: native_def)
  have ok: "runtime_ok ?s" "runtime_le s3 ?s"
    using runtime_ok_function [OF 1(11) function_ok_of_parameters [OF bound(1) p]] 1 by simp_all
  have "ru_recdefs s3 = ru_recdefs s" using 1 by (simp add: quiet_def)
  moreover have "rt_kind (ru_heap s3 ! bp_type (bound ! m)) = rk_datatype" using 1(10) t by simp
  moreover have "params_ok (\<lambda>t. rt_kind t \<noteq> rk_table) (argument_name ''Fine.function.'' (fd_name d)) ?s bound" by (rule params_ok_le [OF bound(1) ok(2)])
  ultimately show ?case unfolding t
    by (intro typed.ensures_then [OF typed.ensures_modify [where Q = "\<lambda>_ s'. s' = ?s"]])
      (use ok p 1(15) bound(2) in \<open>auto simp: sort_at_def native_def intro!: typed.ensures_mono [OF function_body_vc]\<close>)
qed

section \<open>Views\<close>

lemma typed_capturing:
  assumes "typed.keeps p"
  shows "typed.keeps (capturing within p)"
  by (rule typed.keeps_ensures, rule capturing_vc) (auto intro: typed.ensures_keeps [OF assms])

lemma typed_term_mono: "typed_term s C e \<Longrightarrow> C \<subseteq> D \<Longrightarrow> typed_term s D e"
  unfolding typed_term_def by (blast intro: sorted_term_mono)

lemma typed_environment_mono: "typed_environment s C env \<Longrightarrow> C \<subseteq> D \<Longrightarrow> typed_environment s D env"
  unfolding typed_environment_def by (blast intro: typed_term_mono)

lemma view_parameters_vc:
  assumes "runtime_ok s"
  shows "typed.ensures s (foldA (view_parameter w name) [] (zip ps [0..<length ps]))
    (\<lambda>bound s'. params_ok (\<lambda>t. rt_kind t \<noteq> rk_table) (argument_name ''Fine.view.'' name) s' bound \<and> length bound = length ps)"
proof (rule bind_loop_vc [OF assms], goal_cases)
  case (1 bound x s')
  then show ?case unfolding view_parameter_def
    by (intro ensures_branch typed.ensures_bind [OF resolve_type_range] ensures_intro) (auto intro!: parameter_step intro: params_ok_le)
qed

lemma runtime_ok_view:
  assumes "runtime_ok s" "view_ok (ru_heap s) v"
  shows "runtime_ok (s\<lparr>ru_views := emplace n v (ru_views s)\<rparr>) \<and> runtime_le s (s\<lparr>ru_views := emplace n v (ru_views s)\<rparr>)"
  using assms by (auto simp: runtime_ok_def tables_ok_def cases_ok_def constructors_ok_def interned_def informed_def runtime_le_def map_of_emplace)

lemma view_witness_vc:
  assumes "runtime_ok s" "typed_environment s C env"
  shows "typed.ensures s (view_witness w d env p) (\<lambda>_ _. True)"
  unfolding view_witness_def
  by (intro ensures_branch typed.ensures_bind [OF elaborate_expression_vc [OF assms]] ensures_intro assms(1)) simp_all

lemma typed_declare_view: "typed.keeps (declare_view w d)"
  unfolding declare_view_def
proof (rule typed.keeps_ensures, rule typed.ensures_read, assumption, rule check_that_vc, assumption,
    rule typed.ensures_bind [OF resolve_type_range], assumption, intro type_at_vc check_that_vc, assumption, assumption,
    rule typed.ensures_bind [OF view_parameters_vc], assumption, intro ensures_branch, goal_cases)
  case (1 s p s1 bound s2 wenv v env info)
  let ?C = "insert (ZDecl (''Fine.view.'' @ vd_name d @ ''.value'') Uninterpreted [] (rt_sort (ru_heap s1 ! p))) (constants bound)"
  have p: "p < length (ru_heap s2)" "rt_kind (ru_heap s2 ! p) \<noteq> rk_table" "sort_at (ru_heap s2) p = rt_sort (ru_heap s1 ! p)"
    using heap_le [OF 1(8), of p] 1(5,6) by (simp_all add: sort_at_def)
  have wenv: "typed_environment s2 ?C wenv"
    unfolding 1(10) by (rule typed_environment_mono [OF bound_environment_typed [OF 1(9) [THEN conjunct1]]]) blast
  have env: "typed_environment s2 ?C env"
    unfolding 1(11,12) by (rule typed_environment_emplace [OF wenv]) (simp add: typed_term_def p sorted_const)
  have view: "view_ok (ru_heap s2) info"
    using 1 p by (auto simp: view_ok_def native_def params_ok_def list_all_length)
  have body: "typed.ensures s' (bindA (conjoin w env m es) (\<lambda>r. bindA (view_witness w d wenv p) (\<lambda>v. retA (r, v)))) (\<lambda>_ _. True)"
    if "runtime_ok s'" "runtime_le s2 s'" for s' m es
    by (rule typed.ensures_bind [OF conjoin_vc [OF that(1) typed_environment_le [OF env that(2)]]],
        rule typed.ensures_bind [OF view_witness_vc [OF _ typed_environment_le [OF wenv]]])
      (use that in \<open>auto intro: typed.ensures_ret runtime_le_trans\<close>)
  show ?case
    by (rule typed.ensures_bind [OF capturing_vc [OF 1(7) body]], assumption, assumption, simp, intro ensures_branch,
        rule typed.ensures_then [OF typed.ensures_modify [where Q = "\<lambda>_ _. True"]])
      (use runtime_ok_view view in \<open>auto intro!: typed.ensures_keeps [OF typed_rain_event] simp: runtime_le_def view_ok_append\<close>)
qed

section \<open>Literal values and tables\<close>

lemma value_name_vc:
  assumes s: "runtime_ok s" and p: "p < length (ru_heap s)" "t = ru_heap s ! p"
  shows "typed.ensures s (value_name e t) (\<lambda>v s'. typed_term s' C (p, v))"
proof -
  have nullary: "typed_term s C (p, ZApp (dc_constructor (snd (datatype_case s c))) [])"
    if "rt_kind t = rk_datatype" "map_of (ru_constructors s) n = Some c" "Some (fst c) = rt_datatype t" "dc_field_types (snd (datatype_case s c)) = []" for n c
  proof (rule constructorD [OF s that(2)])
    fix info assume i: "datatype_case s c = (info, di_cases info ! snd c)" "item_ok (ru_heap s) (fst c) (di_cases info ! snd c)"
    have "sort_at (ru_heap s) p = SDatatype (fst c)" using datatype_of_type(2) [OF s p(1)] type_okD [OF s p(1)] p(2) that(1,3) by (auto simp: type_ok_def)
    with i that(4) p(1) show ?thesis by (auto simp: typed_term_def item_ok_def sorted_term_def)
  qed
  have enumeration: "typed_term s C (p, snd (enum_value s c))"
    if "rt_kind t = rk_enumeration" "map_of (ru_cases s) n = Some c" "Some (fst c) = rt_enumeration t" for n c
  proof (rule caseD [OF s that(2)])
    fix info assume i: "enum_value s c = (info, ei_values info ! snd c)" "snd c < length (ei_case_names info)" "enum_ok (ru_heap s) (fst c) info"
    have "sort_at (ru_heap s) p = SDatatype (fst c)" using type_okD [OF s p(1)] p(2) that(1,3) by (auto simp: type_ok_def)
    with i p(1) show ?thesis by (auto simp: typed_term_def enum_ok_def sorted_term_def)
  qed
  show ?thesis unfolding value_name_def by (intro ensures_branch ensures_intro s nullary enumeration)
qed

lemma construct_typed:
  assumes s: "runtime_ok s" and c: "map_of (ru_constructors s) n = Some c" and p: "p < length (ru_heap s)" "rt_kind (ru_heap s ! p) = rk_datatype"
    "Some (fst c) = rt_datatype (ru_heap s ! p)" and le: "runtime_le s s'"
    and ts: "list_all2 (\<lambda>q t. typed_term s' C (q, t)) (dc_field_types (snd (datatype_case s c))) ts"
  shows "typed_term s' C (p, ZApp (dc_constructor (snd (datatype_case s c))) ts)"
proof (rule constructorD [OF s c])
  fix info assume i: "datatype_case s c = (info, di_cases info ! snd c)" "item_ok (ru_heap s) (fst c) (di_cases info ! snd c)"
  let ?item = "di_cases info ! snd c"
  have k: "sort_at (ru_heap s) p = SDatatype (fst c)" using datatype_of_type(2) [OF s p(1)] type_okD [OF s p(1)] p(2,3) by (auto simp: type_ok_def)
  have "item_ok (ru_heap s') (fst c) ?item" using i(2) le by (auto simp: runtime_le_def item_ok_append)
  then have d: "dc_constructor ?item = ZDecl (dc_name ?item) Constructor (map (sort_at (ru_heap s')) (dc_field_types ?item)) (SDatatype (fst c))"
    by (simp add: item_ok_def)
  have "list_all2 (sorted_term (C \<union> relations s')) (map (sort_at (ru_heap s')) (dc_field_types ?item)) ts"
    using ts i(1) by (auto simp: typed_term_def list_all2_conv_all_nth)
  then have "sorted_term (C \<union> relations s') (SDatatype (fst c)) (ZApp (dc_constructor ?item) ts)"
    using sorted_term_app [of _ "dc_constructor ?item" ts] by (simp add: d)
  then show ?thesis using sort_at_le [OF le p(1)] k i(1) by (simp add: typed_term_def)
qed

lemma field_range:
  assumes s: "runtime_ok s" and c: "map_of (ru_constructors s) n = Some c" and j: "j < length (dc_field_types (snd (datatype_case s c)))"
  shows "dc_field_types (snd (datatype_case s c)) ! j < length (ru_heap s)"
  by (rule constructorD [OF s c]) (use j in \<open>auto simp: item_ok_def list_all_length native_def\<close>)

lemma literal_value_vc:
  "runtime_ok s \<Longrightarrow> p < length (ru_heap s) \<Longrightarrow> typed.ensures s (literal_value e p) (\<lambda>v s'. typed_term s' C (p, v))"
proof (induction e arbitrary: s p)
  case (Expr k sp nm b it bop es i)
  note s = \<open>runtime_ok s\<close> and p = \<open>p < length (ru_heap s)\<close>
  have IH: "typed.ensures s' (literal_value a q) (\<lambda>v s'. typed_term s' C (q, v))" if "a \<in> set es" "runtime_ok s'" "runtime_le s s'" "q < length (ru_heap s)" for a q s'
    using Expr.IH [OF that(1,2)] sort_at_le [OF that(3,4)] by blast
  have call: "typed.ensures s (bindA (mapA (\<lambda>(a, j). literal_value a (dc_field_types item ! j)) (zip es [0..<length es])) (\<lambda>ts. retA (ZApp (dc_constructor item) ts)))
      (\<lambda>v s'. typed_term s' C (p, v))"
    if "rt_kind (ru_heap s ! p) = rk_datatype" "map_of (ru_constructors s) nm = Some c" "Some (fst c) = rt_datatype (ru_heap s ! p)"
      "item = snd (datatype_case s c)" "length es = length (dc_field_types item)" for c item
  proof (rule typed.ensures_bind [OF typed.ensures_map [where P = "\<lambda>x t s'. typed_term s' C (dc_field_types item ! snd x, t)", OF _ _ s]], goal_cases)
    case (1 x s')
    then have "fst x \<in> set es" "snd x < length (dc_field_types item)" using that(5) by (auto simp: in_set_zip in_set_conv_nth)
    with 1 field_range [OF s that(2)] that(4) show ?case by (simp add: case_prod_beta IH)
  next
    case (3 ts s')
    then have "list_all2 (\<lambda>q t. typed_term s' C (q, t)) (dc_field_types item) ts" using that(5) by (auto simp: list_all2_conv_all_nth)
    with construct_typed [OF s that(2) p that(1,3) 3(2)] that(4) 3(1) show ?case by (simp add: typed.ensures_ret)
  qed (auto intro: typed_term_le)
  have tuple: "typed.ensures s (bindA (literal_value a (rt_arguments (ru_heap s ! p) ! 0)) (\<lambda>x. bindA (literal_value c (rt_arguments (ru_heap s ! p) ! Suc 0)) (\<lambda>y.
      retA (ZApp (the (rt_tuple_constructor (ru_heap s ! p))) [x, y])))) (\<lambda>v s'. typed_term s' C (p, v))"
    if "rt_kind (ru_heap s ! p) = rk_tuple" "es = [a, c]" for a c
  proof (rule tuple_typeD [OF s p that(1)])
    fix q r z assume t: "rt_arguments (ru_heap s ! p) = [q, r]" "q < p" "r < p"
    then have qr: "q < length (ru_heap s)" "r < length (ru_heap s)" using p by simp_all
    have pair: "typed_term s' C (p, ZApp (the (rt_tuple_constructor (ru_heap s ! p))) [x, y])"
      if "runtime_ok s'" "runtime_le s s'" "typed_term s' C (q, x)" "typed_term s' C (r, y)" for s' x y
      using tuple_constructor_typed [OF that(1), of "(q, x)" "(r, y)" p C] heap_le [OF that(2) p] t(1) that \<open>rt_kind (ru_heap s ! p) = rk_tuple\<close>
      by (simp add: compound_type_def)
    show ?thesis unfolding t(1) using that(2) qr
      by (intro typed.ensures_bind [OF IH [OF _ s runtime_le_refl]] typed.ensures_bind [OF IH] typed.ensures_ret pair)
        (auto intro: typed_term_le runtime_le_trans)
  qed
  have base: "rt_kind (ru_heap s ! p) = rk_boolean \<Longrightarrow> p = bool_type" "rt_kind (ru_heap s ! p) = rk_integer \<Longrightarrow> p = int_type"
    using type_okD [OF s p] by (simp_all add: type_ok_def)
  show ?case
    by (cases k)
      (auto simp: literal_value.simps Let_def typed_bool [OF s] typed_int [OF s] split: list.splits dest: base
         intro!: ensures_branch ensures_intro s value_name_vc p sorted_mk call tuple)
qed

lemma sorted_array:
  "sorted_term C r v \<Longrightarrow> sorted_term C (SArray d r) (const_array d v)"
  "sorted_term C (SArray d r) a \<Longrightarrow> sorted_term C d i \<Longrightarrow> sorted_term C r v \<Longrightarrow> sorted_term C (SArray d r) (mk_store a i v)"
  "sorted_term C (SArray d r) a \<Longrightarrow> sorted_term C d i \<Longrightarrow> sorted_term C r (mk_select a i)"
  by (auto simp: const_array_def mk_store_def mk_select_def array_range_def sorted_sort intro!: sorted_term_builtin)

lemma table_value_vc:
  assumes s: "runtime_ok s" and p: "p < length (ru_heap s)" "rt_kind (ru_heap s ! p) = rk_table"
  shows "typed.ensures s (table_value p literal) (\<lambda>v s'. typed_term s' C (p, v))"
proof (rule table_typeD [OF s p])
  fix a b assume t: "rt_arguments (ru_heap s ! p) = [a, b]" "a < p" "b < p" "sort_at (ru_heap s) p = SArray (sort_at (ru_heap s) a) (sort_at (ru_heap s) b)"
  then have ab: "a < length (ru_heap s)" "b < length (ru_heap s)" using p by simp_all
  let ?I = "\<lambda>x s'. typed_term s' C (p, snd x)"
  have step: "typed_term s' C (p, mk_store r k v)"
    if "runtime_le s s'" "typed_term s' C (p, r)" "typed_term s' C (a, k)" "typed_term s' C (b, v)" for s' r k v
    using that t(4) sort_at_le [OF that(1)] p ab by (auto simp: typed_term_def intro: sorted_array)
  have entries: "typed.ensures s' (foldA (\<lambda>(keys, result) entry. bindA (literal_value (te_key entry) a) (\<lambda>key.
       thenA (check_that (key \<notin> set keys) (ex_span (te_key entry)) ''duplicate table key'')
       (bindA (literal_value (te_value entry) b) (\<lambda>v. retA (keys @ [key], mk_store result key v))))) ([], r) es) ?I"
    if "runtime_ok s'" "runtime_le s s'" "typed_term s' C (p, r)" for s' r es
  proof (rule typed.ensures_fold, goal_cases)
    case (1 x entry s1)
    have le: "runtime_le s s1" by (rule runtime_le_trans [OF that(2) 1(3)])
    have ab1: "a < length (ru_heap s1)" "b < length (ru_heap s1)" using sort_at_le [OF le] ab by blast+
    obtain keys q where x: "x = (keys, q)" by (cases x)
    show ?case unfolding x prod.case
    proof (rule typed.ensures_bind [OF literal_value_vc [where C = C, OF 1(2) ab1(1)]], rule check_that_vc, assumption, goal_cases)
      case (1 k s2)
      with sort_at_le [OF 1(2) ab1(2)] have b2: "b < length (ru_heap s2)" by blast
      from 1 show ?case
        by (intro typed.ensures_bind [OF literal_value_vc [where C = C, OF 1(1) b2]] typed.ensures_ret)
          (use le x \<open>?I x s1\<close> in \<open>auto intro!: step intro: typed_term_le runtime_le_trans\<close>)
    qed
  qed (use that in simp_all)
  have default: "typed_term s' C (p, const_array (rt_sort (ru_heap s ! a)) v)" if "runtime_le s s'" "typed_term s' C (b, v)" for s' v
    using that t(4) sort_at_le [OF that(1)] p ab by (auto simp: typed_term_def sort_at_def intro: sorted_array)
  show ?thesis unfolding table_value_def t(1) Let_def
    by (rule type_at_vc [OF s], simp add: t(1), rule type_at_vc [OF s], rule typed.ensures_bind [OF literal_value_vc [where C = C, OF s ab(2)]],
        rule typed.ensures_bind [OF entries]) (auto intro: default typed.ensures_ret simp: case_prod_beta)
qed

lemma typed_declare_let: "typed.keeps (declare_let w d)"
  unfolding declare_let_def
  by (rule typed.keeps_ensures, rule typed.ensures_then [OF typed.ensures_keeps [OF typed_reserve_value_name]], assumption,
      rule typed.ensures_bind [OF resolve_type_range], assumption, intro type_at_vc check_that_vc, assumption, assumption,
      rule typed.ensures_bind [OF table_value_vc [where C = "{}"]], assumption, assumption, assumption, rule typed.ensures_modify)
    (simp_all add: runtime_le_refl)

lemma typed_declare_model: "typed.keeps (declare_model w d)"
proof -
  have body: "typed.ensures s (case md_value d of Some literal \<Rightarrow> table_value p literal | None \<Rightarrow> retA t) (\<lambda>_ _. True)"
    if "runtime_ok s" "p < length (ru_heap s)" "rt_kind (ru_heap s ! p) = rk_table" for s p t
    using that by (auto split: option.split intro: typed.ensures_ret typed.ensures_mono [OF table_value_vc [where C = "{}"]])
  show ?thesis unfolding declare_model_def
    by (rule typed.keeps_ensures, rule typed.ensures_then [OF typed.ensures_keeps [OF typed_reserve_value_name]], assumption,
        rule typed.ensures_bind [OF resolve_type_range], assumption, intro type_at_vc check_that_vc, assumption, assumption,
        rule typed.ensures_bind [OF body], assumption, assumption, assumption, rule typed.ensures_modify)
      (simp_all add: runtime_le_refl)
qed

end
