(* ===== verification/Fine_Predicate_Props.thy ===== *)
theory Fine_Predicate_Props
  imports Fine_Declaration_Props
begin

text \<open>
  The declaration of a predicate keeps the invariant \<open>runtime_ok\<close>: its relation is entered with the sorts of
  its index types, and its constructors are elaborated in environments of well-sorted terms.
\<close>

section \<open>Parameters\<close>

lemma native_parameters_vc:
  assumes "runtime_ok s"
  shows "typed.ensures s (native_parameters w prefix name what message ps)
    (\<lambda>bound s'. params_ok (\<lambda>t. rt_kind t \<noteq> rk_table) (argument_name prefix name) s' bound \<and> length bound = length ps)"
  unfolding native_parameters_def
proof (rule bind_loop_vc [OF assms], goal_cases)
  case (1 bound x s')
  then show ?case unfolding native_parameter_def
    by (intro ensures_branch typed.ensures_bind [OF resolve_type_range] ensures_intro) (auto intro!: parameter_step intro: params_ok_le)
qed

lemma list_native_le: "list_all (native (ru_heap s)) ps \<Longrightarrow> runtime_le s s' \<Longrightarrow> list_all (native (ru_heap s')) ps"
  by (auto simp: list_all_iff intro: native_le)

lemma predicate_indices_vc:
  assumes "runtime_ok s"
  shows "typed.ensures s (foldA (predicate_index w) ([], []) ps) (\<lambda>x s'. list_all (native (ru_heap s')) (snd x))"
proof (rule typed.ensures_fold, goal_cases)
  case (1 x index s')
  obtain names types where x: "x = (names, types)" by (cases x)
  have types: "list_all (native (ru_heap s')) types" using 1(4) by (simp add: x)
  show ?case unfolding predicate_index_def x prod.case
    by (intro check_that_vc 1(2) typed.ensures_bind [OF resolve_type_range] ensures_intro)
      (auto simp: native_def [of _ "p :: nat" for p] intro: list_native_le [OF types, unfolded list_all_iff] list_native_le [OF types])
qed (simp_all add: assms)

section \<open>Constructors\<close>

lemma predicate_atom_vc:
  assumes "runtime_ok s" "typed_environment s C env"
  shows "typed.ensures s (predicate_atom w env m1 m2 e) (\<lambda>t s'. typed_term s' C (bool_type, t))"
  unfolding predicate_atom_def
  by (intro ensures_intro assms typed.ensures_bind [OF elaborate_expression_vc [OF assms]]) (auto simp: case_prod_beta)

lemma elaborate_indices_vc:
  assumes "runtime_ok s" "typed_environment s C env"
  shows "typed.ensures s (elaborate_indices w env es) (\<lambda>_ _. True)"
  unfolding elaborate_indices_def
  by (rule typed.ensures_mono [OF typed.ensures_map [where P = "\<lambda>_ _ _. True"]], rule typed.ensures_bind [OF elaborate_expression_vc])
    (use assms typed_environment_le in \<open>auto intro: typed.ensures_ret\<close>)

lemma premise_step_vc:
  assumes "runtime_ok s" "typed_environment s C env"
  shows "typed.ensures s (constructor_premise_step w name env x e) (\<lambda>_ _. True)"
  unfolding constructor_premise_step_def constructor_atom_def
  by (cases x, hypsubst, unfold prod.case, rule typed.ensures_bind [OF predicate_atom_vc [OF assms]], rule typed.ensures_bind [where Q = "\<lambda>_ _. True"],
      intro ensures_branch, rule typed.ensures_bind [OF elaborate_indices_vc])
    (use assms in \<open>auto intro: typed.ensures_ret typed_environment_le\<close>)

lemma typed_premises:
  assumes "runtime_ok s" "typed_environment s C env"
  shows "typed.ensures s (foldA (constructor_premise_step w name env) x es) (\<lambda>_ _. True)"
  by (rule typed.ensures_fold) (use assms in \<open>auto intro: premise_step_vc typed_environment_le\<close>)

lemma view_arguments_vc:
  assumes "runtime_ok s" "typed_environment s C env"
  shows "typed.ensures s (mapA (view_argument w env view) xs) (\<lambda>es s'. list_all (typed_term s' C) es)"
proof (rule typed.ensures_mono [OF typed.ensures_map [where P = "\<lambda>_ e s'. typed_term s' C e"]], goal_cases)
  case (1 x s')
  then show ?case unfolding view_argument_def
    by (intro ensures_branch typed.ensures_bind [OF elaborate_expression_vc [OF 1(2) typed_environment_le [OF assms(2)]]] ensures_intro)
qed (use assms(1) in \<open>auto intro: typed_term_le simp: list_all2_conv_all_nth list_all_length\<close>)

lemma zip_environment: "list_all (typed_term s C) es \<Longrightarrow> typed_environment s C (zip names es)"
  by (auto simp: typed_environment_def list_all_iff dest!: map_of_SomeD dest: set_zip_rightD)

lemma view_requirement_vc:
  assumes "runtime_ok s" "typed_environment s C env"
  shows "typed.ensures s (view_requirement w env es) (\<lambda>_ _. True)"
  unfolding view_requirement_def
  by (rule typed.ensures_fold, rule typed.ensures_bind [OF elaborate_expression_vc])
    (use assms in \<open>auto intro!: ensures_branch typed.ensures_guard typed.ensures_ret intro: typed_environment_le\<close>)

lemma availability_witness_vc:
  assumes "runtime_ok s" "typed_environment s C env"
  shows "typed.ensures s (availability_witness w env view) (\<lambda>_ _. True)"
  unfolding availability_witness_def
  by (intro ensures_branch typed.ensures_ret assms TrueI, rule typed.ensures_bind [OF elaborate_expression_vc])
    (use assms in \<open>auto intro!: ensures_branch typed.ensures_guard typed.ensures_ret\<close>)

lemma scoped_premises_vc:
  assumes "runtime_ok s" "typed_environment s C env"
  shows "typed.ensures s (mapA (scoped_premise w name env) es) (\<lambda>_ _. True)"
  unfolding scoped_premise_def
  by (rule typed.ensures_mono [OF typed.ensures_map [where P = "\<lambda>_ _ _. True"]], rule typed.ensures_bind [OF predicate_atom_vc])
    (use assms in \<open>auto intro: typed_environment_le intro!: ensures_intro\<close>)

lemma record_keeps:
  "typed.keeps (record_field w d c n f)" "typed.keeps (record_rule w d c h r t i j)" "typed.keeps (record_predicate w d h)"
  "typed.keeps (add_rule r nm)" "typed.keeps (register_relation decl)"
  unfolding record_field_def record_rule_def record_predicate_def add_rule_def register_relation_def
  by (intro typed_rules typed.keeps_modify; simp add: runtime_le_refl)+

lemma arbitrary_field_vc:
  assumes s: "runtime_ok s" and bound: "params_ok A nm s bound"
  shows "typed.ensures s (arbitrary_field_body w d c bound x) (\<lambda>_ _. True)"
  unfolding arbitrary_field_body_def
proof (intro ensures_branch check_that_vc typed.ensures_read reject_vc s, rule typed.ensures_bind [OF view_arguments_vc [where C = "constants bound", OF s]], goal_cases)
  case (1 field ordinal env view)
  then show ?case using bound_environment_typed [OF bound] by simp
next
  case (2 field ordinal env view es s1)
  let ?v = "ZDecl (''Fine.predicate.'' @ pd_name d @ ''.'' @ pc_name c @ ''.arbitrary'' @ nat_to_string ordinal) Uninterpreted [] (rt_sort (ru_heap s1 ! vi_carrier view))"
  let ?C = "insert ?v (constants bound)"
  have view: "vi_carrier view < length (ru_heap s1)"
    using 2 runtime_okD(2) [OF s] heap_le [OF 2(8)] by (auto simp: tables_ok_def view_ok_def native_def)
  have env: "typed_environment s1 ?C env"
    using typed_environment_le [OF bound_environment_typed [OF bound] 2(8)] 2(2) by (auto intro: typed_environment_mono)
  have es: "list_all (typed_term s1 ?C) es"
    using 2(9) by (auto simp: list_all_iff intro: typed_term_mono)
  have v: "typed_term s1 ?C (vi_carrier view, mk_const (''Fine.predicate.'' @ pd_name d @ ''.'' @ pc_name c @ ''.arbitrary'' @ nat_to_string ordinal) (rt_sort (ru_heap s1 ! vi_carrier view)))"
    using view by (auto simp: typed_term_def sort_at_def intro: sorted_const)
  note envs = zip_environment [OF es] typed_environment_emplace [OF zip_environment [OF es] v] typed_environment_emplace [OF env v]
  show ?case
    by (intro type_at_vc 2(7) ensures_branch, hypsubst, rule typed.ensures_then [OF typed.ensures_keeps [OF typed_rain 2(7)]],
        rule typed.ensures_bind [OF view_requirement_vc [OF _ typed_environment_le [OF envs(2)]]], assumption, assumption,
        rule typed.ensures_bind [OF availability_witness_vc [OF _ typed_environment_le [OF envs(1)]]], assumption, erule runtime_le_trans, assumption,
        rule typed.ensures_bind [OF scoped_premises_vc [OF _ typed_environment_le [OF envs(3)]]], assumption)
      (auto intro!: ensures_branch typed.ensures_then [OF typed.ensures_keeps [OF record_keeps(1)]] typed.ensures_ret intro: runtime_le_trans)
qed

lemma map_of_update: "map_of (map (\<lambda>(n, i). (n, g n i)) m) k = map_option (g k) (map_of m k)"
  by (induction m) auto

lemma typed_retain: "typed.keeps (retain_constructor name c)"
proof -
  have "(\<lambda>(n, info). (n, if n = name then info\<lparr>pri_constructors := pri_constructors info @ [c]\<rparr> else info)) =
      (\<lambda>(n, info). (n, (\<lambda>n info. if n = name then info\<lparr>pri_constructors := pri_constructors info @ [c]\<rparr> else info) n info))" by simp
  then show ?thesis unfolding retain_constructor_def
    by (intro typed.keeps_modify)
      (auto simp: runtime_ok_def tables_ok_def cases_ok_def constructors_ok_def interned_def informed_def runtime_le_def map_of_update predicate_ok_def split: if_splits)
qed

lemma arbitrary_fields_vc:
  assumes "runtime_ok s" "params_ok A nm s bound"
  shows "typed.ensures s (mapA (arbitrary_field_step w d c bound) xs) (\<lambda>_ _. True)"
  unfolding arbitrary_field_step_def
  by (rule typed.ensures_mono [OF typed.ensures_map [where P = "\<lambda>_ _ _. True"]], rule capturing_vc, assumption, rule arbitrary_field_vc)
    (use assms in \<open>auto intro: params_ok_le runtime_le_trans\<close>)

lemma declare_constructor_vc:
  assumes s: "runtime_ok s"
  shows "typed.ensures s (declare_constructor w d horn names c) (\<lambda>_ _. True)"
  unfolding declare_constructor_def
proof (rule check_that_vc [OF s], rule typed.ensures_bind [OF native_parameters_vc [OF s]], intro ensures_branch, goal_cases)
  case (1 bound s1 env formals)
  have env: "typed_environment s1 (constants bound) env" using bound_environment_typed 1(4,5) by blast
  have tail: "typed.ensures s' (thenA (whenA b (thenA (whenA horn (add_rule rule nm)) (record_rule w d c horn rule conclusion i j)))
        (thenA (retain_constructor (pd_name d) item) (retA (pc_name c # names)))) (\<lambda>_ _. True)"
    if "runtime_ok s'" for s' rule conclusion b nm i j item
    by (rule typed.ensures_keeps [OF _ that]) (intro typed_rules record_keeps typed_retain)
  have rest: "typed.ensures s' (thenA (check_conclusion c) q) (\<lambda>_ _. True)"
    if "runtime_ok s'" "\<And>s''. runtime_ok s'' \<Longrightarrow> runtime_le s' s'' \<Longrightarrow> typed.ensures s'' q (\<lambda>_ _. True)" for s' q
    unfolding check_conclusion_def by (rule typed.ensures_then [OF typed.ensures_keeps [OF _ that(1)]]) (auto intro!: typed_rules that(2))
  show ?case unfolding constructor_atom_def
  proof (rule typed.ensures_bind [OF predicate_atom_vc [OF 1(2) env]], rule check_that_vc, assumption,
      rule typed.ensures_bind [OF elaborate_indices_vc [OF _ typed_environment_le [OF env]]], assumption, assumption,
      rule rest, assumption, rule typed.ensures_bind [OF typed_premises [OF _ typed_environment_le [OF env]]], assumption, goal_cases)
    case (1 t s2 ts s3 s4)
    then show ?case by (blast intro: runtime_le_trans)
  next
    case (2 t s2 ts s3 s4 x s5)
    then have "runtime_le s1 s5" by (blast intro: runtime_le_trans)
    then have "params_ok (\<lambda>t. rt_kind t \<noteq> rk_table) (argument_name ''Fine.predicate.'' (pd_name d @ ''.'' @ pc_name c)) s5 bound"
      using \<open>params_ok _ _ s1 bound \<and> _\<close> by (blast intro: params_ok_le)
    from arbitrary_fields_vc [OF 2(10) this] show ?case
      by (intro ensures_branch typed.ensures_bind [where Q = "\<lambda>_ _. True"] tail)
  qed
qed

lemma runtime_ok_predicate:
  assumes "runtime_ok s" "predicate_ok (ru_heap s) p" 
  shows "runtime_ok (s\<lparr>ru_predicates := emplace n p (ru_predicates s)\<rparr>) \<and> runtime_le s (s\<lparr>ru_predicates := emplace n p (ru_predicates s)\<rparr>)"
  using assms by (auto simp: runtime_ok_def tables_ok_def cases_ok_def constructors_ok_def interned_def informed_def runtime_le_def map_of_emplace)

lemma typed_declare_predicate: "typed.keeps (declare_predicate w d)"
  unfolding declare_predicate_def
proof (rule typed.keeps_ensures, rule typed.ensures_then [OF typed.ensures_keeps [OF typed_reserve_value_name]], assumption,
    rule typed.ensures_bind [OF predicate_indices_vc], assumption, intro ensures_branch typed.ensures_read, assumption, goal_cases)
  case (1 s u s1 x s2 names types horn decl info)
  have p: "predicate_ok (ru_heap s3) info" if "runtime_le s2 s3" for s3
    using 1 list_native_le [OF _ that, of types] sort_at_le [OF that]
    by (auto simp: predicate_ok_def sort_at_def list_all_iff native_def)
  show ?case
    by (rule typed.ensures_then [OF typed.ensures_keeps], intro typed_rules record_keeps, rule 1,
        rule typed.ensures_then [OF typed.ensures_modify [where Q = "\<lambda>_ _. True"]])
      (use runtime_ok_predicate p in \<open>auto intro!: typed.ensures_then [OF typed.ensures_keeps [OF record_keeps(3)]] typed.ensures_ret
         typed.ensures_then [OF typed.ensures_fold [where I = "\<lambda>_ _. True"]] declare_constructor_vc\<close>)
qed

end
