(* ===== verification/Fine_Sample_Runtime.thy ===== *)
theory Fine_Sample_Runtime
  imports Fine_Predicate_Props Fine_Sample_World
begin

text \<open>
  Concrete runtimes and declarations, on which properties of the runtime are applied: a fresh runtime, and one
  with the natural numbers \<^verbatim>\<open>enum Nat = Zero | Succ(pred: Nat)\<close> declared in it.
\<close>

section \<open>A sample state\<close>

definition sample_runtime :: runtime where
  "sample_runtime = new_runtime False [] [] None"

lemmas run_simps = bindA_def thenA_def retA_def throwA_def getA_def modifyA_def guardA_def whenA_def resultA_def check_that_def type_at_def new_type_def
  new_datatype_def tuple_type_def table_type_def completed_expression_def reject_def emplace_def plain_type_def sample_world_def

lemmas sample_simps = sample_runtime_def new_runtime_def bool_type_def int_type_def run_simps Let_def

definition sample_name :: "string \<Rightarrow> fine_type" where
  "sample_name n = Type ty_named default_span n []"

definition sample_pair :: fine_type where
  "sample_pair = Type ty_tuple default_span [] [sample_name ''Int'', sample_name ''Bool'']"

lemma sample_runtime_ok: "runtime_ok sample_runtime"
  unfolding sample_runtime_def by (rule new_runtime_ok)

definition sample_env :: environment where
  "sample_env = [(''x'', (int_type, mk_const ''x'' SInt))]"

definition sample_expr :: expr where
  "sample_expr = Expr ek_tuple default_span [] False [] op_equal
     [binary_surface op_add [name_surface ''x'', integer_surface ''1''],
      binary_surface op_greater_equal [name_surface ''x'', integer_surface ''0'']] 0"

section \<open>Natural numbers\<close>

definition sample_case :: "string \<Rightarrow> enum_field list \<Rightarrow> enum_case" where
  "sample_case n fs = \<lparr>ec_span = default_span, ec_name = n, ec_fields = fs\<rparr>"

definition sample_nat :: enum_decl where
  "sample_nat = \<lparr>ed_span = default_span, ed_name = ''Nat'',
     ed_cases = [sample_case ''Zero'' [], sample_case ''Succ'' [\<lparr>ef_span = default_span, ef_name = ''pred'', ef_type = sample_name ''Nat''\<rparr>]],
     ed_node_id = 0\<rparr>"

definition sample_nat_runtime :: runtime where
  "sample_nat_runtime = snd (declare_enum sample_world sample_nat sample_runtime)"

lemma sample_nat_runtime_ok: "runtime_ok sample_nat_runtime"
proof -
  have n: "plain_name (ed_name sample_nat)" by (simp add: sample_nat_def plain_name_def is_name_continue_def is_name_start_def)
  show ?thesis using typed.keepsD [OF typed_declare_enum [OF n, of sample_world] sample_runtime_ok]
    unfolding sample_nat_runtime_def vcA_def by (auto split: prod.splits sum.splits)
qed

lemmas enum_simps = declare_enum_def reserve_type_name_def reserve_cases_def reserve_value_name_def check_fields_def declare_datatype_def
  resolve_field_def field_sort_def case_info_def sample_nat_def sample_case_def sample_name_def

lemma sample_nat_runtime:
  "ru_recdefs sample_nat_runtime = []" "ru_predicates sample_nat_runtime = []" "ru_functions sample_nat_runtime = []"
  "ru_types sample_nat_runtime = [(''Nat'', 2), (''Bool'', 0), (''Int'', 1)]"
  by (simp_all add: sample_nat_runtime_def sample_simps enum_simps)

text \<open>\<^verbatim>\<open>copy(n: Nat) -> Nat = match n { Zero => Zero; Succ(m) => Succ(copy(m)) }\<close>\<close>

definition sample_call :: "string \<Rightarrow> expr list \<Rightarrow> expr" where
  "sample_call f es = Expr ek_call default_span f False [] op_equal es 0"

definition sample_function :: function_decl where
  "sample_function = \<lparr>fd_span = default_span, fd_name = ''copy'',
     fd_parameters = [\<lparr>pa_span = default_span, pa_name = ''n'', pa_type = sample_name ''Nat''\<rparr>],
     fd_result_type = sample_name ''Nat'', fd_scrutinee = name_surface ''n'',
     fd_arms = [\<lparr>ma_span = default_span, ma_constructor = ''Zero'', ma_bindings = [], ma_value = name_surface ''Zero''\<rparr>,
       \<lparr>ma_span = default_span, ma_constructor = ''Succ'', ma_bindings = [\<lparr>mb_span = default_span, mb_name = ''m''\<rparr>],
        ma_value = sample_call ''Succ'' [sample_call ''copy'' [name_surface ''m'']]\<rparr>],
     fd_node_id = 0\<rparr>"

lemmas function_simps = declare_function_def bind_parameters_def bind_parameter_def function_arm_def bind_field_def bound_environment_def capturing_def
  record_function_def rain_def rain_event_def find_callee_def datatype_case_def elaborate_expression.simps elaborate_name_def
  sample_function_def sample_call_def surface_defs

lemma sample_function_run: "fst (declare_function sample_world sample_function sample_nat_runtime) = Inr ()"
  by (simp add: sample_nat_runtime_def sample_simps enum_simps function_simps forA_def)

end
