(* ===== verification/Fine_Runtime_Properties.thy ===== *)
theory Fine_Runtime_Properties
  imports Fine_Sample_Runtime
begin

text \<open>
  What the runtime guarantees about its types and terms: the types of the source are represented by unique
  pointers, elaboration builds only terms that Z3 accepts, of the sort of the type it reports, and the
  recursive definition that a function declaration gives to Z3 is well sorted.
\<close>

section \<open>Types\<close>

text \<open>C6: \<open>resolve_type\<close> implements types as trees by pointers into the heap: the pointer it returns
  represents the tree that the source denotes, and two types of the source get the same pointer exactly when
  they denote the same tree.  The type checks of the runtime, which compare pointers, so compare types.\<close>

theorem types_are_interned:
  assumes s: "runtime_ok s" and a: "resolve_type w a s = (Inr p, s1)" and b: "resolve_type w b s1 = (Inr q, s2)"
  shows "\<exists>t u. tree_of a = Some t \<and> tree_of b = Some u \<and> represents (ru_heap s2) p t \<and> represents (ru_heap s2) q u \<and> (p = q \<longleftrightarrow> t = u)"
proof -
  obtain t where t: "runtime_ok s1" "tree_of a = Some t" "represents (ru_heap s1) p t"
    using vcA_Inr [OF resolve_type_vc [OF s, of w a, unfolded typed.ensures_def] a] by blast
  obtain u where u: "runtime_ok s2" "runtime_le s1 s2" "tree_of b = Some u" "represents (ru_heap s2) q u"
    using vcA_Inr [OF resolve_type_vc [OF t(1), of w b, unfolded typed.ensures_def] b] by blast
  have "represents (ru_heap s2) p t" by (rule represents_le [OF u(2) t(3)])
  with t(2) u(3,4) represents_eq [OF u(1) this u(4)] show ?thesis by blast
qed

theorem types_are_interned_witness:
  "\<exists>p s1 q s2. resolve_type sample_world sample_pair sample_runtime = (Inr p, s1) \<and>
     resolve_type sample_world sample_pair s1 = (Inr q, s2) \<and> p = q"
proof -
  have "case resolve_type sample_world sample_pair sample_runtime of
      (Inr p, s1) \<Rightarrow> (case resolve_type sample_world sample_pair s1 of (Inr q, s2) \<Rightarrow> True | _ \<Rightarrow> False) | _ \<Rightarrow> False"
    by (simp add: sample_simps sample_pair_def sample_name_def)
  then obtain p s1 q s2 where r: "resolve_type sample_world sample_pair sample_runtime = (Inr p, s1)"
      "resolve_type sample_world sample_pair s1 = (Inr q, s2)"
    by (auto split: prod.splits sum.splits)
  from types_are_interned [OF sample_runtime_ok r] r show ?thesis by auto
qed

section \<open>Terms\<close>

text \<open>C7: elaboration is type safe.  In an environment of well-sorted terms every expression that is
  accepted becomes a term that Z3 accepts: it has the sort of the type that is reported, no quantifier, and no
  uninterpreted declaration but those of the environment and the relations of the declared predicates.\<close>

theorem elaborated_terms_sorted:
  assumes "runtime_ok s" "typed_environment s C env" "elaborate_expression w env e s = (Inr (p, t), s')"
  shows "p < length (ru_heap s') \<and> well_sorted t \<and> sort_of t = rt_sort (ru_heap s' ! p) \<and> quantifier_free t \<and>
    uninterpreted t \<subseteq> C \<union> relations s'"
  using vcA_Inr [OF elaborate_expression_vc [OF assms(1,2), unfolded typed.ensures_def] assms(3)]
  by (simp add: typed_term_def sorted_term_def sort_at_def)

theorem elaborated_terms_sorted_witness:
  "\<exists>p t s'. elaborate_expression sample_world sample_env sample_expr sample_runtime = (Inr (p, t), s') \<and> well_sorted t \<and>
     sort_of t = rt_sort (ru_heap s' ! p)"
proof -
  have "case elaborate_expression sample_world sample_env sample_expr sample_runtime of (Inr _, _) \<Rightarrow> True | _ \<Rightarrow> False"
    by (simp add: sample_simps sample_expr_def surface_defs elaborate_expression.simps elaborate_name_def elaborate_binary_def elaborate_tuple_def sample_env_def)
  then obtain p t s' where r: "elaborate_expression sample_world sample_env sample_expr sample_runtime = (Inr (p, t), s')"
    by (auto split: prod.splits sum.splits)
  have "typed_environment sample_runtime {ZDecl ''x'' Uninterpreted [] SInt} sample_env"
    using sample_runtime_ok by (simp add: typed_environment_def sample_env_def typed_int sorted_const)
  from elaborated_terms_sorted [OF sample_runtime_ok this r] r show ?thesis by blast
qed

section \<open>Functions\<close>

text \<open>C8: an accepted function declaration gives Z3 exactly one recursive definition, and it is well sorted: the
  formal parameters are different constants of the sorts of the domain, and the body, the match over all
  constructors, has the sort of the range and no constants but those.\<close>

theorem declared_function_sorted:
  assumes "runtime_ok s" "declare_function w d s = (Inr (), s')"
  shows "\<exists>f. ru_recdefs s' = ru_recdefs s @ [f] \<and> definition_ok s' f"
  using vcA_Inr [OF declare_function_vc [OF assms(1), unfolded typed.ensures_def] assms(2)] by blast

theorem declared_function_sorted_witness:
  "\<exists>s' f. declare_function sample_world sample_function sample_nat_runtime = (Inr (), s') \<and> ru_recdefs s' = [f] \<and> definition_ok s' f"
proof -
  obtain s' where r: "declare_function sample_world sample_function sample_nat_runtime = (Inr (), s')"
    using sample_function_run by (metis prod.collapse)
  from declared_function_sorted [OF sample_nat_runtime_ok r] r show ?thesis by (auto simp: sample_nat_runtime)
qed

end
