(* ===== verification/Fine_Semantics.thy ===== *)
theory Fine_Semantics
  imports Fine_Predicate_Props
begin

text \<open>
  The meaning of the terms that the runtime gives to Z3.  Values are Booleans, integers and constructor terms;
  a sort that the runtime declared has as its values the terms over its constructors, which are the
  algebraic datatypes of Z3.  An evaluation is relative to an interpretation \<open>F\<close> of the functions and
  relations and to values \<open>K\<close> of the constants.
\<close>

section \<open>Values\<close>

datatype val = VBool bool | VInt int | VCon string "val list"

text \<open>Each pair type has a sort and a constructor of its own; their values are the same pairs.\<close>

definition con_name :: "string \<Rightarrow> string" where
  "con_name z = (if pair_name z then ''Fine.Pair'' else z)"

type_synonym signature = "string \<Rightarrow> (string \<times> zsort list) set"

inductive has_sort :: "signature \<Rightarrow> zsort \<Rightarrow> val \<Rightarrow> bool" for S where
  has_bool: "has_sort S SBool (VBool b)"
| has_int: "has_sort S SInt (VInt i)"
| has_con: "(c, ks) \<in> S n \<Longrightarrow> list_all2 (has_sort S) ks vs \<Longrightarrow> has_sort S (SDatatype n) (VCon (con_name c) vs)"

inductive_cases has_boolE: "has_sort S SBool v"
inductive_cases has_intE: "has_sort S SInt v"
inductive_cases has_conE: "has_sort S (SDatatype n) v"

text \<open>The constructors that a runtime has declared.\<close>

definition signature_of :: "runtime \<Rightarrow> signature" where
  "signature_of s n =
     {(c, []) | info c. map_of (ru_enums s) n = Some info \<and> c \<in> set (ei_case_names info)} \<union>
     {(dc_name item, zd_domain (dc_constructor item)) | info item. map_of (ru_datatypes s) n = Some info \<and> item \<in> set (di_cases info)} \<union>
     {(n, [sort_at (ru_heap s) a, sort_at (ru_heap s) b]) | p a b. compound_type (ru_heap s) rk_tuple a b p \<and> sort_at (ru_heap s) p = SDatatype n}"

definition values_of :: "runtime \<Rightarrow> zsort \<Rightarrow> val set" where
  "values_of s k = {v. has_sort (signature_of s) k v}"

lemma has_sort_mono: "has_sort S k v \<Longrightarrow> (\<And>n. S n \<subseteq> T n) \<Longrightarrow> has_sort T k v"
proof (induction rule: has_sort.induct)
  case (has_con c ks n vs)
  then have "(c, ks) \<in> T n" "list_all2 (has_sort T) ks vs" by (blast, auto elim: list_all2_mono)
  then show ?case by (rule has_sort.has_con)
qed (auto intro: has_sort.intros)

section \<open>Evaluation\<close>

type_synonym meanings = "zdecl \<Rightarrow> val list \<Rightarrow> val"
type_synonym valuation = "zdecl \<Rightarrow> val"

definition numeral_value :: "string \<Rightarrow> int" where
  "numeral_value t = (if t \<noteq> [] \<and> hd t = CHR ''-'' then - int (string_to_nat (tl t)) else int (string_to_nat t))"

definition int_of_val :: "val \<Rightarrow> int" where
  "int_of_val v = (case v of VInt i \<Rightarrow> i | _ \<Rightarrow> 0)"

text \<open>Other operations of Z3, which the terms considered here do not have, are left to the interpretation.\<close>

definition builtin_value :: "meanings \<Rightarrow> zdecl \<Rightarrow> decl_kind \<Rightarrow> val list \<Rightarrow> val" where
  "builtin_value F d k vs =
     (case k of
        OP_TRUE \<Rightarrow> VBool True
      | OP_FALSE \<Rightarrow> VBool False
      | OP_AND \<Rightarrow> VBool (\<forall>v\<in>set vs. v = VBool True)
      | OP_OR \<Rightarrow> VBool (\<exists>v\<in>set vs. v = VBool True)
      | OP_NOT \<Rightarrow> (case vs of [a] \<Rightarrow> VBool (a \<noteq> VBool True) | _ \<Rightarrow> F d vs)
      | OP_IMPLIES \<Rightarrow> (case vs of [a, b] \<Rightarrow> VBool (a = VBool True \<longrightarrow> b = VBool True) | _ \<Rightarrow> F d vs)
      | OP_EQ \<Rightarrow> (case vs of [a, b] \<Rightarrow> VBool (a = b) | _ \<Rightarrow> F d vs)
      | OP_ITE \<Rightarrow> (case vs of [c, a, b] \<Rightarrow> if c = VBool True then a else b | _ \<Rightarrow> F d vs)
      | OP_LE \<Rightarrow> (case vs of [a, b] \<Rightarrow> VBool (int_of_val a \<le> int_of_val b) | _ \<Rightarrow> F d vs)
      | OP_GE \<Rightarrow> (case vs of [a, b] \<Rightarrow> VBool (int_of_val b \<le> int_of_val a) | _ \<Rightarrow> F d vs)
      | OP_ADD \<Rightarrow> (case vs of [a, b] \<Rightarrow> VInt (int_of_val a + int_of_val b) | _ \<Rightarrow> F d vs)
      | OP_SUB \<Rightarrow> (case vs of [a, b] \<Rightarrow> VInt (int_of_val a - int_of_val b) | _ \<Rightarrow> F d vs)
      | _ \<Rightarrow> F d vs)"

definition apply_decl :: "meanings \<Rightarrow> valuation \<Rightarrow> zdecl \<Rightarrow> val list \<Rightarrow> val" where
  "apply_decl F K d vs =
     (case zd_family d of
        Uninterpreted \<Rightarrow> if vs = [] then K d else F d vs
      | Builtin k \<Rightarrow> builtin_value F d k vs
      | Constructor \<Rightarrow> VCon (con_name (zd_name d)) vs
      | Recognizer c \<Rightarrow> VBool (case vs of [VCon n _] \<Rightarrow> n = con_name c | _ \<Rightarrow> False)
      | Accessor c \<Rightarrow> F d vs
      | RecursiveFunction \<Rightarrow> F d vs)"

text \<open>Quantifiers range over the values \<open>D\<close> of the sorts of their variables; the innermost variable comes first.\<close>

primrec eval :: "(zsort \<Rightarrow> val set) \<Rightarrow> meanings \<Rightarrow> valuation \<Rightarrow> val list \<Rightarrow> zexpr \<Rightarrow> val" where
  "eval D F K env (ZNumeral v s) = VInt (numeral_value v)"
| "eval D F K env (ZApp d args) = apply_decl F K d (map (eval D F K env) args)"
| "eval D F K env (ZVar i s) = (if i < length env then env ! i else VBool False)"
| "eval D F K env (ZQuant k weight qid skid bs body pats nopats) =
     (case k of
        QForall \<Rightarrow> VBool (\<forall>vs. list_all2 (\<lambda>b v. v \<in> D (snd b)) bs vs \<longrightarrow> eval D F K (rev vs @ env) body = VBool True)
      | QExists \<Rightarrow> VBool (\<exists>vs. list_all2 (\<lambda>b v. v \<in> D (snd b)) bs vs \<and> eval D F K (rev vs @ env) body = VBool True)
      | QLambda \<Rightarrow> VBool False)"

lemma eval_builtin: "eval D F K env (builtin n k domain rng ts) = builtin_value F (ZDecl n (Builtin k) domain rng) k (map (eval D F K env) ts)"
  by (simp add: builtin_def apply_decl_def)

lemma eval_mk [simp]:
  "eval D F K env (bool_val b) = VBool b"
  "eval D F K env (mk_not a) = VBool (eval D F K env a \<noteq> VBool True)"
  "eval D F K env (mk_and a c) = VBool (eval D F K env a = VBool True \<and> eval D F K env c = VBool True)"
  "eval D F K env (mk_or a c) = VBool (eval D F K env a = VBool True \<or> eval D F K env c = VBool True)"
  "eval D F K env (mk_implies a c) = VBool (eval D F K env a = VBool True \<longrightarrow> eval D F K env c = VBool True)"
  "eval D F K env (mk_eq a c) = VBool (eval D F K env a = eval D F K env c)"
  "eval D F K env (mk_le a c) = VBool (int_of_val (eval D F K env a) \<le> int_of_val (eval D F K env c))"
  "eval D F K env (mk_ge a c) = VBool (int_of_val (eval D F K env c) \<le> int_of_val (eval D F K env a))"
  "eval D F K env (mk_add a c) = VInt (int_of_val (eval D F K env a) + int_of_val (eval D F K env c))"
  "eval D F K env (mk_sub a c) = VInt (int_of_val (eval D F K env a) - int_of_val (eval D F K env c))"
  "eval D F K env (mk_ite e a c) = (if eval D F K env e = VBool True then eval D F K env a else eval D F K env c)"
  by (auto simp: bool_val_def mk_not_def mk_and_def mk_or_def mk_implies_def mk_eq_def mk_le_def mk_ge_def mk_add_def mk_sub_def mk_ite_def
      eval_builtin builtin_value_def)

lemma eval_const [simp]: "eval D F K env (mk_const n k) = K (ZDecl n Uninterpreted [] k)"
  by (simp add: mk_const_def apply_decl_def)

lemma numeral_value_text: "numeral_value (numeral_text t) = numeral_value t"
proof -
  have "nat_to_string n \<noteq> [] \<and> hd (nat_to_string n) \<noteq> CHR ''-''" for n
  proof -
    have "nat_to_string n \<noteq> []" by simp
    then have "hd (nat_to_string n) \<in> set (nat_to_string n)" by simp
    then have "is_digit (hd (nat_to_string n))" by (rule nat_to_string_digits)
    then show ?thesis by (auto simp: is_digit_def)
  qed
  then show ?thesis by (auto simp: numeral_value_def numeral_text_def string_to_nat_to_string string_to_nat_def [of "''0''"] digit_value_def)
qed

lemma eval_int_val [simp]: "eval D F K env (int_val t) = VInt (numeral_value t)"
  by (simp add: int_val_def numeral_value_text)

section \<open>Terms without quantifiers\<close>

lemma quantifier_free_app: "quantifier_free (ZApp d args) \<longleftrightarrow> (\<forall>a\<in>set args. quantifier_free a)"
  by (auto simp: list_all_iff)

lemma apply_decl_cong:
  "vs = ws \<Longrightarrow> (zd_family d = Uninterpreted \<Longrightarrow> vs = [] \<Longrightarrow> K d = L d) \<Longrightarrow> apply_decl F K d vs = apply_decl F L d ws"
  by (auto simp: apply_decl_def split: decl_family.splits)

lemma eval_coincidence:
  "quantifier_free t \<Longrightarrow> (\<And>d. d \<in> uninterpreted t \<Longrightarrow> K d = L d) \<Longrightarrow> eval D F K env t = eval E F L env' t"
proof (induction t)
  case (ZApp d args)
  have "map (eval D F K env) args = map (eval E F L env') args"
    using ZApp by (auto simp: list_all_iff)
  then show ?case unfolding eval.simps by (rule apply_decl_cong) (use ZApp.prems(2) in auto)
qed auto

definition is_const :: "zexpr \<Rightarrow> bool" where
  "is_const t \<longleftrightarrow> (\<exists>n k. t = mk_const n k)"

lemma subst_pairs_const: "list_all is_const from \<Longrightarrow> subst_pairs from to t = Some b \<Longrightarrow> \<exists>d. t = ZApp d [] \<and> zd_family d = Uninterpreted"
  by (induction "from" to t rule: subst_pairs.induct) (auto simp: is_const_def mk_const_def split: if_splits)

text \<open>Substituting for constants is evaluating with other constants.\<close>

definition substituted :: "(zexpr \<Rightarrow> val) \<Rightarrow> zexpr list \<Rightarrow> zexpr list \<Rightarrow> valuation \<Rightarrow> valuation" where
  "substituted f from to K d = (case subst_pairs from to (ZApp d []) of Some b \<Rightarrow> f b | None \<Rightarrow> K d)"

lemma eval_substitute:
  assumes "list_all is_const from" "quantifier_free t"
  shows "eval D F K env (z_substitute from to t) = eval D F (substituted (eval D F K env) from to K) env t"
  using assms(2)
proof (induction t)
  case (ZNumeral v k)
  then show ?case using subst_pairs_const [OF assms(1), of to "ZNumeral v k"] by (auto split: option.splits)
next
  case (ZApp d args)
  let ?L = "substituted (eval D F K env) from to K"
  show ?case
  proof (cases "subst_pairs from to (ZApp d args)")
    case None
    have "map (eval D F K env \<circ> z_substitute from to) args = map (eval D F ?L env) args"
      using ZApp by (auto simp: list_all_iff)
    then have "apply_decl F K d (map (eval D F K env \<circ> z_substitute from to) args) = apply_decl F ?L d (map (eval D F ?L env) args)"
      by (rule apply_decl_cong) (use None in \<open>auto simp: substituted_def\<close>)
    with None show ?thesis by simp
  next
    case (Some b)
    with subst_pairs_const [OF assms(1) Some] show ?thesis by (auto simp: apply_decl_def substituted_def)
  qed
qed auto

text \<open>Abstracting constants is evaluating with the values of the variables for them.\<close>

definition assigned :: "zexpr list \<Rightarrow> val list \<Rightarrow> valuation \<Rightarrow> valuation" where
  "assigned cs vs K d = (case position_of cs (ZApp d []) of Some i \<Rightarrow> vs ! i | None \<Rightarrow> K d)"

lemma eval_abstract:
  assumes "list_all is_const cs" "length vs = length cs" "quantifier_free t"
  shows "eval D F K (rev vs) (z_abstract cs 0 t) = eval D F (assigned cs vs K) [] t"
  using assms(3)
proof (induction t)
  case (ZApp d args)
  show ?case
  proof (cases "position_of cs (ZApp d args)")
    case None
    have "map (eval D F K (rev vs) \<circ> z_abstract cs 0) args = map (eval D F (assigned cs vs K) []) args"
      using ZApp by (auto simp: list_all_iff)
    then have "apply_decl F K d (map (eval D F K (rev vs) \<circ> z_abstract cs 0) args) =
        apply_decl F (assigned cs vs K) d (map (eval D F (assigned cs vs K) []) args)"
      by (rule apply_decl_cong) (use None in \<open>auto simp: assigned_def\<close>)
    with None show ?thesis by simp
  next
    case (Some i)
    from position_of_Some [OF Some] assms(1) have "is_const (ZApp d args)" by (metis list_all_length)
    then have d: "args = []" "zd_family d = Uninterpreted" by (auto simp: is_const_def mk_const_def)
    have i: "i < length vs" using position_of_Some [OF Some] assms(2) by simp
    have "rev vs ! (length cs - 1 - i) = vs ! i" "length cs - 1 - i < length cs" using i assms(2) by (simp add: rev_nth, linarith)
    with Some d i assms(2) show ?thesis by (simp add: apply_decl_def assigned_def)
  qed
qed auto

section \<open>Validity\<close>

text \<open>Constants have values of their sorts, where there are any.\<close>

definition constants_ok :: "(zsort \<Rightarrow> val set) \<Rightarrow> valuation \<Rightarrow> bool" where
  "constants_ok D K \<longleftrightarrow> (\<forall>d. D (zd_range d) \<noteq> {} \<longrightarrow> K d \<in> D (zd_range d))"

definition valid :: "(zsort \<Rightarrow> val set) \<Rightarrow> meanings \<Rightarrow> zexpr \<Rightarrow> bool" where
  "valid D F t \<longleftrightarrow> (\<forall>K. constants_ok D K \<longrightarrow> eval D F K [] t = VBool True)"

lemma assigned_ok:
  assumes "constants_ok D K" "list_all2 (\<lambda>c v. is_const c \<and> v \<in> D (sort_of c)) cs vs"
  shows "constants_ok D (assigned cs vs K)"
proof -
  have "vs ! i \<in> D (zd_range d)" if "position_of cs (ZApp d []) = Some i" for d i
    using position_of_Some [OF that] assms(2) by (auto simp: list_all2_conv_all_nth)
  with assms(1) show ?thesis by (auto simp: constants_ok_def assigned_def split: option.splits)
qed

lemma substituted_ok:
  assumes "constants_ok D K" "list_all2 (\<lambda>a b. is_const a \<and> f b \<in> D (sort_of a)) from to"
  shows "constants_ok D (substituted f from to K)"
proof -
  have "f b \<in> D (zd_range d)" if "subst_pairs from to (ZApp d []) = Some b" for d b
    using assms(2) that by (induction rule: list_all2_induct) (auto split: if_splits)
  with assms(1) show ?thesis by (auto simp: constants_ok_def substituted_def split: option.splits)
qed

text \<open>A universal closure holds when the body does for all values of the constants.\<close>

lemma eval_closure:
  assumes "list_all is_const cs" "quantifier_free t"
  shows "eval D F K [] (mk_quantifier QForall qid skid cs t) = VBool True \<longleftrightarrow>
    (\<forall>vs. list_all2 (\<lambda>c v. v \<in> D (sort_of c)) cs vs \<longrightarrow> eval D F (assigned cs vs K) [] t = VBool True)"
proof -
  have "snd (const_binder c) = sort_of c" if "is_const c" for c
    using that by (auto simp: is_const_def const_binder_def mk_const_def)
  then have "list_all2 (\<lambda>b v. v \<in> D (snd b)) (map const_binder cs) vs = list_all2 (\<lambda>c v. v \<in> D (sort_of c)) cs vs" for vs
    using assms(1) by (simp add: list_all2_map1 list_all_length list_all2_conv_all_nth cong: conj_cong)
  moreover have "length vs = length cs" if "list_all2 (\<lambda>c v. v \<in> D (sort_of c)) cs vs" for vs
    using that by (simp add: list_all2_lengthD)
  ultimately show ?thesis using assms eval_abstract [OF assms(1) _ assms(2)] by (auto simp: mk_quantifier_def)
qed

end
