(* ===== verification/Fine_Meaning.thy ===== *)
theory Fine_Meaning
  imports Fine_Semantics
begin

text \<open>
  The meaning of expressions of the source, read off the syntax: names stand for their values or are constructors,
  calls apply functions or constructors, and the operators are those of the integers and Booleans.
  Elaboration keeps it: the term for an expression evaluates to the meaning of the expression.
\<close>

section \<open>Expressions of the source\<close>

definition binary_value :: "binary_op \<Rightarrow> val \<Rightarrow> val \<Rightarrow> val" where
  "binary_value bop a b =
     (case bop of
        op_equal \<Rightarrow> VBool (a = b)
      | op_greater_equal \<Rightarrow> VBool (int_of_val b \<le> int_of_val a)
      | op_less_equal \<Rightarrow> VBool (int_of_val a \<le> int_of_val b)
      | op_logical_and \<Rightarrow> VBool (a = VBool True \<and> b = VBool True)
      | op_logical_or \<Rightarrow> VBool (a = VBool True \<or> b = VBool True)
      | op_add \<Rightarrow> VInt (int_of_val a + int_of_val b)
      | op_subtract \<Rightarrow> VInt (int_of_val a - int_of_val b))"

primrec den :: "(string \<Rightarrow> (val list \<Rightarrow> val) option) \<Rightarrow> (string \<Rightarrow> val option) \<Rightarrow> expr \<Rightarrow> val" where
  "den f r (Expr k sp nm b it bop es i) =
     (let vs = map (den f r) es in
      case k of
        ek_name \<Rightarrow> (case r nm of Some v \<Rightarrow> v | None \<Rightarrow> VCon (con_name nm) [])
      | ek_boolean \<Rightarrow> VBool b
      | ek_integer \<Rightarrow> VInt (numeral_value it)
      | ek_tuple \<Rightarrow> VCon ''Fine.Pair'' vs
      | ek_call \<Rightarrow> (case f nm of Some g \<Rightarrow> g vs | None \<Rightarrow> VCon (con_name nm) vs)
      | ek_binary \<Rightarrow> binary_value bop (vs ! 0) (vs ! 1)
      | ek_conditional \<Rightarrow> (if vs ! 0 = VBool True then vs ! 1 else vs ! 2)
      | ek_hole \<Rightarrow> VBool False)"

text \<open>What the names of a runtime apply, and the values of the names of an environment.\<close>

definition applied :: "meanings \<Rightarrow> valuation \<Rightarrow> runtime \<Rightarrow> string \<Rightarrow> (val list \<Rightarrow> val) option" where
  "applied F K s n =
     (if map_of (ru_constructors s) n \<noteq> None then None
      else case map_of (ru_predicates s) n of
        Some p \<Rightarrow> Some (apply_decl F K (pri_relation p))
      | None \<Rightarrow> map_option (\<lambda>g. apply_decl F K (fi_declaration g)) (map_of (ru_functions s) n))"

definition env_values :: "(zexpr \<Rightarrow> val) \<Rightarrow> environment \<Rightarrow> string \<Rightarrow> val option" where
  "env_values v env n = map_option (\<lambda>e. v (snd e)) (map_of env n)"

section \<open>Elaboration keeps the meaning\<close>

text \<open>Elaboration keeps the invariant and declares nothing.\<close>

definition calm_le :: "runtime \<Rightarrow> runtime \<Rightarrow> bool" where
  "calm_le s s' \<longleftrightarrow> runtime_le s s' \<and> quiet s s'"

interpretation calm: action_invariant runtime_ok runtime_ok calm_le
  by unfold_locales (auto intro: runtime_le_refl runtime_le_trans simp: calm_le_def quiet_def)

lemma calm_leD: "calm_le s s' \<Longrightarrow> runtime_le s s'" "calm_le s s' \<Longrightarrow> quiet s s'"
  by (simp_all add: calm_le_def)

lemma calm_ensures: "quiet.keeps p \<Longrightarrow> typed.ensures s p Q \<Longrightarrow> calm.ensures s p Q"
  using quiet.keepsD [of p s] by (auto simp: typed.ensures_def calm.ensures_def vcA_def calm_le_def split: prod.splits sum.splits)

lemma applied_quiet: "quiet s s' \<Longrightarrow> applied F K s' = applied F K s"
  unfolding quiet_def by (elim conjE) (rule ext, simp only: applied_def)

lemma calm_completed: "runtime_ok s \<Longrightarrow> Q (p, t) \<Longrightarrow> calm.ensures s (completed_expression w e p t) (\<lambda>x _. Q x)"
proof (rule calm_ensures)
  assume s: "runtime_ok s" and Q: "Q (p, t)"
  show "typed.ensures s (completed_expression w e p t) (\<lambda>x _. Q x)" unfolding completed_expression_def
    by (intro typed.ensures_read [OF s] ensures_branch typed.ensures_then [OF typed.ensures_keeps [OF typed.keeps_when [OF typed_rain] s]] typed.ensures_ret Q)
qed (rule quiet_simple)

lemma calm_check_that: "runtime_ok s \<Longrightarrow> (b \<Longrightarrow> calm.ensures s q Q) \<Longrightarrow> calm.ensures s (thenA (check_that b span message) q) Q"
  unfolding check_that_def by (rule calm.ensures_guard)

lemma calm_reject: "runtime_ok s \<Longrightarrow> calm.ensures s (reject span message) Q"
  unfolding reject_def by (rule calm.ensures_throw)

lemma calm_type_at: "runtime_ok s \<Longrightarrow> calm.ensures s (f (ru_heap s ! p)) Q \<Longrightarrow> calm.ensures s (bindA (type_at p) f) Q"
  unfolding type_at_def by (rule calm.ensures_read)

lemmas calm_branch = calm.ensures_if calm.ensures_option calm.ensures_prod calm.ensures_let

lemmas calm_intro = calm_branch calm_check_that calm_type_at calm_reject calm.ensures_read calm.ensures_ret calm.ensures_throw calm_completed

text \<open>A value that an elaborated expression has.\<close>

abbreviation evaluates :: "(zexpr \<Rightarrow> val) \<Rightarrow> runtime \<Rightarrow> zdecl set \<Rightarrow> typed_expression run \<Rightarrow> val \<Rightarrow> bool" where
  "evaluates v s C p x \<equiv> calm.ensures s p (\<lambda>e s'. typed_term s' C e \<and> v (snd e) = x)"

lemma evaluatesI:
  assumes "quiet.keeps p" "elaborates s C p" "calm.ensures s p (\<lambda>e _. v (snd e) = x)"
  shows "evaluates v s C p x"
  using calm_ensures [OF assms(1,2)] assms(3) unfolding calm.ensures_def vcA_def by (auto split: prod.splits sum.splits)

lemma enum_value_eval:
  assumes s: "runtime_ok s" and c: "map_of (ru_cases s) n = Some c" and v: "enum_value s c = (info, t)"
  shows "eval D F K [] t = VCon (con_name n) []"
proof (rule caseD [OF s c])
  fix i assume "enum_value s c = (i, ei_values i ! snd c)" "enum_ok (ru_heap s) (fst c) i" "snd c < length (ei_case_names i)"
    "ei_case_names i ! snd c = n"
  then show ?thesis using v by (auto simp: enum_ok_def apply_decl_def)
qed

lemma constructor_apply:
  assumes s: "runtime_ok s" and c: "map_of (ru_constructors s) n = Some c" and i: "datatype_case s c = (info, item)"
  shows "apply_decl F K (dc_constructor item) vs = VCon (con_name n) vs"
  by (rule constructorD [OF s c]) (use i in \<open>auto simp: item_ok_def apply_decl_def\<close>)

lemma elaborate_name_meaning:
  assumes s: "runtime_ok s"
  shows "calm.ensures s (elaborate_name w env e) (\<lambda>x _. eval D F K [] (snd x) =
    (case env_values (eval D F K []) env (ex_name e) of Some v \<Rightarrow> v | None \<Rightarrow> VCon (con_name (ex_name e)) []))"
  unfolding elaborate_name_def using enum_value_eval [OF s] constructor_apply [OF s, where vs = "[]"]
  by (intro calm_intro s) (auto simp: env_values_def)

lemma elaborate_tuple_meaning:
  assumes s: "runtime_ok s" and a: "typed_term s C a" and b: "typed_term s C b"
  shows "calm.ensures s (elaborate_tuple w e a b) (\<lambda>x _. eval D F K [] (snd x) = VCon ''Fine.Pair'' [eval D F K [] (snd a), eval D F K [] (snd b)])"
  unfolding elaborate_tuple_def
proof (rule calm.ensures_bind [OF calm_ensures [OF quiet_compound(1) tuple_type_vc [OF s]]], goal_cases)
  case (3 p s')
  then have p: "p < length (ru_heap s')" "rt_kind (ru_heap s' ! p) = rk_tuple" by (simp_all add: compound_type_def)
  obtain a' b' z where "rt_tuple_constructor (ru_heap s' ! p) = Some (ZDecl z Constructor [sort_at (ru_heap s') a', sort_at (ru_heap s') b'] (SDatatype z))" "pair_name z"
    by (rule tuple_typeD [OF 3(1) p]) (rule that)
  then show ?case by (intro calm_intro 3(1)) (auto simp: apply_decl_def con_name_def)
qed (use a b in \<open>simp_all add: typed_term_def\<close>)

lemma elaborate_binary_meaning:
  assumes s: "runtime_ok s"
  shows "calm.ensures s (elaborate_binary w e a b) (\<lambda>x _. eval D F K [] (snd x) =
    binary_value (ex_binary_op e) (eval D F K [] (snd a)) (eval D F K [] (snd b)))"
proof -
  obtain lt l rt r where ab: "a = (lt, l)" "b = (rt, r)" by (cases a, cases b) auto
  show ?thesis unfolding ab elaborate_binary_def prod.case
    by (cases "ex_binary_op e") (simp_all, (intro calm_intro s; simp add: binary_value_def)+)
qed

lemma elaborate_conditional_meaning:
  assumes s: "runtime_ok s"
  shows "calm.ensures s (elaborate_conditional w e span c a b) (\<lambda>x _. eval D F K [] (snd x) =
    (if eval D F K [] (snd c) = VBool True then eval D F K [] (snd a) else eval D F K [] (snd b)))"
  unfolding elaborate_conditional_def by (intro calm_intro s) simp_all

lemma callee_apply:
  assumes s: "runtime_ok s" and f: "find_callee s n = Some g"
  shows "apply_decl F K (ca_declaration g) vs = (case applied F K s n of Some h \<Rightarrow> h vs | None \<Rightarrow> VCon (con_name n) vs)"
  using f constructor_apply [OF s] by (auto simp: find_callee_def applied_def split: option.splits prod.splits)

lemma call_meaning:
  assumes s: "runtime_ok s" and f: "find_callee s n = Some g" and len: "length es = length (ca_types g)"
    and es: "\<And>a s'. a \<in> set es \<Longrightarrow> runtime_ok s' \<Longrightarrow> calm_le s s' \<Longrightarrow> evaluates v s' C (h a) (x a)"
    and v: "\<And>d ts. v (ZApp d ts) = apply_decl F K d (map v ts)"
  shows "calm.ensures s (bindA (mapA (\<lambda>(a, j). bindA (h a) (\<lambda>argument.
      thenA (check_that (fst argument = ca_types g ! j) (ex_span a) (ca_mismatch g j)) (retA (snd argument)))) (zip es [0..<length es]))
    (\<lambda>arguments. completed_expression w e (ca_result g) (ZApp (ca_declaration g) arguments)))
    (\<lambda>y _. v (snd y) = (case applied F K s n of Some f \<Rightarrow> f (map x es) | None \<Rightarrow> VCon (con_name n) (map x es)))"
proof (rule calm.ensures_bind [OF calm.ensures_map [where P = "\<lambda>y t _. v t = x (fst y)"]])
  fix y s' assume y: "y \<in> set (zip es [0..<length es])" and s': "runtime_ok s'" "calm_le s s'"
  have "fst y \<in> set es" by (rule set_zip_leftD [of _ "snd y" _ "[0..<length es]"]) (simp add: y)
  from es [OF this s']
  show "calm.ensures s' (case y of (a, j) \<Rightarrow> bindA (h a) (\<lambda>argument.
      thenA (check_that (fst argument = ca_types g ! j) (ex_span a) (ca_mismatch g j)) (retA (snd argument))))
     (\<lambda>t s''. v t = x (fst y))"
    unfolding case_prod_beta by (rule calm.ensures_bind) (intro calm_intro, auto)
next
  fix ts s' assume s': "runtime_ok s'" and ts: "list_all2 (\<lambda>y t. v t = x (fst y)) (zip es [0..<length es]) ts"
  have "map v ts = map x es" using ts by (auto simp: list_all2_conv_all_nth intro!: nth_equalityI)
  with s' show "calm.ensures s' (completed_expression w e (ca_result g) (ZApp (ca_declaration g) ts))
      (\<lambda>y _. v (snd y) = (case applied F K s n of Some f \<Rightarrow> f (map x es) | None \<Rightarrow> VCon (con_name n) (map x es)))"
    by (intro calm_completed) (simp_all add: v callee_apply [OF s f])
qed (auto intro: s)

lemma elaborate_expression_meaning:
  assumes "runtime_ok s" "typed_environment s C env"
  shows "evaluates (eval D F K []) s C (elaborate_expression w env e) (den (applied F K s) (env_values (eval D F K []) env) e)"
  using assms
proof (induction e arbitrary: s)
  case (Expr k sp nm b it bop es i)
  note s = \<open>runtime_ok s\<close> and env = \<open>typed_environment s C env\<close>
  let ?v = "eval D F K []" and ?r = "env_values (eval D F K []) env" and ?e = "Expr k sp nm b it bop es i"
  let ?den = "den (applied F K s) ?r"
  have IH: "evaluates ?v s' C (elaborate_expression w env a) (?den a)" if "a \<in> set es" "runtime_ok s'" "calm_le s s'" for a s'
    using Expr.IH [OF that(1,2)] typed_environment_le [OF env calm_leD(1) [OF that(3)]] applied_quiet [OF calm_leD(2) [OF that(3)], of F K] by simp
  have two: "calm.ensures s (bindA (elaborate_expression w env a) (\<lambda>x. bindA (elaborate_expression w env c) (\<lambda>y. h x y))) (\<lambda>z _. Q z)"
    if "a \<in> set es" "c \<in> set es" "\<And>s' x y. runtime_ok s' \<Longrightarrow> calm_le s s' \<Longrightarrow> typed_term s' C x \<Longrightarrow> typed_term s' C y \<Longrightarrow>
      ?v (snd x) = ?den a \<Longrightarrow> ?v (snd y) = ?den c \<Longrightarrow> calm.ensures s' (h x y) (\<lambda>z _. Q z)" for a c h Q
    by (rule calm.ensures_bind [OF IH [OF that(1) s]], rule calm.le_refl, rule calm.ensures_bind [OF IH [OF that(2)]], assumption, assumption)
      (auto intro!: that(3) intro: calm.le_trans typed_term_le calm_leD)
  show ?case
  proof (rule evaluatesI [OF quiet_elaborate_expression elaborate_expression_vc [OF s env]], cases k)
    case ek_name
    then show "calm.ensures s (elaborate_expression w env ?e) (\<lambda>x _. ?v (snd x) = ?den ?e)"
      using elaborate_name_meaning [OF s, of w env ?e D F K] by (simp add: elaborate_expression.simps cong: option.case_cong)
  next
    case ek_tuple
    have "calm.ensures s (bindA (elaborate_expression w env a) (\<lambda>x. bindA (elaborate_expression w env c) (\<lambda>y. elaborate_tuple w ?e x y)))
        (\<lambda>x _. ?v (snd x) = ?den ?e)" if "es = [a, c]" for a c
      using that ek_tuple by (intro two) (auto intro!: calm.ensures_mono [OF elaborate_tuple_meaning [where D = D and F = F and K = K]])
    with ek_tuple s show "calm.ensures s (elaborate_expression w env ?e) (\<lambda>x _. ?v (snd x) = ?den ?e)"
      by (auto simp: elaborate_expression.simps split: list.splits intro!: calm_reject)
  next
    case ek_call
    then show "calm.ensures s (elaborate_expression w env ?e) (\<lambda>x _. ?v (snd x) = ?den ?e)"
      by (simp add: elaborate_expression.simps Let_def)
        (intro calm_branch calm_intro s, rule call_meaning [OF s _ _ IH], simp_all)
  next
    case ek_binary
    have "calm.ensures s (bindA (elaborate_expression w env a) (\<lambda>x. bindA (elaborate_expression w env c) (\<lambda>y. elaborate_binary w ?e x y)))
        (\<lambda>x _. ?v (snd x) = ?den ?e)" if "es = [a, c]" for a c
      using that ek_binary by (intro two) (auto intro!: calm.ensures_mono [OF elaborate_binary_meaning [where D = D and F = F and K = K]])
    with ek_binary s show "calm.ensures s (elaborate_expression w env ?e) (\<lambda>x _. ?v (snd x) = ?den ?e)"
      by (auto simp: elaborate_expression.simps split: list.splits intro!: calm.ensures_throw)
  next
    case ek_conditional
    have "calm.ensures s (bindA (elaborate_expression w env a) (\<lambda>x. bindA (elaborate_expression w env c) (\<lambda>y. bindA (elaborate_expression w env d) (\<lambda>z.
        elaborate_conditional w ?e (ex_span a) x y z)))) (\<lambda>x _. ?v (snd x) = ?den ?e)" if "es = [a, c, d]" for a c d
      using that ek_conditional
      by (intro two calm.ensures_bind [OF IH] calm.ensures_mono [OF elaborate_conditional_meaning [where D = D and F = F and K = K]]) auto
    with ek_conditional s show "calm.ensures s (elaborate_expression w env ?e) (\<lambda>x _. ?v (snd x) = ?den ?e)"
      by (auto simp: elaborate_expression.simps split: list.splits intro!: calm.ensures_throw)
  qed (use s in \<open>auto simp: elaborate_expression.simps intro!: calm_completed calm_reject\<close>)
qed

end
