(* ===== verification/Fine_Induction_Sound.thy ===== *)
theory Fine_Induction_Sound
  imports Fine_Meaning
begin

text \<open>
  Constructor induction, as the runtime sets it up for a check, is sound: if the steps for all constructors hold,
  with the hypotheses generalized over the other parameters, the theorem holds for all values of the
  parameters.
\<close>

section \<open>Values of a datatype\<close>

definition native_sorts_inhabited :: "(zsort \<Rightarrow> val set) \<Rightarrow> bound_parameter list \<Rightarrow> bool" where
  "native_sorts_inhabited D bound \<longleftrightarrow> (\<forall>p\<in>set bound. D (sort_of (bp_term p)) \<noteq> {})"

lemma pair_not_plain: "pair_name n \<Longrightarrow> \<not> plain_name n"
proof
  assume "pair_name n" "plain_name n"
  then have "CHR ''.'' \<in> set (take 10 n)" "list_all is_name_continue n" by (simp_all add: pair_name_def plain_name_def)
  then have "is_name_continue (CHR ''.'')" by (auto simp: list_all_iff dest: in_set_takeD)
  then show False by (simp add: is_name_continue_def is_name_start_def is_digit_def)
qed

lemma datatype_values:
  assumes s: "runtime_ok s" and n: "map_of (ru_datatypes s) n = Some info" and v: "v \<in> values_of s (SDatatype n)"
  obtains item fs where "item \<in> set (di_cases info)" "v = VCon (con_name (dc_name item)) fs"
    "list_all2 (\<lambda>k f. f \<in> values_of s k) (zd_domain (dc_constructor item)) fs"
proof -
  have d: "datatype_ok (ru_heap s) n info" using runtime_okD(2) [OF s] n by (simp add: tables_ok_def)
  let ?p = "di_type info"
  have p: "?p < length (ru_heap s)" "rt_kind (ru_heap s ! ?p) = rk_datatype" "rt_display (ru_heap s ! ?p) = n"
    using d by (simp_all add: datatype_ok_def)
  have plain: "plain_name n" using internedD(1) [OF s p(1)] p by (simp add: named_kind_def)
  from v obtain c ks fs where c: "v = VCon (con_name c) fs" "(c, ks) \<in> signature_of s n" "list_all2 (has_sort (signature_of s)) ks fs"
    by (auto simp: values_of_def elim: has_conE)
  have enum: False if "map_of (ru_enums s) n = Some i" for i
  proof -
    have "enum_ok (ru_heap s) n i" using runtime_okD(2) [OF s] that by (simp add: tables_ok_def)
    then have "ei_type i < length (ru_heap s)" "rt_display (ru_heap s ! ei_type i) = n" "rt_kind (ru_heap s ! ei_type i) = rk_enumeration"
      by (simp_all add: enum_ok_def)
    with display_inject [OF s, of "ei_type i" ?p] p show False by auto
  qed
  have pair: False if "compound_type (ru_heap s) rk_tuple a b q" "sort_at (ru_heap s) q = SDatatype n" for a b q
  proof -
    have q: "q < length (ru_heap s)" "rt_kind (ru_heap s ! q) = rk_tuple" using that(1) by (simp_all add: compound_type_def)
    show False by (rule tuple_typeD [OF s q]) (use that(2) plain pair_not_plain in auto)
  qed
  from c(2) n obtain item where "item \<in> set (di_cases info)" "c = dc_name item" "ks = zd_domain (dc_constructor item)"
    unfolding signature_of_def by (auto dest: enum pair)
  with c show thesis by (intro that [of item fs]) (auto simp: values_of_def)
qed

section \<open>Names of constants\<close>

lemma case_fields_const: "list_all is_const (case_fields heap d item)"
  by (auto simp: list_all_iff case_fields_def is_const_def)

lemma case_fields_nth:
  "j < length (dc_field_types item) \<Longrightarrow> case_fields heap d item ! j =
     mk_const (''Fine.check.'' @ cd_name d @ ''.case.'' @ dc_name item @ ''.field'' @ nat_to_string j) (sort_at heap (dc_field_types item ! j))"
  by (simp add: case_fields_def sort_at_def)

lemma case_fields_length [simp]: "length (case_fields heap d item) = length (dc_field_types item)"
  by (simp add: case_fields_def)

lemma case_fields_distinct: "distinct (case_fields heap d item)"
  by (auto simp: distinct_conv_nth case_fields_nth mk_const_def)

lemma assigned_field:
  assumes "j < length (dc_field_types item)" "length fs = length (dc_field_types item)"
  shows "eval D F (assigned (case_fields heap d item) fs K) env (case_fields heap d item ! j) = fs ! j"
proof -
  have "ZApp (ZDecl (''Fine.check.'' @ cd_name d @ ''.case.'' @ dc_name item @ ''.field'' @ nat_to_string j) Uninterpreted []
      (sort_at heap (dc_field_types item ! j))) [] = case_fields heap d item ! j"
    unfolding case_fields_nth [OF assms(1)] mk_const_def ..
  then show ?thesis using position_of_nth [OF case_fields_distinct, of j heap d item] assms
    by (simp add: case_fields_nth [OF assms(1)] assigned_def del: append.simps)
qed

lemma generalized_terms:
  "set (map fst (generalized heap d item j bound induction)) \<subseteq> bp_term ` set bound"
  "list_all is_const (map snd (generalized heap d item j bound induction))"
  by (auto simp: generalized_def list_all_iff is_const_def)

text \<open>The constants of the parameters, of the fields and of the hypotheses are different.\<close>

lemma argument_not_field:
  "mk_const (argument_name ''Fine.check.'' (cd_name d) i) k \<notin> set (case_fields heap d item)"
  by (auto simp: case_fields_def argument_name_def mk_const_def)

lemma field_not_generalized:
  "j < length (dc_field_types item) \<Longrightarrow> case_fields heap d item ! j \<notin> set (map snd (generalized heap d item i bound induction))"
  by (auto simp: case_fields_nth generalized_def mk_const_def)

section \<open>Hypotheses and steps\<close>

lemma assigned_Nil [simp]: "assigned [] vs K = K"
  by (rule ext) (simp add: assigned_def)

definition branch_holds ::
  "(zsort \<Rightarrow> val set) \<Rightarrow> meanings \<Rightarrow> runtime_type list \<Rightarrow> check_decl \<Rightarrow> zexpr \<Rightarrow> bound_parameter list \<Rightarrow> nat \<Rightarrow> valuation \<Rightarrow> datatype_case_info \<Rightarrow> bool" where
  "branch_holds D F heap d thm bound induction K item \<longleftrightarrow>
     eval D F K [] (bp_term (bound ! induction)) = eval D F K [] (ZApp (dc_constructor item) (case_fields heap d item)) \<longrightarrow>
     (\<forall>j<length (dc_field_types item). dc_field_types item ! j = bp_type (bound ! induction) \<longrightarrow>
        eval D F K [] (induction_hypothesis heap d thm item j bound induction) = VBool True) \<longrightarrow>
     eval D F K [] thm = VBool True"

lemma subst_pairs_in: "subst_pairs from to t = Some b \<Longrightarrow> b \<in> set to"
  by (induction "from" to t rule: subst_pairs.induct) (auto split: if_splits)

lemma substitute_quantifier_free:
  "quantifier_free t \<Longrightarrow> (\<And>b. b \<in> set to \<Longrightarrow> quantifier_free b) \<Longrightarrow> quantifier_free (z_substitute from to t)"
  by (induction t) (auto simp: list_all_iff split: option.splits dest: subst_pairs_in)

lemma const_quantifier_free: "is_const t \<Longrightarrow> quantifier_free t"
  by (auto simp: is_const_def mk_const_def)

lemma const_value:
  assumes "constants_ok D K" "is_const t" "D (sort_of t) \<noteq> {}"
  shows "eval D F K env t \<in> D (sort_of t)"
proof -
  obtain n k where t: "t = mk_const n k" using assms(2) by (auto simp: is_const_def)
  have "D (zd_range (ZDecl n Uninterpreted [] k)) \<noteq> {}" using assms(3) by (simp add: t mk_const_def)
  with assms(1) have "K (ZDecl n Uninterpreted [] k) \<in> D (zd_range (ZDecl n Uninterpreted [] k))" unfolding constants_ok_def by blast
  then show ?thesis by (simp add: t) (simp add: mk_const_def)
qed

lemma params_sort:
  "params_ok A nm s bound \<Longrightarrow> i < length bound \<Longrightarrow> is_const (bp_term (bound ! i)) \<and> sort_of (bp_term (bound ! i)) = sort_at (ru_heap s) (bp_type (bound ! i))"
  using params_okD(3) [of A nm s bound i] by (auto simp: is_const_def) (simp add: mk_const_def)

lemma hypothesis_holds:
  assumes bound: "params_ok A nm s bound" "induction < length bound" and inhabited: "native_sorts_inhabited D bound"
    and K: "constants_ok D K" and qf: "quantifier_free thm" and j: "j < length (dc_field_types item)"
    and v: "eval D F K [] (case_fields (ru_heap s) d item ! j) = v" "v \<in> D (sort_of (bp_term (bound ! induction)))"
    and all: "\<And>L. constants_ok D L \<Longrightarrow> eval D F L [] (bp_term (bound ! induction)) = v \<Longrightarrow> eval D F L [] thm = VBool True"
  shows "eval D F K [] (induction_hypothesis (ru_heap s) d thm item j bound induction) = VBool True"
proof -
  let ?others = "generalized (ru_heap s) d item j bound induction" and ?x = "bp_term (bound ! induction)"
  let ?field = "case_fields (ru_heap s) d item ! j" and ?fresh = "map snd (generalized (ru_heap s) d item j bound induction)"
  let ?hyp = "z_substitute (?x # map fst ?others) (?field # ?fresh) thm"
  have field: "is_const ?field" using case_fields_const j by (auto simp: list_all_length)
  have fresh: "list_all is_const ?fresh" by (rule generalized_terms)
  have others: "is_const a \<and> sort_of b = sort_of a \<and> is_const b \<and> D (sort_of a) \<noteq> {}" if "(a, b) \<in> set ?others" for a b
    using that params_sort [OF bound(1)] inhabited
    by (auto simp: generalized_def native_sorts_inhabited_def is_const_def mk_const_def sort_at_def)
  have "from": "list_all is_const (?x # map fst ?others)" using params_sort [OF bound] others by (auto simp: list_all_iff)
  have true: "eval D F (assigned ?fresh vs K) [] ?hyp = VBool True" if vs: "list_all2 (\<lambda>c v. v \<in> D (sort_of c)) ?fresh vs" for vs
  proof -
    let ?L = "assigned ?fresh vs K"
    have L: "constants_ok D ?L"
      using K vs fresh by (intro assigned_ok) (auto simp: list_all2_conv_all_nth list_all_length)
    obtain n k where f: "?field = mk_const n k" using field by (auto simp: is_const_def)
    have "position_of ?fresh ?field = None"
      using field_not_generalized [OF j, of "ru_heap s" d j bound induction] by (simp only: position_of_None not_False_eq_True)
    then have "eval D F ?L [] ?field = v" using v(1) unfolding f by (simp add: assigned_def mk_const_def apply_decl_def)
    moreover have "list_all2 (\<lambda>a b. is_const a \<and> eval D F ?L [] b \<in> D (sort_of a)) (?x # map fst ?others) (?field # ?fresh)"
      using others const_value [OF L, where env = "[]" and F = F] params_sort [OF bound] v(2) calculation
      by (auto simp: list_all2_conv_all_nth nth_Cons split: nat.splits) (metis nth_mem prod.collapse)+
    ultimately show ?thesis unfolding eval_substitute [OF "from" qf]
      by (intro all substituted_ok L) (use params_sort [OF bound] in \<open>auto simp: is_const_def substituted_def mk_const_def apply_decl_def\<close>)
  qed
  have "quantifier_free ?hyp"
    using qf field fresh by (intro substitute_quantifier_free) (auto simp: list_all_iff intro: const_quantifier_free)
  with true show ?thesis unfolding induction_hypothesis_def Let_def
    using true [of "[]"] by (auto simp: eval_closure [OF fresh])
qed

lemma field_smaller: "j < length fs \<Longrightarrow> size (fs ! j) < size (VCon c fs)"
  using size_list_estimation' [of "fs ! j" fs "size (fs ! j)" size] by simp

theorem induction_sound:
  assumes s: "runtime_ok s" and bound: "params_ok A (argument_name ''Fine.check.'' (cd_name d)) s bound" "induction < length bound"
    and n: "map_of (ru_datatypes s) n = Some info" "sort_at (ru_heap s) (bp_type (bound ! induction)) = SDatatype n"
    and inhabited: "native_sorts_inhabited (values_of s) bound" and qf: "quantifier_free thm" "uninterpreted thm \<subseteq> constants bound"
    and steps: "\<And>K item. constants_ok (values_of s) K \<Longrightarrow> item \<in> set (di_cases info) \<Longrightarrow>
      branch_holds (values_of s) F (ru_heap s) d thm bound induction K item"
  shows "constants_ok (values_of s) K \<Longrightarrow> eval (values_of s) F K [] thm = VBool True"
proof (induction "size (eval (values_of s) F K [] (bp_term (bound ! induction)))" arbitrary: K rule: less_induct)
  case less
  let ?D = "values_of s" and ?x = "bp_term (bound ! induction)" and ?h = "ru_heap s"
  have x: "is_const ?x" "sort_of ?x = SDatatype n" using params_sort [OF bound] n(2) by simp_all
  have "?D (sort_of ?x) \<noteq> {}" using inhabited bound(2) by (simp add: native_sorts_inhabited_def)
  from const_value [OF less.prems x(1) this, of F "[]"] x(2) have v: "eval ?D F K [] ?x \<in> ?D (SDatatype n)" by simp
  from s n(1) v show ?case
  proof (rule datatype_values)
    fix item fs assume item: "item \<in> set (di_cases info)" and vc: "eval ?D F K [] ?x = VCon (con_name (dc_name item)) fs"
      and fs: "list_all2 (\<lambda>k f. f \<in> ?D k) (zd_domain (dc_constructor item)) fs"
    have io: "item_ok ?h n item" using item runtime_okD(2) [OF s] n(1) by (auto simp: tables_ok_def datatype_ok_def list_all_iff)
    then have dom: "zd_domain (dc_constructor item) = map (sort_at ?h) (dc_field_types item)" and con: "dc_constructor item =
        ZDecl (dc_name item) Constructor (map (sort_at ?h) (dc_field_types item)) (SDatatype n)" by (simp_all add: item_ok_def)
    have len: "length fs = length (dc_field_types item)" using list_all2_lengthD [OF fs] dom by simp
    let ?fields = "case_fields ?h d item"
    let ?K = "assigned ?fields fs K"
    have K: "constants_ok ?D ?K"
      using less.prems fs case_fields_const [of ?h d item] dom
      by (intro assigned_ok) (auto simp: list_all2_conv_all_nth list_all_length case_fields_nth mk_const_def)
    have same: "?K c = K c" if "c \<in> constants bound" for c
    proof -
      from that obtain i where "i < length bound" "c \<in> uninterpreted (bp_term (bound ! i))" by (auto simp: constants_def in_set_conv_nth)
      with params_okD(3) [OF bound(1)] have "ZApp c [] = mk_const (argument_name ''Fine.check.'' (cd_name d) i) (sort_at ?h (bp_type (bound ! i)))"
        by (simp add: mk_const_def)
      then have "position_of ?fields (ZApp c []) = None" by (simp only: position_of_None argument_not_field not_False_eq_True)
      then show ?thesis by (simp add: assigned_def)
    qed
    have xc: "uninterpreted ?x \<subseteq> constants bound" using nth_mem [OF bound(2)] unfolding constants_def by blast
    have xv: "eval ?D F ?K [] ?x = VCon (con_name (dc_name item)) fs"
      unfolding vc [symmetric] by (rule eval_coincidence [OF const_quantifier_free [OF x(1)]]) (use xc same in blast)
    have "map (eval ?D F ?K []) ?fields = fs"
      using len by (intro nth_equalityI) (simp_all add: assigned_field)
    then have guard: "eval ?D F ?K [] ?x = eval ?D F ?K [] (ZApp (dc_constructor item) ?fields)"
      by (simp add: xv con apply_decl_def)
    have hyp: "eval ?D F ?K [] (induction_hypothesis ?h d thm item j bound induction) = VBool True"
      if j: "j < length (dc_field_types item)" "dc_field_types item ! j = bp_type (bound ! induction)" for j
    proof (rule hypothesis_holds [OF bound inhabited K qf(1) j(1), of F d "fs ! j"])
      show "eval ?D F ?K [] (?fields ! j) = fs ! j" using assigned_field [OF j(1) len] by simp
      show "fs ! j \<in> ?D (sort_of ?x)" using list_all2_nthD2 [OF fs, of j] dom j len n(2) x(2) by simp
    next
      fix L assume L: "constants_ok ?D L" "eval ?D F L [] ?x = fs ! j"
      then show "eval ?D F L [] thm = VBool True"
        using field_smaller [of j fs "con_name (dc_name item)"] j(1) len by (intro less.hyps) (simp_all add: vc)
    qed
    from steps [OF K item] guard hyp have "eval ?D F ?K [] thm = VBool True" by (simp add: branch_holds_def)
    moreover have "eval ?D F ?K [] thm = eval ?D F K [] thm"
      by (rule eval_coincidence [OF qf(1)]) (use qf(2) same in blast)
    ultimately show ?thesis by simp
  qed
qed

end
