(* ===== verification/Fine_Check_Sound.thy ===== *)
theory Fine_Check_Sound
  imports Fine_Induction_Sound
begin

text \<open>
  A check is sound: when the solver refutes the counterexample query, the ensured conditions hold for all values
  of the parameters that satisfy the assumed ones, also by constructor induction, and a reusable proof
  that is admitted is true.
\<close>

section \<open>Calm operations\<close>

lemma calm_keeps: "typed.keeps p \<Longrightarrow> quiet.keeps p \<Longrightarrow> runtime_ok s \<Longrightarrow> calm.ensures s p (\<lambda>_ _. True)"
  by (rule calm_ensures [OF _ typed.ensures_keeps])

lemma calm_all: "(\<And>i. calm.ensures s p (Q i)) \<Longrightarrow> calm.ensures s p (\<lambda>x s'. \<forall>i. Q i x s')"
  unfolding calm.ensures_def vcA_def by (auto split: prod.splits sum.splits)

lemma calm_conj: "calm.ensures s p Q \<Longrightarrow> calm.ensures s p R \<Longrightarrow> calm.ensures s p (\<lambda>x s'. Q x s' \<and> R x s')"
  unfolding calm.ensures_def vcA_def by (auto split: prod.splits sum.splits)

lemma calm_rain_event: "runtime_ok s \<Longrightarrow> calm.ensures s (rain_event w kind operation within producer coverage specs) (\<lambda>_ _. True)"
  by (rule calm_keeps [OF typed_rain_event quiet_rain_event])

section \<open>Conditions\<close>

text \<open>That an expression elaborated in an environment is true, and the same for a list of conditions.\<close>

definition holds :: "(zsort \<Rightarrow> val set) \<Rightarrow> meanings \<Rightarrow> valuation \<Rightarrow> runtime \<Rightarrow> environment \<Rightarrow> expr list \<Rightarrow> bool" where
  "holds D F K s env es \<longleftrightarrow> (\<forall>e\<in>set es. den (applied F K s) (env_values (eval D F K []) env) e = VBool True)"

lemma holds_calm: "calm_le s s' \<Longrightarrow> holds D F K s' env es = holds D F K s env es"
  by (simp add: holds_def applied_quiet [OF calm_leD(2)])

lemma conjoin_meaning:
  assumes s: "runtime_ok s" and env: "typed_environment s C env"
  shows "calm.ensures s (conjoin w env message es)
    (\<lambda>t s'. typed_term s' C (bool_type, t) \<and> (\<forall>D F K. eval D F K [] t = VBool True \<longleftrightarrow> holds D F K s env es))"
  unfolding conjoin_def
proof (rule calm.ensures_fold_step [where I = "\<lambda>ys t s'. typed_term s' C (bool_type, t) \<and> (\<forall>D F K. eval D F K [] t = VBool True \<longleftrightarrow> holds D F K s env ys)"], goal_cases)
  case (1 ys e zs t s1)
  have env1: "typed_environment s1 C env" by (rule typed_environment_le [OF env calm_leD(1) [OF 1(3)]])
  have "calm.ensures s1 (elaborate_expression w env e)
      (\<lambda>x s'. \<forall>D F K. typed_term s' C x \<and> eval D F K [] (snd x) = den (applied F K s) (env_values (eval D F K []) env) e)"
    using elaborate_expression_meaning [OF 1(2) env1] applied_quiet [OF calm_leD(2) [OF 1(3)]] by (intro calm_all) simp
  then show ?case
    by (rule calm.ensures_bind, intro calm_check_that calm.ensures_ret)
      (use 1(2,4) in \<open>auto simp: typed_bool holds_def intro!: sorted_mk intro: sorted_le [OF _ calm_leD(1)]\<close>)
qed (auto simp: s typed_bool holds_def intro: sorted_mk)

lemma check_conditions_meaning:
  assumes s: "runtime_ok s" and env: "typed_environment s C env"
  shows "calm.ensures s (check_conditions w d env)
    (\<lambda>(a, g) s'. typed_term s' C (bool_type, a) \<and> typed_term s' C (bool_type, g) \<and>
       (\<forall>D F K. (eval D F K [] a = VBool True \<longleftrightarrow> holds D F K s env (cd_assumes d)) \<and>
          (eval D F K [] g = VBool True \<longleftrightarrow> holds D F K s env (cd_ensures d))))"
  unfolding check_conditions_def
proof (rule calm.ensures_then [OF calm.ensures_modify [where Q = "\<lambda>_ _. True"]], goal_cases)
  case (4 u s0)
  have env0: "typed_environment s0 C env" by (rule typed_environment_le [OF env calm_leD(1) [OF 4(2)]])
  show ?case
  proof (rule calm.ensures_bind [OF conjoin_meaning [OF 4(1) env0]], goal_cases)
    case (1 a s1)
    have env1: "typed_environment s1 C env" by (rule typed_environment_le [OF env0 calm_leD(1) [OF 1(2)]])
    show ?case
    proof (rule calm.ensures_bind [OF conjoin_meaning [OF 1(1) env1]], rule calm.ensures_then [OF calm.ensures_modify [where Q = "\<lambda>_ _. True"]], goal_cases)
      case (4 g s2 u s3)
      have a: "typed_term s3 C (bool_type, a)" and g: "typed_term s3 C (bool_type, g)"
        by (rule typed_term_le [of s1], use 1(3) in simp, rule calm_leD(1) [OF calm.le_trans [OF 4(2,5)]],
            rule typed_term_le [of s2], use 4(3) in simp, rule calm_leD(1) [OF 4(5)])
      from 1(3) 4(3) have "\<forall>D F K. (eval D F K [] a = VBool True \<longleftrightarrow> holds D F K s env (cd_assumes d)) \<and>
          (eval D F K [] g = VBool True \<longleftrightarrow> holds D F K s env (cd_ensures d))"
        using holds_calm [OF \<open>calm_le s s0\<close>] holds_calm [OF 1(2)] by simp
      with 4 a g show ?case by (intro calm.ensures_ret) auto
    qed (auto simp: calm_le_def runtime_le_refl quiet_def)
  qed
qed (auto simp: s calm_le_def runtime_le_refl quiet_def)

section \<open>The induction step\<close>

lemma case_fields_le: "item_ok (ru_heap s) n item \<Longrightarrow> runtime_le s s' \<Longrightarrow> case_fields (ru_heap s') d item = case_fields (ru_heap s) d item"
  by (auto simp: case_fields_def item_ok_def list_all_iff native_def heap_le dest!: set_zip_leftD)

lemma generalized_le: "params_ok A nm s bound \<Longrightarrow> runtime_le s s' \<Longrightarrow> generalized (ru_heap s') d item j bound i = generalized (ru_heap s) d item j bound i"
  by (auto simp: generalized_def params_ok_def heap_le)

lemma branch_holds_le:
  assumes "item_ok (ru_heap s) n item" "params_ok A nm s bound" "runtime_le s s'"
  shows "induction_hypothesis (ru_heap s') d thm item j bound i = induction_hypothesis (ru_heap s) d thm item j bound i"
    "branch_holds D F (ru_heap s') d thm bound i K item = branch_holds D F (ru_heap s) d thm bound i K item"
  by (simp_all add: branch_holds_def induction_hypothesis_def case_fields_le [OF assms(1,3)] generalized_le [OF assms(2,3)])

lemma induction_branch_meaning:
  assumes s: "runtime_ok s" and item: "item_ok (ru_heap s) n item" and bound: "params_ok A nm s bound"
  shows "calm.ensures s (induction_branch w d thm bound i x item)
    (\<lambda>y s'. \<forall>D F K. eval D F K [] (fst (snd y)) = VBool True \<longleftrightarrow>
       eval D F K [] (fst (snd x)) = VBool True \<and> branch_holds D F (ru_heap s) d thm bound i K item)"
proof -
  obtain hs bs m where x: "x = (hs, bs, m)" by (cases x)
  let ?h = "ru_heap s" and ?self = "bp_type (bound ! i)"
  have recorded: "calm.ensures s' (record_hypothesis w d item j t u k) (\<lambda>_ _. True)" "calm.ensures s' (record_branch w d item g t u) (\<lambda>_ _. True)"
    if "runtime_ok s'" for s' j t u k g
    unfolding record_hypothesis_def record_branch_def by (intro calm_rain_event that)+
  have loop: "calm.ensures s (foldA (\<lambda>(branch_hypotheses, all_hypotheses, positions) j.
       if dc_field_types item ! j \<noteq> ?self then retA (branch_hypotheses, all_hypotheses, positions)
       else let hypothesis = induction_hypothesis ?h d thm item j bound i in
            thenA (record_hypothesis w d item j (case_fields ?h d item ! j) hypothesis (length bound))
            (retA (mk_and branch_hypotheses hypothesis, mk_and all_hypotheses hypothesis, Suc positions)))
       (bool_val True, hs, m) [0..<length (dc_field_types item)])
     (\<lambda>y _. \<forall>D F K. eval D F K [] (fst y) = VBool True \<longleftrightarrow> (\<forall>j\<in>set [0..<length (dc_field_types item)]. dc_field_types item ! j = ?self \<longrightarrow>
        eval D F K [] (induction_hypothesis ?h d thm item j bound i) = VBool True))"
  proof (rule calm.ensures_fold_step [where I = "\<lambda>js y _. \<forall>D F K. eval D F K [] (fst y) = VBool True \<longleftrightarrow>
        (\<forall>j\<in>set js. dc_field_types item ! j = ?self \<longrightarrow> eval D F K [] (induction_hypothesis ?h d thm item j bound i) = VBool True)"], goal_cases)
    case (1 js j zs y s')
    obtain a b c where y: "y = (a, b, c)" by (cases y)
    show ?case unfolding y prod.case
      by (intro calm_branch calm.ensures_ret calm.ensures_then [OF recorded(1)] 1(2)) (use 1(4) in \<open>auto simp: y\<close>)
  qed (auto simp: s)
  show ?thesis unfolding induction_branch_def x prod.case
    by (intro calm.ensures_read [OF s] calm_branch, hypsubst, rule calm.ensures_bind [OF loop], intro calm_branch,
        rule calm.ensures_then [OF recorded(2)], assumption, rule calm.ensures_ret)
      (auto simp: branch_holds_def)
qed

text \<open>What the step of a check says: without induction the theorem, with induction that every branch holds.\<close>

definition step_means :: "runtime \<Rightarrow> check_decl \<Rightarrow> zexpr \<Rightarrow> bound_parameter list \<Rightarrow> zexpr \<Rightarrow> bool" where
  "step_means s d thm bound step \<longleftrightarrow>
     (if inducting d
      then \<exists>i n info. i < length bound \<and> map_of (ru_datatypes s) n = Some info \<and> sort_at (ru_heap s) (bp_type (bound ! i)) = SDatatype n \<and>
        (\<forall>D F K. eval D F K [] step = VBool True \<longleftrightarrow> (\<forall>item\<in>set (di_cases info). branch_holds D F (ru_heap s) d thm bound i K item))
      else step = thm)"

lemma record_translation_calm: "runtime_ok s \<Longrightarrow> calm.ensures s (record_translation w d p n m k thm h t) (\<lambda>_ _. True)"
  unfolding record_translation_def by (rule calm_keeps) (intro typed_rules quiet_rules)+

lemma induction_step_meaning:
  assumes s: "runtime_ok s" and bound: "params_ok A nm s bound"
  shows "calm.ensures s (induction_step w d thm bound) (\<lambda>(h, step) _. step_means s d thm bound step)"
proof (cases "cd_induction_parameter d")
  case None
  then show ?thesis by (simp add: induction_step_def step_means_def inducting_def calm.ensures_ret s)
next
  case (Some p)
  show ?thesis unfolding induction_step_def Some option.case
  proof (intro calm_branch calm_reject calm_type_at calm_check_that calm.ensures_read s, goal_cases)
    case (1 i)
    then have i: "i < length bound" by (auto dest: position_of_Some)
    let ?t = "ru_heap s ! bp_type (bound ! i)" and ?cs = "di_cases (datatype_of s (ru_heap s ! bp_type (bound ! i)))"
    let ?n = "rt_display ?t"
    note q = params_okD(1) [OF bound i]
    have n: "map_of (ru_datatypes s) ?n = Some (datatype_of s ?t)" "sort_at (ru_heap s) (bp_type (bound ! i)) = SDatatype ?n"
      "datatype_ok (ru_heap s) ?n (datatype_of s ?t)"
      using datatype_of_type [OF s q 1(2)] type_okD [OF s q] runtime_okD(6) [OF s] q 1(2)
      by (auto simp: datatype_of_def type_ok_def informed_def)
    have item: "item_ok (ru_heap s) ?n c" if "c \<in> set ?cs" for c using n(3) that by (simp add: datatype_ok_def list_all_iff)
    have loop: "calm.ensures s (foldA (induction_branch w d thm bound i) (bool_val True, bool_val True, 0) ?cs)
        (\<lambda>y _. \<forall>D F K. eval D F K [] (fst (snd y)) = VBool True \<longleftrightarrow> (\<forall>c\<in>set ?cs. branch_holds D F (ru_heap s) d thm bound i K c))"
    proof (rule calm.ensures_fold_step [where I = "\<lambda>cs y _. \<forall>D F K. eval D F K [] (fst (snd y)) = VBool True \<longleftrightarrow>
          (\<forall>c\<in>set cs. branch_holds D F (ru_heap s) d thm bound i K c)"], goal_cases)
      case (1 ys c zs y s')
      note le = calm_leD(1) [OF 1(3)]
      have c: "item_ok (ru_heap s) ?n c" using 1(1) by (intro item) simp
      have "item_ok (ru_heap s') ?n c" using c le by (auto simp: runtime_le_def item_ok_append)
      note branch = induction_branch_meaning [OF 1(2) this params_ok_le [OF bound le], of w d "thm" i y]
      show ?case by (rule calm.ensures_mono [OF branch]) (use 1(4) in \<open>simp add: branch_holds_le(2) [OF c bound le] conj_commute\<close>)
    qed (simp_all add: s)
    show ?case
      by (rule calm.ensures_bind [OF loop], intro calm_branch, hypsubst, rule calm_check_that, assumption,
          rule calm.ensures_then [OF record_translation_calm], assumption, rule calm.ensures_ret, assumption)
        (use i n(1,2) Some in \<open>auto simp: step_means_def inducting_def\<close>)
  qed
qed

section \<open>The query\<close>

text \<open>The solver is sound for an interpretation when it calls no satisfiable assertions unsatisfiable.\<close>

definition solver_sound :: "z3_world \<Rightarrow> (zsort \<Rightarrow> val set) \<Rightarrow> meanings \<Rightarrow> bool" where
  "solver_sound w D F \<longleftrightarrow> (\<forall>n params assertions assumptions core.
     snd (w_check w n params assertions assumptions) = Unsat core \<longrightarrow>
     \<not> (\<exists>K. constants_ok D K \<and> (\<forall>t\<in>set (assertions @ assumptions). eval D F K [] t = VBool True)))"

lemma use_proofs_calm: "runtime_ok s \<Longrightarrow> calm.ensures s (use_proofs w d) (\<lambda>ts _. ts = map snd (ru_admitted_proofs s))"
  unfolding use_proofs_def
  by (rule calm.ensures_read, assumption, rule calm.ensures_mono [OF calm.ensures_map [where P = "\<lambda>p t _. t = snd p"]])
    (auto simp: list_all2_conv_all_nth intro!: nth_equalityI calm_branch calm.ensures_then [OF calm_rain_event] calm.ensures_ret)

lemma solver_check_calm:
  assumes s: "runtime_ok s"
  shows "calm.ensures s (solver_check w params obs assertions assumptions) (\<lambda>r _. \<exists>n. snd (w_check w n params assertions assumptions) = r)"
proof (rule calm_ensures [OF quiet_solver_check])
  have k: "typed.ensures s' (thenA (case obs of None \<Rightarrow> retA () | Some ob \<Rightarrow> rain () (forA cs (run_callback w ob))) (retA r)) (\<lambda>x _. x = r)"
    if "runtime_ok s'" for s' cs r
    by (rule typed.ensures_then [OF typed.ensures_keeps [OF _ that]]) (auto split: option.split intro!: typed.keeps_ret typed_rain typed.ensures_ret)
  show "typed.ensures s (solver_check w params obs assertions assumptions) (\<lambda>r _. \<exists>n. snd (w_check w n params assertions assumptions) = r)"
    unfolding solver_check_def
    by (intro typed.ensures_read [OF s] typed.ensures_then [OF typed.ensures_modify [where Q = "\<lambda>_ _. True"]] ensures_branch typed.ensures_mono [OF k])
      (auto simp: s runtime_le_refl intro: exI [of _ "st_queries s"])
qed

lemma ask_counterexample_calm:
  assumes s: "runtime_ok s"
  shows "calm.ensures s (ask_counterexample w d query)
    (\<lambda>r _. \<exists>n. snd (w_check w n (check_params d) (map snd (ru_admitted_proofs s) @ [query]) []) = r)"
  unfolding ask_counterexample_def
  by (rule calm.ensures_bind [OF use_proofs_calm [OF s]], hypsubst, rule calm.ensures_bind [OF solver_check_calm], assumption,
      intro calm.ensures_then [OF calm_rain_event] calm.ensures_ret) simp_all

section \<open>Parameters\<close>

text \<open>A bound parameter has the name and the type that the source gives it.\<close>

definition binds :: "runtime \<Rightarrow> parameter \<Rightarrow> bound_parameter \<Rightarrow> bool" where
  "binds s p b \<longleftrightarrow> bp_name b = pa_name p \<and> (\<exists>t. tree_of (pa_type p) = Some t \<and> represents (ru_heap s) (bp_type b) t)"

lemma binds_le: "binds s p b \<Longrightarrow> runtime_le s s' \<Longrightarrow> binds s' p b"
  by (auto simp: binds_def intro: represents_le)

lemma bind_parameters_calm:
  assumes s: "runtime_ok s"
  shows "calm.ensures s (bind_parameters w prefix name A message ps)
    (\<lambda>bound s'. params_ok A (argument_name prefix name) s' bound \<and> list_all2 (binds s') ps bound)"
proof -
  have "typed.ensures s (bind_parameters w prefix name A message ps)
      (\<lambda>bound s'. list_all2 (binds s') (map fst (zip ps [0..<length ps])) bound)"
    unfolding bind_parameters_def
  proof (rule typed.ensures_fold_step [where I = "\<lambda>ys bound s'. list_all2 (binds s') (map fst ys) bound"], goal_cases)
    case (1 ys x zs bound s')
    show ?case unfolding bind_parameter_def case_prod_beta
      by (rule typed.ensures_bind [OF resolve_type_vc [OF 1(2)]], intro ensures_intro, assumption+)
        (use 1(4) in \<open>auto intro!: list_all2_appendI elim: list_all2_mono [OF _ binds_le], simp add: binds_def\<close>)
  qed (simp_all add: s)
  then have "typed.ensures s (bind_parameters w prefix name A message ps) (\<lambda>bound s'. list_all2 (binds s') ps bound)" by simp
  from calm_ensures [OF quiet_bind_parameters bind_parameters_vc [OF s]] calm_ensures [OF quiet_bind_parameters this] show ?thesis
    by (rule calm.ensures_mono [OF calm_conj]) simp
qed

section \<open>Verified and refuted checks\<close>

text \<open>A check declares nothing but admits proofs.\<close>

definition steady_le :: "runtime \<Rightarrow> runtime \<Rightarrow> bool" where
  "steady_le s s' \<longleftrightarrow> runtime_le s s' \<and> quiet s (s'\<lparr>ru_admitted_proofs := ru_admitted_proofs s\<rparr>)"

interpretation steady: action_invariant runtime_ok runtime_ok steady_le
  by unfold_locales (auto intro: runtime_le_refl runtime_le_trans simp: steady_le_def quiet_def)

lemma calm_steady_le: "calm_le s s' \<Longrightarrow> steady_le s s'"
  by (simp add: calm_le_def steady_le_def quiet_def)

lemma calm_steady: "calm.ensures s p Q \<Longrightarrow> steady.ensures s p (\<lambda>x s'. calm_le s s' \<and> Q x s')"
  unfolding calm.ensures_def steady.ensures_def vcA_def by (auto split: prod.splits sum.splits intro: calm_steady_le)

lemma print_calm: "runtime_ok s \<Longrightarrow> calm.ensures s (print t) (\<lambda>_ s'. ru_output s' = ru_output s @ t)"
  unfolding print_def by (rule calm.ensures_modify) (simp_all add: calm_le_def runtime_le_refl quiet_def)

lemma close_check_calm: "runtime_ok s \<Longrightarrow> calm.ensures s (close_check w d producer coverage status) (\<lambda>_ _. True)"
  unfolding close_check_def by (rule calm_keeps) (intro typed_rules quiet_rules)+

lemma print_induction_calm: "runtime_ok s \<Longrightarrow> calm.ensures s (print_induction d) (\<lambda>_ _. True)"
  unfolding print_induction_def by (rule calm_keeps) (intro typed_rules quiet_rules quiet_simple)+

text \<open>The last line that a run has printed.\<close>

definition verified_line :: string where
  "verified_line = ''counterexample: none'' @ [CHR 0x0A]"

definition refuted_line :: string where
  "refuted_line = ''parse(print(lift(values))): exact ast identity'' @ [CHR 0x0A]"

definition said :: "string \<Rightarrow> runtime \<Rightarrow> bool" where
  "said l s \<longleftrightarrow> (\<exists>before. ru_output s = before @ l)"

lemma said_one: "\<not> (said verified_line s \<and> said refuted_line s)"
proof -
  have "last (butlast x) \<noteq> last (butlast y)" if "x = a @ verified_line" "y = b @ refuted_line" for x y a b :: string
    using that by (simp add: verified_line_def refuted_line_def butlast_append)
  then show ?thesis unfolding said_def by metis
qed

lemma verified_check_steady:
  assumes s: "runtime_ok s"
  shows "steady.ensures s (verified_check w d bound thm)
    (\<lambda>_ s'. said verified_line s' \<and> ru_admitted_proofs s' = ru_admitted_proofs s @ (if cd_reusable d then [(cd_name d, closed_theorem d bound thm)] else []))"
proof -
  have admit: "steady.ensures s (whenA (cd_reusable d) (admit_proof w d (closed_theorem d bound thm)))
      (\<lambda>_ s'. ru_admitted_proofs s' = ru_admitted_proofs s @ (if cd_reusable d then [(cd_name d, closed_theorem d bound thm)] else []))"
    unfolding whenA_def admit_proof_def
    by (intro steady.ensures_if steady.ensures_ret s,
        rule steady.ensures_then [OF steady.ensures_modify [where Q = "\<lambda>_ s'. ru_admitted_proofs s' = ru_admitted_proofs s @ [(cd_name d, closed_theorem d bound thm)]"]])
      (auto simp: s steady_le_def runtime_le_refl quiet_def intro!: steady.ensures_mono [OF calm_steady [OF calm_rain_event]] simp: calm_le_def)
  have finish: "calm.ensures s' (thenA (close_check w d a b c) (thenA (print l) (thenA (print_induction d) (thenA (print verified_line) (retA 0))))) (\<lambda>_. said verified_line)"
    if "runtime_ok s'" for s' a b c l
    by (intro calm.ensures_then [OF close_check_calm] calm.ensures_then [OF print_calm] calm.ensures_then [OF print_induction_calm] calm.ensures_ret that)
      (auto simp: said_def)
  show ?thesis unfolding verified_check_def verified_line_def [symmetric]
    by (rule steady.ensures_then [OF admit], rule steady.ensures_mono [OF calm_steady [OF finish]]) (simp_all add: calm_le_def quiet_def)
qed

lemma check_entry_calm: "runtime_ok s \<Longrightarrow> calm.ensures s (check_entry w x) (\<lambda>_ _. True)"
proof -
  have "typed.ensures s (elaborate_expression w [] e) (\<lambda>_ _. True)" if "runtime_ok s" for s e
    by (rule typed.ensures_mono [OF elaborate_expression_vc [OF that, where C = "{}"]]) (auto simp: typed_environment_def)
  then have "typed.keeps (check_entry w x)" unfolding check_entry_def
    by (intro typed_rules) (auto intro!: typed.keeps_ensures typed.ensures_mono [OF resolve_type_vc])
  moreover have "quiet.keeps (check_entry w x)" unfolding check_entry_def
    by (intro quiet_rules quiet_simple quiet_resolve_type quiet_elaborate_expression)
  ultimately show "runtime_ok s \<Longrightarrow> calm.ensures s (check_entry w x) (\<lambda>_ _. True)" by (rule calm_keeps)
qed

lemma refuted_check_calm:
  assumes s: "runtime_ok s"
  shows "calm.ensures s (refuted_check w d bound model) (\<lambda>_. said refuted_line)"
proof -
  have rows: "calm.ensures s' (mapA (counterexample_line w d model) bound) (\<lambda>_ _. True)" if "runtime_ok s'" for s'
    unfolding counterexample_line_def using that by (rule calm_keeps [rotated 2]) (intro typed_rules quiet_rules)+
  have witness: "calm.ensures s' (check_witness w d bound values source) (\<lambda>_ _. True)" if "runtime_ok s'" for s' "values" source
  proof -
    have "calm.ensures t (forA xs (check_entry w)) (\<lambda>_ _. True)" if "runtime_ok t" for t xs
      unfolding forA_def using check_entry_calm that by (intro calm.ensures_fold) auto
    then show ?thesis unfolding check_witness_def parsed_def using that
      by (intro calm.ensures_bind [OF calm_keeps [OF typed.keeps_result quiet.keeps_result]])
        (auto split: list.split fine_declaration.split intro!: calm.ensures_throw)
  qed
  have recorded: "calm.ensures s' (record_counterexample w d source) (\<lambda>_ _. True)" if "runtime_ok s'" for s' source
    unfolding record_counterexample_def by (intro calm.ensures_then [OF calm_rain_event] close_check_calm that)
  show ?thesis unfolding refuted_check_def refuted_line_def [symmetric]
    by (rule calm.ensures_bind [OF rows [OF s]], intro calm.ensures_let calm.ensures_then [OF witness] calm.ensures_then [OF recorded]
        calm.ensures_then [OF print_calm] calm.ensures_then [OF print_induction_calm] calm.ensures_ret) (auto simp: said_def)
qed

section \<open>A check\<close>

lemma step_means_le:
  assumes s: "runtime_ok s" and bound: "params_ok A nm s bound" and le: "runtime_le s s'" and m: "step_means s d thm bound step"
  shows "step_means s' d thm bound step"
proof (cases "inducting d")
  case True
  with m obtain i n info where i: "i < length bound" "map_of (ru_datatypes s) n = Some info" "sort_at (ru_heap s) (bp_type (bound ! i)) = SDatatype n"
    and e: "\<And>D F K. eval D F K [] step = VBool True \<longleftrightarrow> (\<forall>item\<in>set (di_cases info). branch_holds D F (ru_heap s) d thm bound i K item)"
    by (auto simp: step_means_def)
  have ok: "item_ok (ru_heap s) n item" if "item \<in> set (di_cases info)" for item
    using runtime_okD(2) [OF s] i(2) that by (auto simp: tables_ok_def datatype_ok_def list_all_iff)
  have "map_of (ru_datatypes s') n = Some info" "sort_at (ru_heap s') (bp_type (bound ! i)) = SDatatype n"
    using le i(2,3) params_okD(1) [OF bound i(1)] by (auto simp: runtime_le_def sort_at_append)
  moreover have "eval D F K [] step = VBool True \<longleftrightarrow> (\<forall>item\<in>set (di_cases info). branch_holds D F (ru_heap s') d thm bound i K item)" for D F K
    unfolding e using branch_holds_le(2) [OF ok bound le] by simp
  ultimately show ?thesis unfolding step_means_def if_P [OF True] using i(1) by (intro exI [of _ i] exI [of _ n] exI [of _ info]) simp
qed (use m in \<open>simp add: step_means_def\<close>)

text \<open>What a check that returns has done: the theorem means that the assumed conditions give the ensured ones, the
  solver was asked for a counterexample to its step, and a proof was admitted only when there is none.\<close>

definition concluded :: "runtime \<Rightarrow> check_decl \<Rightarrow> bound_parameter list \<Rightarrow> zexpr \<Rightarrow> check_outcome \<Rightarrow> runtime \<Rightarrow> bool" where
  "concluded s d bound thm r s' \<longleftrightarrow>
     (case r of
        Unsat core \<Rightarrow> said verified_line s' \<and>
          ru_admitted_proofs s' = ru_admitted_proofs s @ (if cd_reusable d then [(cd_name d, closed_theorem d bound thm)] else [])
      | Sat model \<Rightarrow> said refuted_line s' \<and> ru_admitted_proofs s' = ru_admitted_proofs s
      | Unknown reason \<Rightarrow> False)"

definition checked :: "z3_world \<Rightarrow> runtime \<Rightarrow> check_decl \<Rightarrow> bound_parameter list \<Rightarrow> zexpr \<Rightarrow> runtime \<Rightarrow> bool" where
  "checked w s d bound thm s' \<longleftrightarrow>
     params_ok (\<lambda>t. rt_kind t \<noteq> rk_table) (argument_name ''Fine.check.'' (cd_name d)) s' bound \<and>
     list_all2 (binds s') (cd_parameters d) bound \<and> typed_term s' (constants bound) (bool_type, thm) \<and>
     (\<forall>D F K. eval D F K [] thm = VBool True \<longleftrightarrow>
        (holds D F K s (bound_environment bound) (cd_assumes d) \<longrightarrow> holds D F K s (bound_environment bound) (cd_ensures d))) \<and>
     (\<exists>step n r. step_means s' d thm bound step \<and>
        snd (w_check w n (check_params d) (map snd (ru_admitted_proofs s) @ [mk_not step]) []) = r \<and> concluded s d bound thm r s')"

lemma asked_steady:
  assumes s: "runtime_ok s" and bound: "params_ok (\<lambda>t. rt_kind t \<noteq> rk_table) (argument_name ''Fine.check.'' (cd_name d)) s bound"
    "list_all2 (binds s) (cd_parameters d) bound" and th: "typed_term s (constants bound) (bool_type, thm)"
    "\<forall>D F K. eval D F K [] thm = VBool True \<longleftrightarrow>
        (holds D F K s0 (bound_environment bound) (cd_assumes d) \<longrightarrow> holds D F K s0 (bound_environment bound) (cd_ensures d))"
    and step: "step_means s d thm bound step" and proofs: "ru_admitted_proofs s0 = ru_admitted_proofs s"
  shows "steady.ensures s (bindA (ask_counterexample w d (mk_not step)) (\<lambda>result.
        case result of
          Unknown reason \<Rightarrow> reject (cd_span d) (''counterexample query was unknown: '' @ reason)
        | Unsat _ \<Rightarrow> verified_check w d bound thm
        | Sat model \<Rightarrow> refuted_check w d bound model)) (\<lambda>_ s'. checked w s0 d bound thm s')"
proof (rule steady.ensures_mono, rule steady.ensures_bind [OF calm_steady [OF ask_counterexample_calm [OF s]]])
  fix r s1 assume s1: "runtime_ok s1" and r: "calm_le s s1 \<and> (\<exists>n. snd (w_check w n (check_params d) (map snd (ru_admitted_proofs s) @ [mk_not step]) []) = r)"
  have same: "ru_admitted_proofs s1 = ru_admitted_proofs s0" using r proofs by (simp add: calm_le_def quiet_def)
  have "steady.ensures s1 (case r of
          Unknown reason \<Rightarrow> reject (cd_span d) (''counterexample query was unknown: '' @ reason)
        | Unsat _ \<Rightarrow> verified_check w d bound thm
        | Sat model \<Rightarrow> refuted_check w d bound model) (\<lambda>_. concluded s0 d bound thm r)"
  proof (cases r)
    case (Sat model)
    then show ?thesis using same
      by (auto simp: concluded_def calm_le_def quiet_def intro!: steady.ensures_mono [OF calm_steady [OF refuted_check_calm [OF s1]]])
  next
    case (Unsat core)
    then show ?thesis using same by (auto simp: concluded_def intro!: steady.ensures_mono [OF verified_check_steady [OF s1]])
  qed (simp add: reject_def steady.ensures_throw s1)
  then show "steady.ensures s1 (case r of
          Unknown reason \<Rightarrow> reject (cd_span d) (''counterexample query was unknown: '' @ reason)
        | Unsat _ \<Rightarrow> verified_check w d bound thm
        | Sat model \<Rightarrow> refuted_check w d bound model) (\<lambda>_ s'. \<exists>n r. snd (w_check w n (check_params d) (map snd (ru_admitted_proofs s0) @ [mk_not step]) []) = r \<and> concluded s0 d bound thm r s')"
    using r proofs by (auto elim!: steady.ensures_mono)
next
  fix x s' assume le: "steady_le s s'" and r: "\<exists>n r. snd (w_check w n (check_params d) (map snd (ru_admitted_proofs s0) @ [mk_not step]) []) = r \<and> concluded s0 d bound thm r s'"
  have le: "runtime_le s s'" using le by (simp add: steady_le_def)
  have binds: "list_all2 (binds s') (cd_parameters d) bound" using bound(2) by (rule list_all2_mono) (rule binds_le [OF _ le])
  from r show "checked w s0 d bound thm s'" unfolding checked_def
    using params_ok_le [OF bound(1) le] step_means_le [OF s bound(1) le step] typed_term_le [OF th(1) le] th(2) binds by blast
qed

lemma theorem_steady:
  assumes s: "runtime_ok s" and bound: "params_ok (\<lambda>t. rt_kind t \<noteq> rk_table) (argument_name ''Fine.check.'' (cd_name d)) s bound"
    "list_all2 (binds s) (cd_parameters d) bound" and le: "calm_le s0 s"
  shows "steady.ensures s (bindA (check_conditions w d (bound_environment bound)) (\<lambda>(assumptions, guarantees).
       let thm = mk_implies assumptions guarantees in
       bindA (induction_step w d thm bound) (\<lambda>(hypothesis, step).
       thenA (record_query w d assumptions guarantees thm hypothesis (mk_not step))
       (bindA (ask_counterexample w d (mk_not step)) (\<lambda>result.
        case result of
          Unknown reason \<Rightarrow> reject (cd_span d) (''counterexample query was unknown: '' @ reason)
        | Unsat _ \<Rightarrow> verified_check w d bound thm
        | Sat model \<Rightarrow> refuted_check w d bound model))))) (\<lambda>_ s'. \<exists>bound thm. checked w s0 d bound thm s')"
proof (rule steady.ensures_bind [OF calm_steady [OF check_conditions_meaning [OF s bound_environment_typed [OF bound(1)]]]], clarify, goal_cases)
  case (1 a g s1)
  note c = this and le1 = calm_leD(1) [OF 1(3)] and ok = params_ok_le [OF bound(1) calm_leD(1) [OF 1(3)]]
  have th: "typed_term s1 (constants bound) (bool_type, mk_implies a g)"
    using c(1,4,5) by (auto simp: typed_bool intro: sorted_mk)
  have meaning: "\<forall>D F K. eval D F K [] (mk_implies a g) = VBool True \<longleftrightarrow>
      (holds D F K s0 (bound_environment bound) (cd_assumes d) \<longrightarrow> holds D F K s0 (bound_environment bound) (cd_ensures d))"
    using c(6) holds_calm [OF le] by simp
  show ?case
  proof (unfold Let_def, rule steady.ensures_bind [OF calm_steady [OF induction_step_meaning [OF c(1) ok]]], clarify, goal_cases)
    case (1 h step s2)
    note d = this
    have recorded: "steady.ensures s2 (record_query w d a g (mk_implies a g) h (mk_not step)) (\<lambda>_ s'. calm_le s2 s' \<and> True)"
      unfolding record_query_def by (intro calm_steady calm.ensures_then [OF calm_rain_event] calm_rain_event d(1))
    show ?case
    proof (rule steady.ensures_then [OF recorded], goal_cases)
      case (1 u s3)
      then have s3: "runtime_ok s3" "calm_le s2 s3" by simp_all
      have c3: "calm_le s1 s3" by (rule calm.le_trans [OF d(3) s3(2)])
      have c0: "calm_le s0 s3" by (rule calm.le_trans [OF calm.le_trans [OF le c(3)] c3])
      have binds: "list_all2 (binds s3) (cd_parameters d) bound" using bound(2)
        by (rule list_all2_mono) (rule binds_le, assumption, rule runtime_le_trans [OF le1 calm_leD(1) [OF c3]])
      have proofs: "ru_admitted_proofs s0 = ru_admitted_proofs s3" using c0 by (simp add: calm_le_def quiet_def)
      note l3 = calm_leD(1) [OF c3]
      from asked_steady [OF s3(1) params_ok_le [OF ok l3] binds typed_term_le [OF th l3] meaning step_means_le [OF c(1) ok l3 d(4)] proofs]
      show ?case by (rule steady.ensures_mono) blast
    qed
  qed
qed

lemma execute_plain_check_steady:
  assumes s: "runtime_ok s"
  shows "steady.ensures s (execute_plain_check w d) (\<lambda>_ s'. \<exists>bound thm. checked w s d bound thm s')"
  unfolding execute_plain_check_def
proof (rule steady.ensures_then [OF calm_steady [OF calm_keeps [OF _ _ s]]], goal_cases)
  case (3 u s1)
  show ?case
  proof (rule steady.ensures_then [OF calm_steady [OF calm_keeps [OF typed_reserve_value_name quiet_simple(8) 3(1)]]],
      rule steady.ensures_then [OF calm_steady [OF calm_keeps [OF typed_check_that quiet_simple(1)]]], assumption,
      rule steady.ensures_bind [OF calm_steady [OF bind_parameters_calm]], assumption,
      rule steady.ensures_then [OF calm_steady [OF calm_keeps]], goal_cases)
    case (4 u1 s2 u2 s3 bound s4 u3 s5)
    have le: "runtime_le s4 s5" "calm_le s s5" using 3 4 by (auto intro: calm_leD) (meson calm.le_trans)
    with 4 show ?case by (intro theorem_steady) (auto intro: params_ok_le elim: list_all2_mono [OF _ binds_le])
  qed (simp_all add: open_check_def typed_rain_event quiet_rain_event)
qed (auto split: option.split intro!: typed_rules quiet_rules quiet_simple)

section \<open>Soundness\<close>

text \<open>A verified theorem is true for all values of the constants, also when types are declared later.\<close>

lemma checked_true:
  assumes c: "checked w s d bound thm s'" and t: "runtime_ok s'" "runtime_ok t" "runtime_le s' t" and none: "ru_predicates s' = []"
    and solver: "solver_sound w (values_of t) F" and proofs: "\<forall>p\<in>set (ru_admitted_proofs s). valid (values_of t) F (snd p)"
    and verified: "said verified_line s'" and inhabited: "native_sorts_inhabited (values_of t) bound" and K: "constants_ok (values_of t) K"
  shows "eval (values_of t) F K [] thm = VBool True"
proof -
  let ?A = "\<lambda>t. rt_kind t \<noteq> rk_table" and ?nm = "argument_name ''Fine.check.'' (cd_name d)"
  from c obtain step n r where bound: "params_ok ?A ?nm s' bound" and th: "typed_term s' (constants bound) (bool_type, thm)"
    and step: "step_means s' d thm bound step" and r: "snd (w_check w n (check_params d) (map snd (ru_admitted_proofs s) @ [mk_not step]) []) = r"
    and e: "concluded s d bound thm r s'" unfolding checked_def by blast
  from e verified said_one [of s'] obtain core where "r = Unsat core" by (auto simp: concluded_def split: check_outcome.splits)
  with solver r have "\<not> (\<exists>K. constants_ok (values_of t) K \<and>
      (\<forall>a\<in>set (map snd (ru_admitted_proofs s) @ [mk_not step]). eval (values_of t) F K [] a = VBool True))"
    unfolding solver_sound_def by (metis append_Nil2)
  with proofs have true: "eval (values_of t) F K [] step = VBool True" if "constants_ok (values_of t) K" for K
    using that by (auto simp: valid_def)
  note bt = params_ok_le [OF bound t(3)] and st = step_means_le [OF t(1) bound t(3) step]
  show ?thesis
  proof (cases "inducting d")
    case True
    then obtain i m info where i: "i < length bound" "map_of (ru_datatypes t) m = Some info" "sort_at (ru_heap t) (bp_type (bound ! i)) = SDatatype m"
      and b: "\<And>K. eval (values_of t) F K [] step = VBool True \<longleftrightarrow> (\<forall>item\<in>set (di_cases info). branch_holds (values_of t) F (ru_heap t) d thm bound i K item)"
      using st by (auto simp: step_means_def)
    have "quantifier_free thm" "uninterpreted thm \<subseteq> constants bound"
      using th none by (simp_all add: typed_term_def sorted_term_def relations_def)
    from induction_sound [OF t(2) bt i inhabited this _ K] true b show ?thesis by blast
  qed (use true K st in \<open>simp add: step_means_def\<close>)
qed

lemma checked_admits:
  assumes c: "checked w s d bound thm s'" and t: "runtime_ok s'" "runtime_ok t" "runtime_le s' t" and none: "ru_predicates s' = []"
    and solver: "solver_sound w (values_of t) F" and proofs: "\<forall>p\<in>set (ru_admitted_proofs s). valid (values_of t) F (snd p)"
  shows "\<forall>p\<in>set (ru_admitted_proofs s'). valid (values_of t) F (snd p)"
proof -
  from c obtain r where e: "concluded s d bound thm r s'" and bound: "params_ok (\<lambda>t. rt_kind t \<noteq> rk_table) (argument_name ''Fine.check.'' (cd_name d)) s' bound"
    and th: "typed_term s' (constants bound) (bool_type, thm)" unfolding checked_def by blast
  have const: "list_all is_const (map bp_term bound)"
    using params_okD(3) [OF bound] by (auto simp: list_all_length is_const_def)
  have qf: "quantifier_free thm" using th by (simp add: typed_term_def sorted_term_def)
  have "valid (values_of t) F (closed_theorem d bound thm)" if "said verified_line s'"
    unfolding valid_def closed_theorem_def eval_closure [OF const qf]
  proof (intro allI impI)
    fix K vs assume K: "constants_ok (values_of t) K" and vs: "list_all2 (\<lambda>c v. v \<in> values_of t (sort_of c)) (map bp_term bound) vs"
    have "native_sorts_inhabited (values_of t) bound" using vs
      by (fastforce simp: native_sorts_inhabited_def list_all2_conv_all_nth in_set_conv_nth)
    moreover have "constants_ok (values_of t) (assigned (map bp_term bound) vs K)"
      using const vs by (intro assigned_ok K) (auto simp: list_all2_conv_all_nth list_all_length)
    ultimately show "eval (values_of t) F (assigned (map bp_term bound) vs K) [] thm = VBool True"
      by (rule checked_true [OF c t none solver proofs that])
  qed
  with e proofs show ?thesis by (auto simp: concluded_def split: check_outcome.splits if_splits)
qed

end
