(* ===== verification/Fine_Run_Sound.thy ===== *)
theory Fine_Run_Sound
  imports Fine_Check_Sound Fine_Execute
begin

text \<open>
  The soundness of checks in terms of the source, and of a whole run: the conditions of a verified check hold for the
  values of its parameters under the interpretations of the declared functions that satisfy their definitions, and all
  proofs that a run has admitted are true.
\<close>

section \<open>Interpretations\<close>

text \<open>An interpretation of a runtime: accessors project, and the functions satisfy their definitions.\<close>

definition interprets :: "runtime \<Rightarrow> meanings \<Rightarrow> bool" where
  "interprets t F \<longleftrightarrow>
     (\<forall>n info item fs j. map_of (ru_datatypes t) n = Some info \<longrightarrow> item \<in> set (di_cases info) \<longrightarrow> length fs = length (dc_accessors item) \<longrightarrow>
        j < length fs \<longrightarrow> F (dc_accessors item ! j) [VCon (con_name (dc_name item)) fs] = fs ! j) \<and>
     (\<forall>decl formals body vs K. (decl, formals, body) \<in> set (ru_recdefs t) \<longrightarrow> list_all2 (\<lambda>k v. v \<in> values_of t k) (zd_domain decl) vs \<longrightarrow>
        F decl vs = eval (values_of t) F (assigned formals vs K) [] body)"

text \<open>What is relied on of the solver: what it calls unsatisfiable is false in all interpretations of the runtime.\<close>

definition sound_solver :: "z3_world \<Rightarrow> runtime \<Rightarrow> bool" where
  "sound_solver w t \<longleftrightarrow> (\<forall>F. interprets t F \<longrightarrow> solver_sound w (values_of t) F)"

text \<open>The functions of the source, the values of a parameter and the truth of conditions of the source.\<close>

definition functions_of :: "meanings \<Rightarrow> runtime \<Rightarrow> string \<Rightarrow> (val list \<Rightarrow> val) option" where
  "functions_of F s n =
     (if map_of (ru_constructors s) n \<noteq> None then None else map_option (\<lambda>g. F (fi_declaration g)) (map_of (ru_functions s) n))"

definition parameter_value :: "runtime \<Rightarrow> parameter \<Rightarrow> val \<Rightarrow> bool" where
  "parameter_value t p v \<longleftrightarrow>
     (\<exists>u q. tree_of (pa_type p) = Some u \<and> represents (ru_heap t) q u \<and> v \<in> values_of t (sort_at (ru_heap t) q))"

definition source_true :: "meanings \<Rightarrow> runtime \<Rightarrow> parameter list \<Rightarrow> val list \<Rightarrow> expr list \<Rightarrow> bool" where
  "source_true F s ps vs es \<longleftrightarrow> (\<forall>e\<in>set es. den (functions_of F s) (map_of (zip (map pa_name ps) vs)) e = VBool True)"

lemma applied_functions:
  assumes "runtime_ok s" "ru_predicates s = []"
  shows "applied F K s = functions_of F s"
proof
  fix n
  have "apply_decl F K (fi_declaration g) = F (fi_declaration g)" if "map_of (ru_functions s) n = Some g" for g
    using runtime_okD(2) [OF assms(1)] that by (auto simp: tables_ok_def function_ok_def apply_decl_def)
  then show "applied F K s n = functions_of F s n" using assms(2) by (cases "map_of (ru_functions s) n") (auto simp: applied_def functions_of_def)
qed

lemma constants_exist: "\<exists>K. constants_ok D K"
  unfolding constants_ok_def by (rule exI [of _ "\<lambda>d. SOME v. v \<in> D (zd_range d)"]) (auto intro: someI_ex)

lemma parameter_sort:
  assumes t: "runtime_ok t" and p: "binds t p b" and b: "bp_type b < length (ru_heap t)" "bp_term b = mk_const n (sort_at (ru_heap t) (bp_type b))"
    and v: "parameter_value t p v"
  shows "v \<in> values_of t (sort_of (bp_term b))"
proof -
  from p v obtain u q where "represents (ru_heap t) (bp_type b) u" "represents (ru_heap t) q u" "v \<in> values_of t (sort_at (ru_heap t) q)"
    by (auto simp: binds_def parameter_value_def)
  with represents_eq [OF t] b(2) show ?thesis by (auto simp: mk_const_def)
qed

text \<open>The values of the bound parameters when their constants have given values.\<close>

lemma bound_values:
  assumes "distinct (map bp_term bound)" "list_all is_const (map bp_term bound)" "length vs = length bound" "map bp_name bound = map pa_name ps"
  shows "env_values (eval D F (assigned (map bp_term bound) vs K) []) (bound_environment bound) = map_of (zip (map pa_name ps) vs)"
proof -
  let ?v = "eval D F (assigned (map bp_term bound) vs K) []"
  have "?v (bp_term (bound ! i)) = vs ! i" if i: "i < length bound" for i
  proof -
    obtain n k where c: "bp_term (bound ! i) = mk_const n k" using assms(2) i by (auto simp: list_all_length is_const_def)
    have "position_of (map bp_term bound) (bp_term (bound ! i)) = Some i"
      using position_of_nth [OF assms(1), of i] i by simp
    then show ?thesis unfolding c by (simp add: assigned_def mk_const_def apply_decl_def)
  qed
  then have "map (\<lambda>p. (bp_name p, ?v (bp_term p))) bound = zip (map pa_name ps) vs"
    using assms(3,4) by (intro nth_equalityI) (auto simp flip: assms(4) dest: arg_cong [of _ _ length])
  moreover have "env_values v (bound_environment bound) = map_of (map (\<lambda>p. (bp_name p, v (bp_term p))) bound)" for v
    unfolding env_values_def bound_environment_def by (rule ext) (induction bound, auto)
  ultimately show ?thesis by simp
qed

lemma checked_source:
  assumes c: "checked w s d bound thm s'" and s: "runtime_ok s" "ru_predicates s = []" and t: "runtime_ok s'" "runtime_ok t" "runtime_le s' t"
    and none: "ru_predicates s' = []" and solver: "solver_sound w (values_of t) F"
    and proofs: "\<forall>p\<in>set (ru_admitted_proofs s). valid (values_of t) F (snd p)" and verified: "said verified_line s'"
    and vs: "list_all2 (parameter_value t) (cd_parameters d) vs" and assumed: "source_true F s (cd_parameters d) vs (cd_assumes d)"
  shows "source_true F s (cd_parameters d) vs (cd_ensures d)"
proof -
  let ?nm = "argument_name ''Fine.check.'' (cd_name d)" and ?D = "values_of t" and ?cs = "map bp_term bound"
  from c have bound: "params_ok (\<lambda>t. rt_kind t \<noteq> rk_table) ?nm s' bound" and binds: "list_all2 (binds s') (cd_parameters d) bound"
    and e: "\<And>D K. eval D F K [] thm = VBool True \<longleftrightarrow>
        (holds D F K s (bound_environment bound) (cd_assumes d) \<longrightarrow> holds D F K s (bound_environment bound) (cd_ensures d))"
    unfolding checked_def by blast+
  note bt = params_ok_le [OF bound t(3)]
  have const: "list_all is_const ?cs" using params_okD(3) [OF bt] by (auto simp: list_all_length is_const_def)
  have len: "length bound = length (cd_parameters d)" "length vs = length bound" using list_all2_lengthD [OF binds] list_all2_lengthD [OF vs] by simp_all
  have sorted: "vs ! i \<in> ?D (sort_of (bp_term (bound ! i)))" if i: "i < length bound" for i
    using i len vs binds by (intro parameter_sort [OF t(2) _ params_okD(1,3) [OF bt i]]) (auto simp: list_all2_conv_all_nth intro: binds_le [OF _ t(3)])
  obtain K where K: "constants_ok ?D K" using constants_exist by blast
  let ?K = "assigned ?cs vs K"
  have K': "constants_ok ?D ?K" using const sorted len by (intro assigned_ok K) (auto simp: list_all2_conv_all_nth list_all_length)
  have "native_sorts_inhabited ?D bound" using sorted by (fastforce simp: native_sorts_inhabited_def in_set_conv_nth)
  from checked_true [OF c t none solver proofs verified this K'] have true: "eval ?D F ?K [] thm = VBool True" .
  have names: "map bp_name bound = map pa_name (cd_parameters d)" using binds by (auto simp: list_all2_conv_all_nth binds_def intro!: nth_equalityI)
  have "holds ?D F ?K s (bound_environment bound) es = source_true F s (cd_parameters d) vs es" for es
    unfolding holds_def source_true_def applied_functions [OF s]
      bound_values [OF bound_distinct [OF bt argument_name_inj] const len(2) names] ..
  with true e assumed show ?thesis by simp
qed

section \<open>Declarations\<close>

text \<open>What declarations leave alone: all but those of predicates and proofs leave the predicates and the admitted proofs,
  all but those of functions the functions too, and all but those of types the datatypes.\<close>

definition lone :: "runtime \<Rightarrow> runtime \<Rightarrow> bool" where
  "lone s s' \<longleftrightarrow> ru_predicates s' = ru_predicates s \<and> ru_admitted_proofs s' = ru_admitted_proofs s \<and> set (ru_value_names s) \<subseteq> set (ru_value_names s')"

definition aside :: "runtime \<Rightarrow> runtime \<Rightarrow> bool" where
  "aside s s' \<longleftrightarrow> lone s s' \<and> ru_functions s' = ru_functions s \<and> ru_recdefs s' = ru_recdefs s"

definition apart :: "runtime \<Rightarrow> runtime \<Rightarrow> bool" where
  "apart s s' \<longleftrightarrow> aside s s' \<and> ru_datatypes s' = ru_datatypes s"

lemmas apart_defs = lone_def aside_def apart_def

interpretation lone: action_invariant "\<lambda>_. True" "\<lambda>_. True" lone
  by unfold_locales (auto simp: apart_defs)

interpretation aside: action_invariant "\<lambda>_. True" "\<lambda>_. True" aside
  by unfold_locales (auto simp: apart_defs)

interpretation apart: action_invariant "\<lambda>_. True" "\<lambda>_. True" apart
  by unfold_locales (auto simp: apart_defs)

lemma apart_quiet: "quiet.keeps p \<Longrightarrow> apart.keeps p"
  by (rule apart.keepsI, drule quiet.keepsD) (auto simp: apart_defs quiet_def elim: vcA_mono)

lemma aside_apart: "apart.keeps p \<Longrightarrow> aside.keeps p"
  by (rule aside.keepsI, drule apart.keepsD) (auto simp: apart_def elim: vcA_mono)

lemma lone_aside: "aside.keeps p \<Longrightarrow> lone.keeps p"
  by (rule lone.keepsI, drule aside.keepsD) (auto simp: aside_def elim: vcA_mono)

lemmas aside_quiet = aside_apart [OF apart_quiet] and lone_quiet = lone_aside [OF aside_apart [OF apart_quiet]]

lemma aside_enum: "aside.keeps (declare_enum w d)"
proof -
  have "quiet.keeps (reserve_cases d)" "quiet.keeps (resolve_field w n f)" for n f
    unfolding reserve_cases_def check_fields_def resolve_field_def by (intro quiet_rules quiet_simple quiet_resolve_type)+
  then show ?thesis unfolding declare_enum_def declare_datatype_def declare_enumeration_def
    by (intro aside.keeps_rules aside_quiet [OF quiet_simple(6)] aside_quiet [OF quiet_simple(5)] aside_quiet [OF quiet_simple(7)]
        aside.keeps_modify) (auto simp: apart_defs intro: aside_quiet)
qed

lemma lone_function: "lone.keeps (declare_function w d)"
proof -
  have q: "quiet.keeps (capturing c (foldA (function_arm w d bound m p info) ([], []) (fd_arms d)))" "quiet.keeps (record_function w d a b n)" for c bound m p info a b n
    unfolding record_function_def by (intro quiet_capturing quiet_rules quiet_function_arm)+
  show ?thesis unfolding declare_function_def
    by (intro lone.keeps_rules lone_quiet [OF quiet_simple(8)] lone_quiet [OF quiet_simple(1)] lone_quiet [OF quiet_simple(2)]
        lone_quiet [OF quiet_simple(3)] lone_quiet [OF quiet_bind_parameters] lone_quiet [OF quiet_resolve_type] lone_quiet [OF q(1)] lone_quiet [OF q(2)] lone.keeps_modify)
      (auto simp: lone_def)
qed

lemma apart_view: "apart.keeps (declare_view w d)"
proof -
  have q: "quiet.keeps (view_parameter w n b x)" "quiet.keeps (conjoin w env m es)" "quiet.keeps (view_witness w d env c)" for n b x env m es c
    unfolding view_parameter_def conjoin_def view_witness_def by (intro quiet_rules quiet_simple quiet_resolve_type quiet_elaborate_expression)+
  show ?thesis unfolding declare_view_def
    by (intro apart.keeps_rules apart_quiet [OF quiet_capturing] apart_quiet [OF quiet_simple(1)] apart_quiet [OF quiet_simple(3)]
        apart_quiet [OF quiet_resolve_type] apart_quiet [OF q(1)] apart_quiet [OF quiet_rain_event] apart.keeps_modify quiet_rules q(2,3))
      (simp add: apart_defs)
qed

lemma quiet_literal: "quiet.keeps (literal_value e p)"
proof (induction e arbitrary: p)
  case (Expr k sp nm b it bop es i)
  have arguments: "quiet.keeps (mapA (\<lambda>(a, j). literal_value a (ts ! j)) (zip es [0..<length es]))" for ts
    by (intro quiet.keeps_map) (auto dest!: set_zip_leftD intro!: Expr)
  show ?case
    by (cases k) (auto simp: literal_value.simps value_name_def Let_def split: list.splits intro!: quiet_rules quiet_simple arguments Expr)
qed

lemma quiet_table: "quiet.keeps (table_value p e)"
  unfolding table_value_def by (intro quiet_rules quiet_simple quiet_literal) (auto split: prod.split intro!: quiet_rules quiet_simple quiet_literal)

lemma apart_table: "apart.keeps (declare_let w d)" "apart.keeps (declare_model w e)"
  unfolding declare_let_def declare_model_def
  by (intro apart.keeps_rules apart_quiet [OF quiet_simple(8)] apart_quiet [OF quiet_simple(1)] apart_quiet [OF quiet_simple(3)]
      apart_quiet [OF quiet_resolve_type] apart_quiet [OF quiet_table] apart.keeps_modify; simp add: apart_defs)+

section \<open>A run\<close>

text \<open>There are no predicates, and the admitted proofs are true in every later runtime for which the solver is sound.\<close>

definition proofs_true :: "z3_world \<Rightarrow> meanings \<Rightarrow> runtime \<Rightarrow> bool" where
  "proofs_true w F s \<longleftrightarrow> runtime_ok s \<and> ru_predicates s = [] \<and>
     (\<forall>t. runtime_ok t \<longrightarrow> runtime_le s t \<longrightarrow> solver_sound w (values_of t) F \<longrightarrow> (\<forall>p\<in>set (ru_admitted_proofs s). valid (values_of t) F (snd p)))"

interpretation sound: action_invariant "proofs_true w F" "\<lambda>_. True" runtime_le for w F
  by unfold_locales (auto intro: runtime_le_refl runtime_le_trans)

lemma sound_declare: "typed.keeps p \<Longrightarrow> lone.keeps p \<Longrightarrow> sound.keeps w F p"
proof (rule sound.keepsI)
  fix s assume p: "typed.keeps p" "lone.keeps p" and s: "proofs_true w F s"
  have ok: "runtime_ok s" using s by (simp add: proofs_true_def)
  have "proofs_true w F s'" if "runtime_ok s'" "runtime_le s s'" "lone s s'" for s'
    using s that by (auto simp: proofs_true_def lone_def intro: runtime_le_trans)
  then show "vcA p (\<lambda>_ s'. proofs_true w F s' \<and> runtime_le s s') (\<lambda>_ s'. True \<and> runtime_le s s') s"
    using typed.keepsD [OF p(1) ok] lone.keepsD [OF p(2), of s] unfolding vcA_def by (auto split: prod.splits sum.splits)
qed

lemma sound_check: "sound.keeps w F (execute_check w d)"
proof (rule sound.keepsI)
  fix s assume s: "proofs_true w F s"
  then have ok: "runtime_ok s" "ru_predicates s = []" by (simp_all add: proofs_true_def)
  have "proofs_true w F s'" if s': "runtime_ok s'" "steady_le s s'" and c: "checked w s d bound thm s'" for s' bound "thm"
  proof -
    have le: "runtime_le s s'" "ru_predicates s' = []" using s'(2) ok(2) by (simp_all add: steady_le_def quiet_def)
    then show ?thesis unfolding proofs_true_def
      using checked_admits [OF c s'(1) _ _ le(2)] s s'(1) by (auto simp: proofs_true_def intro: runtime_le_trans)
  qed
  then show "vcA (execute_check w d) (\<lambda>_ s'. proofs_true w F s' \<and> runtime_le s s') (\<lambda>_ s'. True \<and> runtime_le s s') s"
    using execute_plain_check_steady [OF ok(1), of w d] ok(2) unfolding execute_check_def steady.ensures_def vcA_def
    by (auto simp: bindA_def getA_def steady_le_def split: prod.splits sum.splits)
qed

text \<open>Declarations of documents without predicates, with the names that the lexer makes.\<close>

definition plain_declaration :: "fine_declaration \<Rightarrow> bool" where
  "plain_declaration d = (case d of EnumDecl e \<Rightarrow> plain_name (ed_name e) \<and> list_all (\<lambda>c. plain_name (ec_name c)) (ed_cases e) | PredicateDecl p \<Rightarrow> False | _ \<Rightarrow> True)"

lemma typed_function: "typed.keeps (declare_function w d)"
  by (rule typed.keeps_ensures, rule typed.ensures_mono [OF declare_function_vc]) auto

lemma sound_declaration: "plain_declaration d \<Longrightarrow> sound.keeps w F (execute_declaration w p d)"
  by (cases d) (auto simp: plain_declaration_def check_that_def reject_def intro!: sound.keeps_rules sound_check
      sound_declare [OF typed_declare_enum lone_aside [OF aside_enum]] sound_declare [OF typed_function lone_function]
      sound_declare [OF typed_declare_let lone_aside [OF aside_apart [OF apart_table(1)]]] sound_declare [OF typed_declare_model lone_aside [OF aside_apart [OF apart_table(2)]]]
      sound_declare [OF typed_declare_view lone_aside [OF aside_apart [OF apart_view]]])

lemma sound_declarations: "list_all plain_declaration ds \<Longrightarrow> sound.keeps w F (execute_declarations w p ds)"
  by (induction ds arbitrary: p) (auto split: sum.split intro!: sound.keeps_rules sound_declaration)

end
