(* ===== verification/Fine_Sample_Proofs.thy ===== *)
theory Fine_Sample_Proofs
  imports Fine_Run_Sound Fine_Sample_Runtime
begin

text \<open>
  A small solver that is sound, and a check and a proof by induction that it verifies, on which the soundness of checks is
  applied.  The solver knows true, conjunctions, implications and reflexivity of equality, and answers \<open>unknown\<close>
  unless a negated assertion is such a tautology.
\<close>

section \<open>A sound solver\<close>

primrec tautology :: "zexpr \<Rightarrow> bool" where
  "tautology (ZNumeral v s) = False"
| "tautology (ZVar i s) = False"
| "tautology (ZQuant k weight qid skid bs body pats nopats) = False"
| "tautology (ZApp d args) =
     (let taut = map tautology args in
      case zd_family d of
        Builtin k \<Rightarrow>
          (case k of
             OP_TRUE \<Rightarrow> args = []
           | OP_AND \<Rightarrow> list_all id taut
           | OP_IMPLIES \<Rightarrow> (case args of [a, b] \<Rightarrow> a = b \<or> taut ! 1 | _ \<Rightarrow> False)
           | OP_EQ \<Rightarrow> (case args of [a, b] \<Rightarrow> a = b | _ \<Rightarrow> False)
           | _ \<Rightarrow> False)
      | _ \<Rightarrow> False)"

definition refutable :: "zexpr \<Rightarrow> bool" where
  "refutable t = (case t of ZApp d [u] \<Rightarrow> zd_family d = Builtin OP_NOT \<and> tautology u | _ \<Rightarrow> False)"

definition sample_solver :: z3_world where
  "sample_solver = sample_world\<lparr>w_check := (\<lambda>_ _ assertions assumptions.
     ([], if list_ex refutable (assertions @ assumptions) then Unsat [] else Unknown ''sample''))\<rparr>"

lemma tautology_true: "tautology t \<Longrightarrow> eval D F K env t = VBool True"
proof (induction t)
  case (ZApp d args)
  then show ?case
    by (auto simp: Let_def list_all_iff apply_decl_def builtin_value_def split: decl_family.splits decl_kind.splits list.splits)
qed auto

lemma refutable_false: "refutable t \<Longrightarrow> eval D F K env t \<noteq> VBool True"
  by (auto simp: refutable_def apply_decl_def builtin_value_def tautology_true split: z3_expr.splits list.splits)

lemma sample_solver_sound: "sound_solver sample_solver t"
  by (auto simp: sound_solver_def solver_sound_def sample_solver_def list_ex_iff dest: refutable_false)

section \<open>A check\<close>

text \<open>\<^verbatim>\<open>check same(x: Int) assumes x >= 0 ensures x >= 0\<close>\<close>

definition sample_parameter :: "string \<Rightarrow> string \<Rightarrow> parameter" where
  "sample_parameter n t = \<lparr>pa_span = default_span, pa_name = n, pa_type = sample_name t\<rparr>"

definition sample_check :: check_decl where
  "sample_check = \<lparr>cd_span = default_span, cd_reusable = False, cd_name = ''same'', cd_parameters = [sample_parameter ''x'' ''Int''],
     cd_induction_parameter = None, cd_induction_span = None, cd_predicate_induction = None,
     cd_assumes = [binary_surface op_greater_equal [name_surface ''x'', integer_surface ''0'']],
     cd_ensures = [binary_surface op_greater_equal [name_surface ''x'', integer_surface ''0'']], cd_node_id = 0\<rparr>"

lemmas check_simps = execute_check_def execute_plain_check_def reserve_value_name_def bind_parameters_def bind_parameter_def open_check_def
  check_conditions_def conjoin_def induction_step_def record_query_def ask_counterexample_def use_proofs_def solver_check_def check_params_def inducting_def
  verified_check_def close_check_def print_induction_def print_def rain_def rain_event_def bound_environment_def elaborate_expression.simps
  elaborate_name_def elaborate_binary_def surface_defs sample_parameter_def sample_name_def sample_solver_def refutable_def
  mk_not_def mk_implies_def mk_and_def bool_val_def mk_eq_def builtin_def

lemma sample_check_run:
  "case execute_check sample_solver sample_check sample_runtime of (r, s') \<Rightarrow> r = Inr 0 \<and>
     ru_output s' = ''verified: same'' @ [CHR 0x0A] @ verified_line \<and> ru_heap s' = ru_heap sample_runtime \<and> ru_datatypes s' = [] \<and> ru_recdefs s' = []"
  unfolding verified_line_def by (simp add: sample_simps check_simps sample_check_def)

section \<open>A proof by induction\<close>

text \<open>\<^verbatim>\<open>proof itself(n: Nat) inducts(n) ensures n == n\<close>, after the declaration of the natural numbers.\<close>

definition sample_proof :: check_decl where
  "sample_proof = \<lparr>cd_span = default_span, cd_reusable = True, cd_name = ''itself'', cd_parameters = [sample_parameter ''n'' ''Nat''],
     cd_induction_parameter = Some ''n'', cd_induction_span = Some default_span, cd_predicate_induction = None,
     cd_assumes = [], cd_ensures = [binary_surface op_equal [name_surface ''n'', name_surface ''n'']], cd_node_id = 0\<rparr>"

definition sample_declarations :: "fine_declaration list" where
  "sample_declarations = [EnumDecl sample_nat, CheckDecl sample_proof]"

lemmas induction_simps = check_simps induction_branch_def induction_hypothesis_def generalized_def case_fields_def record_hypothesis_def record_branch_def
  record_translation_def admit_proof_def datatype_of_def sample_proof_def

lemma sample_declarations_run:
  "case execute_declarations sample_solver nothing_pending sample_declarations sample_runtime of (r, s') \<Rightarrow> r = Inr (Inr nothing_pending) \<and>
     map fst (ru_admitted_proofs s') = [''itself''] \<and> ru_recdefs s' = [] \<and> map fst (ru_datatypes s') = [''Nat''] \<and>
     list_all (\<lambda>c. map zd_name (dc_accessors c) = (if dc_name c = ''Succ'' then [''pred''] else [])) (di_cases (snd (hd (ru_datatypes s'))))"
  by (simp add: sample_declarations_def nothing_pending_def executable_pending_def sample_simps enum_simps induction_simps)

text \<open>An interpretation: the predecessor is the accessor of \<^verbatim>\<open>Succ\<close>.\<close>

definition sample_meanings :: meanings where
  "sample_meanings d vs = (case vs of [VCon c fs] \<Rightarrow> if zd_name d = ''pred'' \<and> fs \<noteq> [] then hd fs else VBool False | _ \<Rightarrow> VBool False)"

lemma sample_interprets:
  assumes "ru_recdefs s = []" "map fst (ru_datatypes s) = [''Nat'']"
    "list_all (\<lambda>c. map zd_name (dc_accessors c) = (if dc_name c = ''Succ'' then [''pred''] else [])) (di_cases (snd (hd (ru_datatypes s))))"
  shows "interprets s sample_meanings"
proof -
  have "sample_meanings (dc_accessors c ! j) [VCon n fs] = fs ! j"
    if "c \<in> set (di_cases (snd (hd (ru_datatypes s))))" "length fs = length (dc_accessors c)" "j < length fs" for c j n fs
  proof -
    from that(1) assms(3) have m: "map zd_name (dc_accessors c) = (if dc_name c = ''Succ'' then [''pred''] else [])" by (simp add: list_all_iff)
    with that(2,3) have one: "length (dc_accessors c) = 1" "map zd_name (dc_accessors c) = [''pred'']"
      by (auto split: if_splits dest: arg_cong [of _ _ length])
    then have "zd_name (dc_accessors c ! 0) = ''pred''" by (cases "dc_accessors c") auto
    with one(1) that(2,3) show ?thesis by (cases fs) (auto simp: sample_meanings_def)
  qed
  then show ?thesis using assms(1,2) by (auto simp: interprets_def split: if_splits)
qed

section \<open>An induction step\<close>

definition sample_bound :: bound_parameter where
  "sample_bound = \<lparr>bp_name = ''n'', bp_type = 2, bp_term = mk_const (argument_name ''Fine.check.'' ''itself'' 0) (SDatatype ''Nat'')\<rparr>"

definition sample_theorem :: zexpr where
  "sample_theorem = mk_eq (bp_term sample_bound) (bp_term sample_bound)"

lemma sample_bound_ok: "params_ok (\<lambda>_. True) (argument_name ''Fine.check.'' (cd_name sample_proof)) sample_nat_runtime [sample_bound]"
  by (simp add: params_ok_def sample_bound_def sample_proof_def sample_nat_runtime_def sample_simps enum_simps sort_at_def)

lemma sample_theorem_ok: "quantifier_free sample_theorem" "uninterpreted sample_theorem \<subseteq> constants [sample_bound]"
  by (auto simp: sample_theorem_def sample_bound_def mk_eq_def builtin_def mk_const_def constants_def)

lemma sample_step_run:
  "case induction_step sample_solver sample_proof sample_theorem [sample_bound] sample_nat_runtime of
     (Inr (h, step), s') \<Rightarrow> tautology step \<and> (\<exists>info. map_of (ru_datatypes s') ''Nat'' = Some info \<and>
        (\<exists>item\<in>set (di_cases info). dc_name item = ''Zero'' \<and> zd_domain (dc_constructor item) = []))
   | _ \<Rightarrow> False"
  by (simp add: sample_nat_runtime_def sample_simps enum_simps induction_simps sample_bound_def sample_theorem_def)

section \<open>A recursive function\<close>

definition sample_functions :: "fine_declaration list" where
  "sample_functions = [EnumDecl sample_nat, FunctionDecl sample_function]"

lemma sample_functions_run:
  "case execute_declarations sample_world nothing_pending sample_functions sample_runtime of (r, t) \<Rightarrow>
     r = Inr (Inr nothing_pending) \<and> map (zd_name \<circ> fst) (ru_recdefs t) = [''copy'']"
  by (simp add: sample_functions_def nothing_pending_def sample_simps enum_simps function_simps forA_def)

end
