(* ===== verification/Fine_Function_Model.thy ===== *)
theory Fine_Function_Model
  imports Fine_Run_Sound
begin

text \<open>
  The declared functions exist.  The check that a recursive call passes a direct field of the matched argument makes the
  definitions of a document well founded, so that some interpretation satisfies all of them: what the soundness of checks
  says about all interpretations is never empty.
\<close>

section \<open>Structural calls\<close>

text \<open>What \<open>check_structural_calls\<close> accepts.\<close>

primrec structural :: "string \<Rightarrow> nat \<Rightarrow> nat \<Rightarrow> string list \<Rightarrow> expr \<Rightarrow> bool" where
  "structural name arity matched bindings (Expr k sp nm b it bop es i) \<longleftrightarrow>
     (k = ek_call \<and> nm = name \<longrightarrow> length es = arity \<and> ex_kind (es ! matched) = ek_name \<and> ex_name (es ! matched) \<in> set bindings) \<and>
     list_all id (map (structural name arity matched bindings) es)"

lemma structural_vc: "vcA (check_structural_calls name arity matched bindings dt e) (\<lambda>_ s'. s' = s \<and> structural name arity matched bindings e) (\<lambda>_ s'. s' = s) s"
proof (induction e)
  case (Expr k sp nm b it bop es i)
  have loop: "vcA (forA es (check_structural_calls name arity matched bindings dt))
      (\<lambda>_ s'. s' = s \<and> list_all (structural name arity matched bindings) es) (\<lambda>_ s'. s' = s) s"
    unfolding forA_def
    by (rule vcA_mono [OF vcA_fold_step [where I = "\<lambda>ys _ s'. s' = s \<and> list_all (structural name arity matched bindings) ys"]])
      (auto intro!: vcA_mono [OF Expr.IH])
  show ?case unfolding check_structural_calls.simps check_that_def Let_def
    by (intro act_rule) (use loop in \<open>auto simp: list_all_iff\<close>)
qed

text \<open>Two interpretations of the functions that differ only where no structural call leads give an expression the same value.\<close>

lemma den_structural:
  assumes "structural name arity m bindings e" "\<And>n. n \<noteq> name \<Longrightarrow> f n = g n" "\<And>x. x \<in> set bindings \<Longrightarrow> \<exists>v. r x = Some v \<and> R v"
    and "(f name = None \<and> g name = None) \<or> (\<exists>a b. f name = Some a \<and> g name = Some b \<and> (\<forall>vs. length vs = arity \<longrightarrow> R (vs ! m) \<longrightarrow> a vs = b vs))"
    and "m < arity"
  shows "den f r e = den g r e"
  using assms(1)
proof (induction e)
  case (Expr k sp nm b it bop es i)
  have map: "map (den f r) es = map (den g r) es" using Expr by (auto simp: list_all_iff)
  have "(case f nm of Some h \<Rightarrow> h (map (den g r) es) | None \<Rightarrow> VCon (con_name nm) (map (den g r) es)) =
        (case g nm of Some h \<Rightarrow> h (map (den g r) es) | None \<Rightarrow> VCon (con_name nm) (map (den g r) es))" if "k = ek_call"
  proof (cases "nm = name")
    case True
    with Expr.prems that have es: "length es = arity" "ex_kind (es ! m) = ek_name" "ex_name (es ! m) \<in> set bindings" by simp_all
    then obtain v where v: "r (ex_name (es ! m)) = Some v" "R v" using assms(3) by blast
    then have "den g r (es ! m) = v" using es(2) by (cases "es ! m") simp
    with v(2) es(1) \<open>m < arity\<close> have "R (map (den g r) es ! m)" by simp
    with assms(4) True es(1) show ?thesis by auto
  qed (simp add: assms(2))
  then show ?case unfolding den.simps map Let_def by (simp split: expr_kind.split)
qed

section \<open>Guarded definitions\<close>

text \<open>Accessors project.\<close>

definition projects :: "runtime \<Rightarrow> meanings \<Rightarrow> bool" where
  "projects s F \<longleftrightarrow> (\<forall>n info item fs j. map_of (ru_datatypes s) n = Some info \<longrightarrow> item \<in> set (di_cases info) \<longrightarrow>
     length fs = length (dc_accessors item) \<longrightarrow> j < length fs \<longrightarrow> F (dc_accessors item ! j) [VCon (con_name (dc_name item)) fs] = fs ! j)"

lemma projects_le: "projects s' F \<Longrightarrow> runtime_le s s' \<Longrightarrow> projects s F"
  unfolding projects_def runtime_le_def by blast

text \<open>Two interpretations agree on the arguments of a definition that a field of a constructor term may reach.\<close>

definition below :: "runtime \<Rightarrow> string \<Rightarrow> datatype_case_info \<Rightarrow> val list \<Rightarrow> val \<Rightarrow> bool" where
  "below s n item fs v \<longleftrightarrow> (\<exists>j<length fs. v = fs ! j \<and> sort_at (ru_heap s) (dc_field_types item ! j) = SDatatype n)"

text \<open>The value of a term, when the matched argument is a constructor term, depends only on the functions \<open>E\<close> and on the
  values of \<open>decl\<close> for the direct fields of the matched sort.\<close>

definition guarded_term :: "runtime \<Rightarrow> zdecl set \<Rightarrow> zdecl \<Rightarrow> zexpr list \<Rightarrow> nat \<Rightarrow> string \<Rightarrow> datatype_case_info \<Rightarrow> zexpr \<Rightarrow> bool" where
  "guarded_term s E decl formals m n item t \<longleftrightarrow>
     (\<forall>D F G K fs vs. projects s F \<longrightarrow> projects s G \<longrightarrow> (\<forall>e\<in>E. F e = G e) \<longrightarrow> length fs = length (dc_field_types item) \<longrightarrow>
        length vs = length formals \<longrightarrow> vs ! m = VCon (con_name (dc_name item)) fs \<longrightarrow>
        (\<forall>ws. length ws = length formals \<longrightarrow> below s n item fs (ws ! m) \<longrightarrow> F decl ws = G decl ws) \<longrightarrow>
        eval D F (assigned formals vs K) [] t = eval D G (assigned formals vs K) [] t)"

definition guarded_definition :: "runtime \<Rightarrow> zdecl set \<Rightarrow> zdecl \<times> zexpr list \<times> zexpr \<Rightarrow> bool" where
  "guarded_definition s E = (\<lambda>(decl, formals, body).
     \<exists>m n info. m < length formals \<and> sort_of (formals ! m) = SDatatype n \<and> map_of (ru_datatypes s) n = Some info \<and>
       (\<forall>item\<in>set (di_cases info). guarded_term s E decl formals m n item body))"

lemma guarded_term_le:
  assumes "guarded_term s E decl formals m n item t" "item_ok (ru_heap s) k item" "runtime_le s s'"
  shows "guarded_term s' E decl formals m n item t"
proof -
  have "below s' n item fs v = below s n item fs v" if "length fs = length (dc_field_types item)" for fs v
    using that assms(2,3) unfolding below_def by (auto simp: item_ok_def list_all_length native_def sort_at_le)
  with assms(1) projects_le [OF _ assms(3)] show ?thesis unfolding guarded_term_def by metis
qed

lemma guarded_definition_le:
  assumes s: "runtime_ok s" and le: "runtime_le s s'" and g: "guarded_definition s E f"
  shows "guarded_definition s' E f"
proof -
  obtain decl formals body where f: "f = (decl, formals, body)" by (cases f)
  from g obtain m n info where m: "m < length formals" "sort_of (formals ! m) = SDatatype n" and i: "map_of (ru_datatypes s) n = Some info"
    and t: "\<And>item. item \<in> set (di_cases info) \<Longrightarrow> guarded_term s E decl formals m n item body" by (auto simp: guarded_definition_def f)
  have "item_ok (ru_heap s) n item" if "item \<in> set (di_cases info)" for item
    using runtime_okD(2) [OF s] i that by (auto simp: tables_ok_def datatype_ok_def list_all_iff)
  with t guarded_term_le [OF _ _ le] have "guarded_term s' E decl formals m n item body" if "item \<in> set (di_cases info)" for item using that by blast
  moreover have "map_of (ru_datatypes s') n = Some info" using le i by (simp add: runtime_le_def)
  ultimately show ?thesis using m unfolding guarded_definition_def f by auto
qed

section \<open>Interpretations exist\<close>

text \<open>Definitions, each guarded with respect to those before it.\<close>

definition definitions_ok :: "runtime \<Rightarrow> (zdecl \<times> zexpr list \<times> zexpr) list \<Rightarrow> bool" where
  "definitions_ok s fs \<longleftrightarrow> distinct (map fst fs) \<and> (\<forall>i<length fs. guarded_definition s (fst ` set (take i fs)) (fs ! i) \<and> definition_ok s (fs ! i))"

lemma definitions_ok_snoc: "definitions_ok s (fs @ [f]) \<longleftrightarrow>
    definitions_ok s fs \<and> guarded_definition s (fst ` set fs) f \<and> definition_ok s f \<and> fst f \<notin> fst ` set fs"
  unfolding definitions_ok_def by (auto simp: All_less_Suc nth_append)

text \<open>The equation of a definition.\<close>

definition satisfies :: "runtime \<Rightarrow> meanings \<Rightarrow> zdecl \<times> zexpr list \<times> zexpr \<Rightarrow> bool" where
  "satisfies s F = (\<lambda>(decl, formals, body). \<forall>vs K. list_all2 (\<lambda>k v. v \<in> values_of s k) (zd_domain decl) vs \<longrightarrow>
     F decl vs = eval (values_of s) F (assigned formals vs K) [] body)"

lemma interprets_satisfies: "interprets s F \<longleftrightarrow> projects s F \<and> (\<forall>f\<in>set (ru_recdefs s). satisfies s F f)"
  unfolding interprets_def projects_def satisfies_def by fast

lemma definition_constants:
  assumes f: "definition_ok s (decl, formals, body)" and none: "ru_predicates s = []"
  shows "eval D F (assigned formals vs K) [] body = eval D' F (assigned formals vs L) [] body"
proof (rule eval_coincidence)
  show "quantifier_free body" using f by (simp add: definition_ok_def sorted_term_def)
  fix d assume "d \<in> uninterpreted body"
  with f none obtain t where "t \<in> set formals" "d \<in> uninterpreted t" by (auto simp: definition_ok_def sorted_term_def relations_def)
  moreover from this(1) f obtain n k where "t = mk_const n k" by (auto simp: definition_ok_def)
  ultimately have "ZApp d [] \<in> set formals" by (simp add: mk_const_def)
  then obtain i where "position_of formals (ZApp d []) = Some i" by (cases "position_of formals (ZApp d [])") (auto simp: position_of_None)
  then show "assigned formals vs K d = assigned formals vs L d" by (simp add: assigned_def)
qed

lemma projects_update:
  assumes s: "runtime_ok s" and F: "projects s F" and d: "zd_family decl = RecursiveFunction"
  shows "projects s (F(decl := h))"
proof -
  have "dc_accessors item ! j \<noteq> decl" if "map_of (ru_datatypes s) n = Some info" "item \<in> set (di_cases info)" "j < length (dc_accessors item)" for n info item j
  proof -
    have "item_ok (ru_heap s) n item" using runtime_okD(2) [OF s] that by (auto simp: tables_ok_def datatype_ok_def list_all_iff)
    with that(3) d show ?thesis by (auto simp: item_ok_def)
  qed
  with F show ?thesis unfolding projects_def by simp
qed

text \<open>The values of a definition after a number of unfoldings.\<close>

primrec unfolded_value :: "runtime \<Rightarrow> meanings \<Rightarrow> zdecl \<times> zexpr list \<times> zexpr \<Rightarrow> nat \<Rightarrow> val list \<Rightarrow> val" where
  "unfolded_value s F f 0 vs = VBool False"
| "unfolded_value s F f (Suc k) vs = (case f of (decl, formals, body) \<Rightarrow>
     eval (values_of s) (F(decl := unfolded_value s F f k)) (assigned formals vs (\<lambda>_. VBool False)) [] body)"

lemma guarded_values:
  assumes s: "runtime_ok s" and g: "guarded_term s E decl formals m n item t" and i: "map_of (ru_datatypes s) n = Some info" "item \<in> set (di_cases info)"
    and F: "projects s F" "projects s G" "\<forall>e\<in>E. F e = G e"
    and v: "vs ! m = VCon (con_name (dc_name item)) fs" "list_all2 (\<lambda>k f. f \<in> values_of s k) (zd_domain (dc_constructor item)) fs" "length vs = length formals"
    and smaller: "\<And>ws. length ws = length formals \<Longrightarrow> size (ws ! m) < size (vs ! m) \<Longrightarrow> ws ! m \<in> values_of s (SDatatype n) \<Longrightarrow> F decl ws = G decl ws"
  shows "eval D F (assigned formals vs K) [] t = eval D G (assigned formals vs K) [] t"
proof -
  have io: "item_ok (ru_heap s) n item" using runtime_okD(2) [OF s] i by (auto simp: tables_ok_def datatype_ok_def list_all_iff)
  then have dom: "zd_domain (dc_constructor item) = map (sort_at (ru_heap s)) (dc_field_types item)" by (simp add: item_ok_def)
  have len: "length fs = length (dc_field_types item)" using list_all2_lengthD [OF v(2)] dom by simp
  have "F decl ws = G decl ws" if ws: "length ws = length formals" "below s n item fs (ws ! m)" for ws
  proof -
    from ws(2) obtain j where j: "j < length fs" "ws ! m = fs ! j" "sort_at (ru_heap s) (dc_field_types item ! j) = SDatatype n"
      by (auto simp: below_def)
    have "fs ! j \<in> values_of s (SDatatype n)" using v(2) j len by (auto simp: list_all2_conv_all_nth dom)
    with smaller [OF ws(1)] field_smaller [OF j(1)] j(2) v(1) show ?thesis by simp
  qed
  with g F len v(1,3) show ?thesis unfolding guarded_term_def by blast
qed

lemma unfolded_stable:
  assumes s: "runtime_ok s" and F: "projects s F" and f: "f = (decl, formals, body)" "definition_ok s f"
    and i: "map_of (ru_datatypes s) n = Some info" "\<And>item. item \<in> set (di_cases info) \<Longrightarrow> guarded_term s E decl formals m n item body" and d: "decl \<notin> E"
  shows "length vs = length formals \<Longrightarrow> vs ! m \<in> values_of s (SDatatype n) \<Longrightarrow> size (vs ! m) < a \<Longrightarrow> size (vs ! m) < b \<Longrightarrow>
    unfolded_value s F f a vs = unfolded_value s F f b vs"
proof (induction "size (vs ! m)" arbitrary: vs a b rule: less_induct)
  case less
  obtain k l where ab: "a = Suc k" "b = Suc l" using less.prems(3,4) by (cases a, simp, cases b, auto)
  have fam: "zd_family decl = RecursiveFunction" using f by (simp add: definition_ok_def)
  let ?F = "F(decl := unfolded_value s F f k)" and ?G = "F(decl := unfolded_value s F f l)"
  from s i(1) less.prems(2) show ?case
  proof (rule datatype_values)
    fix item fs assume item: "item \<in> set (di_cases info)" "vs ! m = VCon (con_name (dc_name item)) fs"
      "list_all2 (\<lambda>k f. f \<in> values_of s k) (zd_domain (dc_constructor item)) fs"
    have "eval (values_of s) ?F (assigned formals vs (\<lambda>_. VBool False)) [] body = eval (values_of s) ?G (assigned formals vs (\<lambda>_. VBool False)) [] body"
      using d less.prems ab
      by (intro guarded_values [OF s i(2) [OF item(1)] i(1) item(1) projects_update [OF s F fam] projects_update [OF s F fam] _ item(2,3)])
        (auto intro!: less.hyps)
    then show ?thesis by (simp add: ab f(1))
  qed
qed

text \<open>One more definition: its values are those after enough unfoldings.\<close>

lemma satisfies_more:
  assumes s: "runtime_ok s" and none: "ru_predicates s = []" and F: "projects s F" and f: "definition_ok s f" "guarded_definition s E f" and d: "fst f \<notin> E"
  shows "\<exists>h. satisfies s (F(fst f := h)) f"
proof -
  obtain decl formals body where f': "f = (decl, formals, body)" by (cases f)
  from f(2) obtain m n info where m: "m < length formals" "sort_of (formals ! m) = SDatatype n" and i: "map_of (ru_datatypes s) n = Some info"
    and t: "\<And>item. item \<in> set (di_cases info) \<Longrightarrow> guarded_term s E decl formals m n item body" by (auto simp: guarded_definition_def f')
  have fam: "zd_family decl = RecursiveFunction" and dom: "zd_domain decl = map sort_of formals" using f(1) by (simp_all add: definition_ok_def f')
  have E: "decl \<notin> E" using d f' by simp
  note stable = unfolded_stable [OF s F f' f(1) i t E]
  let ?U = "unfolded_value s F f" and ?h = "\<lambda>vs. unfolded_value s F f (Suc (size (vs ! m))) vs"
  have "?h vs = eval (values_of s) (F(decl := ?h)) (assigned formals vs K) [] body"
    if vs: "list_all2 (\<lambda>k v. v \<in> values_of s k) (zd_domain decl) vs" for vs K
  proof -
    have len: "length vs = length formals" and v: "vs ! m \<in> values_of s (SDatatype n)"
      using vs m by (auto simp: dom list_all2_conv_all_nth dest: list_all2_lengthD)
    from s i v show ?thesis
    proof (rule datatype_values)
      fix item fs assume item: "item \<in> set (di_cases info)" "vs ! m = VCon (con_name (dc_name item)) fs"
        "list_all2 (\<lambda>k f. f \<in> values_of s k) (zd_domain (dc_constructor item)) fs"
      have "eval (values_of s) (F(decl := ?U (size (vs ! m)))) (assigned formals vs K) [] body = eval (values_of s) (F(decl := ?h)) (assigned formals vs K) [] body"
        using E len
        by (intro guarded_values [OF s t [OF item(1)] i item(1) projects_update [OF s F fam] projects_update [OF s F fam] _ item(2,3)])
          (auto simp del: unfolded_value.simps intro!: stable)
      then show ?thesis
        using definition_constants [OF f(1) [unfolded f'] none, where K = K and L = "\<lambda>_. VBool False" and D = "values_of s" and D' = "values_of s"]
        by (simp add: f')
    qed
  qed
  then show ?thesis by (intro exI [of _ ?h]) (simp add: satisfies_def f')
qed

lemma satisfies_cong:
  assumes s: "runtime_ok s" and F: "projects s F" "projects s G" and f: "guarded_definition s E f" "definition_ok s f" and E: "\<forall>e\<in>insert (fst f) E. F e = G e"
    and F': "satisfies s F f"
  shows "satisfies s G f"
proof -
  obtain decl formals body where f': "f = (decl, formals, body)" by (cases f)
  from f(1) obtain m n info where m: "m < length formals" "sort_of (formals ! m) = SDatatype n" and i: "map_of (ru_datatypes s) n = Some info"
    and t: "\<And>item. item \<in> set (di_cases info) \<Longrightarrow> guarded_term s E decl formals m n item body" by (auto simp: guarded_definition_def f')
  have dom: "zd_domain decl = map sort_of formals" using f(2) by (simp add: definition_ok_def f')
  have "eval (values_of s) F (assigned formals vs K) [] body = eval (values_of s) G (assigned formals vs K) [] body"
    if vs: "list_all2 (\<lambda>k v. v \<in> values_of s k) (zd_domain decl) vs" for vs K
  proof -
    have len: "length vs = length formals" and v: "vs ! m \<in> values_of s (SDatatype n)"
      using vs m by (auto simp: dom list_all2_conv_all_nth dest: list_all2_lengthD)
    from s i v show ?thesis
      by (rule datatype_values) (use E f' len in \<open>auto intro!: guarded_values [OF s t i _ F]\<close>)
  qed
  with F' E show ?thesis by (simp add: satisfies_def f')
qed

lemma interpretation_exists:
  assumes s: "runtime_ok s" and none: "ru_predicates s = []" and F: "projects s F0"
  shows "definitions_ok s fs \<Longrightarrow> \<exists>F. projects s F \<and> (\<forall>f\<in>set fs. satisfies s F f)"
proof (induction fs rule: rev_induct)
  case Nil
  with F show ?case by auto
next
  case (snoc f fs)
  have ok: "definitions_ok s fs" and f: "definition_ok s f" "guarded_definition s (fst ` set fs) f" "fst f \<notin> fst ` set fs"
    using snoc.prems by (auto simp: definitions_ok_snoc)
  obtain F where F: "projects s F" "\<forall>f\<in>set fs. satisfies s F f" using snoc.IH [OF ok] by blast
  obtain h where h: "satisfies s (F(fst f := h)) f" using satisfies_more [OF s none F(1) f] by blast
  have p: "projects s (F(fst f := h))" using f(1) by (intro projects_update [OF s F(1)]) (auto simp: definition_ok_def split: prod.splits)
  have "satisfies s (F(fst f := h)) g" if "g \<in> set fs" for g
  proof -
    obtain i where i: "i < length fs" "g = fs ! i" using \<open>g \<in> set fs\<close> by (metis in_set_conv_nth)
    have "insert (fst g) (fst ` set (take i fs)) \<subseteq> fst ` set fs" using i by (auto dest: in_set_takeD)
    with f(3) have "fst f \<notin> insert (fst g) (fst ` set (take i fs))" by blast
    then have "\<forall>e\<in>insert (fst g) (fst ` set (take i fs)). F e = (F(fst f := h)) e" by (metis fun_upd_other)
    then show ?thesis by (rule satisfies_cong [OF s F(1) p, rotated 2]) (use ok i F(2) in \<open>auto simp: definitions_ok_def\<close>)
  qed
  with h p show ?case by auto
qed

text \<open>Accessors can be interpreted: the fields of a constructor have different names, and no constructor has the name of
  the constructor of pairs.\<close>

definition constructors_plain :: "runtime \<Rightarrow> bool" where
  "constructors_plain s \<longleftrightarrow> (\<forall>n info. map_of (ru_datatypes s) n = Some info \<longrightarrow> (\<forall>item\<in>set (di_cases info). distinct (dc_field_names item) \<and> \<not> pair_name (dc_name item)))"

definition projection :: "runtime \<Rightarrow> meanings" where
  "projection s d vs =
     (case (zd_family d, zd_domain d, vs) of
        (Accessor c, [SDatatype n], [VCon k fs]) \<Rightarrow>
          (case map_of (ru_datatypes s) n of
             Some info \<Rightarrow>
               (case find (\<lambda>item. dc_name item = c) (di_cases info) of
                  Some item \<Rightarrow> (case position_of (dc_accessors item) d of Some j \<Rightarrow> fs ! j | None \<Rightarrow> VBool False)
                | None \<Rightarrow> VBool False)
           | None \<Rightarrow> VBool False)
      | _ \<Rightarrow> VBool False)"

lemma find_distinct: "distinct (map f xs) \<Longrightarrow> x \<in> set xs \<Longrightarrow> find (\<lambda>y. f y = f x) xs = Some x"
  by (induction xs) auto

lemma projection_projects:
  assumes s: "runtime_ok s" and d: "constructors_plain s"
  shows "projects s (projection s)"
  unfolding projects_def
proof (intro allI impI)
  fix n info item j and fs :: "val list"
  assume i: "map_of (ru_datatypes s) n = Some info" "item \<in> set (di_cases info)" and j: "length fs = length (dc_accessors item)" "j < length fs"
  have ok: "distinct (map dc_name (di_cases info))" "item_ok (ru_heap s) n item"
    using runtime_okD(2) [OF s] i by (auto simp: tables_ok_def datatype_ok_def list_all_iff)
  have f: "distinct (dc_field_names item)" using d i by (auto simp: constructors_plain_def)
  have a: "dc_accessors item = map (\<lambda>(f, p). ZDecl f (Accessor (dc_name item)) [SDatatype n] (sort_at (ru_heap s) p)) (zip (dc_field_names item) (dc_field_types item))"
    and l: "length (dc_field_names item) = length (dc_field_types item)" using ok(2) by (simp_all add: item_ok_def)
  have "map zd_name (dc_accessors item) = dc_field_names item" unfolding a using l by (auto simp: comp_def case_prod_beta intro!: nth_equalityI)
  with f have "distinct (dc_accessors item)" by (metis distinct_map)
  then have "position_of (dc_accessors item) (dc_accessors item ! j) = Some j" using j by (intro position_of_nth) simp_all
  moreover have "zd_family (dc_accessors item ! j) = Accessor (dc_name item)" "zd_domain (dc_accessors item ! j) = [SDatatype n]"
    using j l by (simp_all add: a)
  ultimately show "projection s (dc_accessors item ! j) [VCon (con_name (dc_name item)) fs] = fs ! j"
    using i(1) find_distinct [OF ok(1) i(2)] by (simp add: projection_def)
qed

section \<open>Match arms\<close>

text \<open>The environment of an arm holds the parameters and accessors of the matched argument; the recursive bindings are
  accessors of fields of the matched type.\<close>

definition arm_environment :: "bound_parameter list \<Rightarrow> type_ptr \<Rightarrow> zexpr \<Rightarrow> datatype_case_info \<Rightarrow> environment \<Rightarrow> string list \<Rightarrow> bool" where
  "arm_environment bound p t item env rs \<longleftrightarrow>
     (\<forall>x e. map_of env x = Some e \<longrightarrow> snd e \<in> bp_term ` set bound \<or> (\<exists>j<length (dc_field_types item). snd e = ZApp (dc_accessors item ! j) [t])) \<and>
     (\<forall>x\<in>set rs. \<exists>j<length (dc_field_types item). \<exists>q. map_of env x = Some (q, ZApp (dc_accessors item ! j) [t]) \<and> dc_field_types item ! j = p)"

text \<open>The functions that an arm may call: those of \<open>E\<close> and the one that is being declared.\<close>

definition callable :: "runtime \<Rightarrow> zdecl set \<Rightarrow> string \<Rightarrow> zdecl \<Rightarrow> bool" where
  "callable s E name decl \<longleftrightarrow> ru_predicates s = [] \<and>
     (\<forall>n g. map_of (ru_functions s) n = Some g \<longrightarrow> (if n = name then fi_declaration g = decl else fi_declaration g \<in> E)) \<and>
     map_of (ru_functions s) name \<noteq> None"

lemma assigned_parameter:
  assumes "params_ok A nm s bound" "inj nm" "i < length bound"
  shows "eval D F (assigned (map bp_term bound) vs K) [] (bp_term (bound ! i)) = vs ! i"
proof -
  have c: "bp_term (bound ! i) = ZApp (ZDecl (nm i) Uninterpreted [] (sort_at (ru_heap s) (bp_type (bound ! i)))) []"
    using params_okD(3) [OF assms(1,3)] by (simp add: mk_const_def)
  have "position_of (map bp_term bound) (bp_term (bound ! i)) = Some i"
    using position_of_nth [OF bound_distinct [OF assms(1,2)], of i] assms(3) by simp
  then show ?thesis unfolding c by (simp add: assigned_def apply_decl_def)
qed

lemma arm_guarded:
  assumes s: "runtime_ok s" and bound: "params_ok A nm s bound" "inj nm" "m < length bound"
    and i: "map_of (ru_datatypes s) n = Some info" "item \<in> set (di_cases info)" and p: "sort_at (ru_heap s) p = SDatatype n"
    and env: "arm_environment bound p (bp_term (bound ! m)) item env rs" and fn: "callable s E name decl"
    and st: "structural name (length bound) m rs e" and t: "\<And>D F K. eval D F K [] t = den (applied F K s) (env_values (eval D F K []) env) e"
  shows "guarded_term s E decl (map bp_term bound) m n item t"
  unfolding guarded_term_def
proof (intro allI impI)
  fix D F G K fs vs
  assume F: "projects s F" "projects s G" "\<forall>e\<in>E. F e = G e" and fs: "length fs = length (dc_field_types item)" and vs: "length vs = length (map bp_term bound)"
    and v: "vs ! m = VCon (con_name (dc_name item)) fs" and rec: "\<forall>ws. length ws = length (map bp_term bound) \<longrightarrow> below s n item fs (ws ! m) \<longrightarrow> F decl ws = G decl ws"
  let ?K = "assigned (map bp_term bound) vs K"
  have io: "item_ok (ru_heap s) n item" using runtime_okD(2) [OF s] i by (auto simp: tables_ok_def datatype_ok_def list_all_iff)
  have acc: "eval D H ?K [] (ZApp (dc_accessors item ! j) [bp_term (bound ! m)]) = fs ! j" if "projects s H" "j < length (dc_field_types item)" for H j
  proof -
    have "zd_family (dc_accessors item ! j) = Accessor (dc_name item)" "length (dc_accessors item) = length fs" using io that(2) fs by (auto simp: item_ok_def)
    with that i fs v show ?thesis by (simp add: apply_decl_def assigned_parameter [OF bound] projects_def)
  qed
  have "eval D F ?K [] (snd e) = eval D G ?K [] (snd e)" if x: "map_of env x = Some e" for x e
  proof -
    from env x have "snd e \<in> bp_term ` set bound \<or> (\<exists>j<length (dc_field_types item). snd e = ZApp (dc_accessors item ! j) [bp_term (bound ! m)])"
      unfolding arm_environment_def by blast
    then consider (parameter) k where "k < length bound" "snd e = bp_term (bound ! k)" | (field) j where "j < length (dc_field_types item)" "snd e = ZApp (dc_accessors item ! j) [bp_term (bound ! m)]"
      by (auto simp: in_set_conv_nth)
    then show ?thesis by cases (simp_all only: assigned_parameter [OF bound(1,2)] acc [OF F(1)] acc [OF F(2)])
  qed
  then have r: "env_values (eval D F ?K []) env = env_values (eval D G ?K []) env" 
    unfolding env_values_def by (intro ext option.map_cong refl) (simp add: option.set_sel elem_set)
  have b: "\<exists>v. env_values (eval D G ?K []) env x = Some v \<and> below s n item fs v" if "x \<in> set rs" for x
  proof -
    obtain j q where "j < length (dc_field_types item)" "map_of env x = Some (q, ZApp (dc_accessors item ! j) [bp_term (bound ! m)])" "dc_field_types item ! j = p"
      using env \<open>x \<in> set rs\<close> unfolding arm_environment_def by blast
    with acc [OF F(2)] p fs show ?thesis by (auto simp: env_values_def below_def simp del: eval.simps)
  qed
  have ap: "applied H ?K s = functions_of H s" for H using fn by (intro applied_functions [OF s]) (simp add: callable_def)
  have other: "functions_of F s k = functions_of G s k" if "k \<noteq> name" for k
    using fn F(3) that by (cases "map_of (ru_functions s) k") (auto simp: functions_of_def callable_def)
  obtain g where g: "map_of (ru_functions s) name = Some g" "fi_declaration g = decl" using fn by (auto simp: callable_def)
  have "den (functions_of F s) (env_values (eval D G ?K []) env) e = den (functions_of G s) (env_values (eval D G ?K []) env) e"
    by (rule den_structural [OF st other b]) (use g rec bound(3) in \<open>auto simp: functions_of_def\<close>)
  then show "eval D F ?K [] t = eval D G ?K [] t" by (simp add: t r ap)
qed

lemma quiet_bind_field: "quiet.keeps (bind_field item p t b x)"
  unfolding bind_field_def by (cases b, cases x) (auto intro!: quiet_rules quiet_simple)

lemma bind_fields_calm:
  assumes s: "runtime_ok s" and item: "item_ok (ru_heap s) n item" "length bs = length (dc_field_types item)"
    and bound: "params_ok A nm s bound" "m < length bound" "sort_at (ru_heap s) (bp_type (bound ! m)) = SDatatype n"
  shows "calm.ensures s (foldA (bind_field item p (bp_term (bound ! m))) (bound_environment bound, [], []) (zip bs [0..<length bs]))
    (\<lambda>(env, _, rs) s'. typed_environment s' (constants bound) env \<and> arm_environment bound p (bp_term (bound ! m)) item env rs)"
proof -
  let ?t = "bp_term (bound ! m)" and ?fold = "foldA (bind_field item p (bp_term (bound ! m))) (bound_environment bound, [], []) (zip bs [0..<length bs])"
  have t: "sorted_term (constants bound \<union> relations s) (SDatatype n) ?t" using bound_typed [OF bound(1,2)] by (simp add: typed_term_def bound(3))
  have "quiet.keeps ?fold" by (intro quiet_rules quiet_bind_field)
  from calm_ensures [OF this bind_fields_vc [OF s item t bound_environment_typed [OF bound(1)]]]
  have a: "calm.ensures s ?fold (\<lambda>(env, _) s'. typed_environment s' (constants bound) env)" .
  have b: "calm.ensures s ?fold (\<lambda>(env, _, rs) s'. arm_environment bound p ?t item env rs)"
  proof (rule calm.ensures_fold, goal_cases)
    case (1 b x s')
    obtain env l rs y i where bx: "b = (env, l, rs)" "x = (y, i)" by (cases b, cases x) auto
    have i: "i < length (dc_field_types item)" using 1(1) item(2) by (auto simp: bx in_set_zip)
    show ?case unfolding bind_field_def bx prod.case
      by (intro calm_branch calm_check_that calm.ensures_ret 1(2)) (use 1(4) i bx in \<open>auto simp: arm_environment_def map_of_emplace\<close>)
  next
    case 3
    show ?case by (auto simp: arm_environment_def bound_environment_def dest!: map_of_SomeD)
  qed (rule s)
  from calm_conj [OF a b] show ?thesis by (rule calm.ensures_mono) auto
qed

text \<open>The branches of the arms so far.\<close>

definition arms_ok :: "runtime \<Rightarrow> zdecl set \<Rightarrow> zdecl \<Rightarrow> zexpr list \<Rightarrow> nat \<Rightarrow> string \<Rightarrow> datatype_info \<Rightarrow> string list \<times> (zexpr \<times> zexpr) list \<Rightarrow> bool" where
  "arms_ok s E decl formals m n info b \<longleftrightarrow> distinct (fst b) \<and>
     (\<exists>items. map dc_name items = rev (fst b) \<and> set items \<subseteq> set (di_cases info) \<and>
        list_all2 (\<lambda>item (g, v). g = ZApp (dc_recognizer item) [formals ! m] \<and> guarded_term s E decl formals m n item v) items (snd b))"

lemma arms_ok_le:
  assumes "runtime_ok s" "map_of (ru_datatypes s) n = Some info" "arms_ok s E decl formals m n info b" "runtime_le s s'"
  shows "arms_ok s' E decl formals m n info b"
proof -
  have io: "item_ok (ru_heap s) n item" if "item \<in> set (di_cases info)" for item
    using runtime_okD(2) [OF assms(1)] assms(2) that by (auto simp: tables_ok_def datatype_ok_def list_all_iff)
  from assms(3) obtain items where "distinct (fst b)" and items: "map dc_name items = rev (fst b)" "set items \<subseteq> set (di_cases info)"
    and l: "list_all2 (\<lambda>item (g, v). g = ZApp (dc_recognizer item) [formals ! m] \<and> guarded_term s E decl formals m n item v) items (snd b)"
    unfolding arms_ok_def by blast
  moreover have "list_all2 (\<lambda>item (g, v). g = ZApp (dc_recognizer item) [formals ! m] \<and> guarded_term s' E decl formals m n item v) items (snd b)"
    using l by (rule list.rel_mono_strong) (use items(2) io guarded_term_le [OF _ _ assms(4)] in blast)
  ultimately show ?thesis unfolding arms_ok_def by blast
qed

lemma callable_quiet: "callable s E name decl \<Longrightarrow> quiet s s' \<Longrightarrow> callable s' E name decl"
  by (simp add: callable_def quiet_def)

lemma function_arm_guarded:
  assumes s: "runtime_ok s" and bound: "params_ok A nm s bound" "inj nm" "m < length bound" and info: "map_of (ru_datatypes s) n = Some info"
    and matched: "sort_at (ru_heap s) (bp_type (bound ! m)) = SDatatype n" and fn: "callable s E (fd_name d) decl" and len: "length (fd_parameters d) = length bound"
    and b: "arms_ok s E decl (map bp_term bound) m n info b"
  shows "calm.ensures s (function_arm w d bound m q info b arm) (\<lambda>b s'. arms_ok s' E decl (map bp_term bound) m n info b)"
proof -
  let ?t = "bp_term (bound ! m)" and ?p = "bp_type (bound ! m)"
  obtain seen bs where b': "b = (seen, bs)" by (cases b)
  have item: "item_ok (ru_heap s) n item" if "item \<in> set (di_cases info)" for item
    using runtime_okD(2) [OF s] info that by (auto simp: tables_ok_def datatype_ok_def list_all_iff)
  show ?thesis unfolding function_arm_def b' prod.case
  proof (intro calm_branch calm_reject calm_check_that s, goal_cases)
    case (1 mt mtt i it)
    then have it: "it \<in> set (di_cases info)" "dc_name it = ma_constructor arm" and mt: "mtt = ?t" "mt = ?p" by (auto dest: position_of_Some)
    note seen = 1(5) and fields = 1(6)
    show ?case unfolding mt
    proof (rule calm.ensures_bind [OF bind_fields_calm [OF s item [OF it(1)] fields bound(1,3) matched]], clarify, goal_cases)
      case (1 env l rs s1)
      note c1 = this and q = calm_leD(2) [OF 1(2)]
      have st: "calm.ensures s1 (check_structural_calls (fd_name d) (length (fd_parameters d)) m rs (di_name info) (ma_value arm))
          (\<lambda>_ s'. s' = s1 \<and> structural (fd_name d) (length bound) m rs (ma_value arm))"
        unfolding calm.ensures_def len
        by (rule vcA_mono [OF structural_vc [where s = s1]]) (use c1(1) in \<open>auto simp: calm_le_def runtime_le_refl quiet_def\<close>)
      show ?case
      proof (rule calm.ensures_then [OF st], goal_cases)
        case (1 u s2)
        then have s2: "s2 = s1" and st: "structural (fd_name d) (length bound) m rs (ma_value arm)" by simp_all
        have "calm.ensures s1 (elaborate_expression w env (ma_value arm))
            (\<lambda>x s'. \<forall>D F K. eval D F K [] (snd x) = den (applied F K s1) (env_values (eval D F K []) env) (ma_value arm))"
          using elaborate_expression_meaning [OF c1(1,3)] by (intro calm_all) (blast intro: calm.ensures_mono)
        then show ?case unfolding s2
        proof (rule calm.ensures_bind, intro calm_branch calm_type_at calm_check_that calm.ensures_ret, goal_cases)
          case (4 x s3 ty v)
          then have v: "eval D F K [] v = den (applied F K s1) (env_values (eval D F K []) env) (ma_value arm)" for D F K by simp
          have le: "runtime_le s s1" "runtime_le s1 s3" using c1(2) 4(2) by (auto intro: calm_leD)
          have "guarded_term s1 E decl (map bp_term bound) m n it v"
            using le(1) matched params_okD(1) [OF bound(1,3)] info
            by (intro arm_guarded [OF c1(1) params_ok_le [OF bound(1) le(1)] bound(2,3) _ it(1) _ c1(4) callable_quiet [OF fn q] st v])
              (auto simp: runtime_le_def sort_at_append)
          then have g: "guarded_term s3 E decl (map bp_term bound) m n it v"
            by (rule guarded_term_le [where k = n, OF _ _ le(2)]) (use le(1) item [OF it(1)] in \<open>auto simp: runtime_le_def item_ok_append\<close>)
          from arms_ok_le [OF s info b runtime_le_trans [OF le]] obtain items where
            "distinct seen" "map dc_name items = rev seen" "set items \<subseteq> set (di_cases info)"
            "list_all2 (\<lambda>item (g, v). g = ZApp (dc_recognizer item) [map bp_term bound ! m] \<and> guarded_term s3 E decl (map bp_term bound) m n item v) items bs"
            unfolding arms_ok_def b' by auto
          with g it seen bound(3) show ?case unfolding arms_ok_def
            by (auto intro!: exI [of _ "items @ [it]"] list_all2_appendI)
        qed
      qed
    qed
  qed
qed

text \<open>The match over all constructors.\<close>

lemma match_body_agrees:
  assumes "bs \<noteq> []" "\<And>g v. (g, v) \<in> set bs \<Longrightarrow> eval D F K [] g = eval D G K [] g"
    and "\<And>g v. (g, v) \<in> set bs \<Longrightarrow> eval D F K [] g = VBool True \<Longrightarrow> eval D F K [] v = eval D G K [] v" and "\<exists>(g, v)\<in>set bs. eval D F K [] g = VBool True"
  shows "eval D F K [] (match_body bs) = eval D G K [] (match_body bs)"
  using assms
proof (induction bs)
  case Nil
  from Nil.prems(1) show ?case by simp
next
  case (Cons b bs)
  obtain g v where b: "b = (g, v)" by (cases b)
  show ?case
  proof (cases "bs = []")
    case True
    with Cons.prems(3,4) have "eval D F K [] v = eval D G K [] v" by (simp add: b)
    with True show ?thesis by (simp add: match_body_def b)
  next
    case False
    have m: "match_body ((g, v) # bs) = mk_ite g v (match_body bs)" using False by (simp add: match_body_def)
    show ?thesis
    proof (cases "eval D F K [] g = VBool True")
      case True
      with Cons.prems(2,3) [of g v] show ?thesis by (simp add: m b)
    next
      case n: False
      have "eval D F K [] (match_body bs) = eval D G K [] (match_body bs)"
        using Cons.prems(4) n by (intro Cons.IH [OF False Cons.prems(2) Cons.prems(3)]) (auto simp: b)
      with n Cons.prems(2) [of g v] show ?thesis by (simp add: m b)
    qed
  qed
qed

lemma arms_guarded:
  assumes s: "runtime_ok s" and info: "map_of (ru_datatypes s) n = Some info" and b: "arms_ok s E decl formals m n info (seen, bs)"
    and len: "length seen = length (di_cases info)" and f: "formals = map bp_term bound" "params_ok A nm s bound" "inj nm" "m < length bound"
    and plain: "constructors_plain s" and item: "item \<in> set (di_cases info)"
  shows "guarded_term s E decl formals m n item (match_body bs)"
  unfolding guarded_term_def
proof (intro allI impI)
  fix D F G K fs vs
  assume F: "projects s F" "projects s G" "\<forall>e\<in>E. F e = G e" and fs: "length fs = length (dc_field_types item)" and vs: "length vs = length formals"
    and v: "vs ! m = VCon (con_name (dc_name item)) fs" and rec: "\<forall>ws. length ws = length formals \<longrightarrow> below s n item fs (ws ! m) \<longrightarrow> F decl ws = G decl ws"
  have ok: "distinct (map dc_name (di_cases info))" "\<And>c. c \<in> set (di_cases info) \<Longrightarrow> item_ok (ru_heap s) n c"
    using runtime_okD(2) [OF s] info by (auto simp: tables_ok_def datatype_ok_def list_all_iff)
  from b obtain items where d: "distinct seen" and items: "map dc_name items = rev seen" "set items \<subseteq> set (di_cases info)"
    and l: "list_all2 (\<lambda>item (g, v). g = ZApp (dc_recognizer item) [formals ! m] \<and> guarded_term s E decl formals m n item v) items bs"
    unfolding arms_ok_def by auto
  have di: "distinct items" using d items(1) by (metis distinct_map distinct_rev)
  have "length items = length (di_cases info)" using len arg_cong [OF items(1), of length] by simp
  with di ok(1) items(2) have all: "set items = set (di_cases info)"
    by (intro card_subset_eq) (auto simp: distinct_card distinct_map)
  let ?K = "assigned formals vs K"
  have x: "eval D H ?K [] (formals ! m) = vs ! m" for H using assigned_parameter [OF f(2-4)] f(1,4) by simp
  have recognized: "eval D H ?K [] (ZApp (dc_recognizer c) [formals ! m]) = VBool (c = item)" if "c \<in> set (di_cases info)" for H c
  proof -
    have "con_name (dc_name item) = con_name (dc_name c) \<longleftrightarrow> dc_name item = dc_name c"
      using plain info item that by (auto simp: constructors_plain_def con_name_def)
    also have "\<dots> \<longleftrightarrow> c = item" using ok(1) item that by (auto simp: distinct_map dest: inj_onD)
    finally show ?thesis using ok(2) [OF that] x v by (simp add: item_ok_def apply_decl_def)
  qed
  have branch: "\<exists>c\<in>set (di_cases info). g = ZApp (dc_recognizer c) [formals ! m] \<and> guarded_term s E decl formals m n c t" if "(g, t) \<in> set bs" for g t
    using l that items(2) by (fastforce simp: list_all2_conv_all_nth in_set_conv_nth)
  obtain i where i: "i < length items" "items ! i = item" using item unfolding all [symmetric] by (metis in_set_conv_nth)
  obtain g t where gt: "bs ! i = (g, t)" by (cases "bs ! i")
  have "i < length bs" "g = ZApp (dc_recognizer item) [formals ! m]" using l i gt by (auto simp: list_all2_conv_all_nth)
  with gt have t: "(ZApp (dc_recognizer item) [formals ! m], t) \<in> set bs" "eval D F ?K [] (ZApp (dc_recognizer item) [formals ! m]) = VBool True"
    using recognized [OF item] by (auto simp: in_set_conv_nth simp del: eval.simps)
  show "eval D F ?K [] (match_body bs) = eval D G ?K [] (match_body bs)"
  proof (rule match_body_agrees)
    show "bs \<noteq> []" "\<exists>(g, v)\<in>set bs. eval D F ?K [] g = VBool True" using t by (force simp del: eval.simps)+
  next
    fix g u assume "(g, u) \<in> set bs"
    then obtain c where c: "c \<in> set (di_cases info)" "g = ZApp (dc_recognizer c) [formals ! m]" "guarded_term s E decl formals m n c u" using branch by blast
    show "eval D F ?K [] g = eval D G ?K [] g" unfolding c(2) recognized [OF c(1)] ..
    assume "eval D F ?K [] g = VBool True"
    then have "c = item" unfolding c(2) recognized [OF c(1)] by simp
    with c(3) F fs vs v rec show "eval D F ?K [] u = eval D G ?K [] u" unfolding guarded_term_def by blast
  qed
qed

section \<open>The declaration of a function\<close>

lemma capturing_calm:
  assumes s: "runtime_ok s" and p: "\<And>s'. runtime_ok s' \<Longrightarrow> calm_le s s' \<Longrightarrow> calm.ensures s' p Q"
    and Q: "\<And>x s' a b. Q x s' \<Longrightarrow> Q x (s'\<lparr>ru_capture_source_edges := a, ru_source_edge_within := b\<rparr>)"
  shows "calm.ensures s (capturing within p) Q"
  unfolding capturing_def
  by (intro calm.ensures_read [OF s] calm_branch calm.ensures_then [OF calm.ensures_modify [where Q = "\<lambda>_ _. True"]] calm.ensures_bind [OF p]
      calm.ensures_then [OF calm.ensures_modify [where Q = "\<lambda>_ s'. Q x s'" for x]] calm.ensures_ret)
    (auto simp: s calm_le_def runtime_le_refl quiet_def intro: Q)

lemma arms_ok_flags: "arms_ok (s\<lparr>ru_capture_source_edges := a, ru_source_edge_within := b\<rparr>) E decl formals m n info x = arms_ok s E decl formals m n info x"
  by (simp add: arms_ok_def guarded_term_def projects_def below_def)

text \<open>A state that differs only in its definitions.\<close>

definition redefined :: "runtime \<Rightarrow> runtime \<Rightarrow> bool" where
  "redefined s s' \<longleftrightarrow> quiet s (s'\<lparr>ru_recdefs := ru_recdefs s\<rparr>)"

lemma arms_calm:
  assumes s: "runtime_ok s" and bound: "params_ok A nm s bound" "inj nm" "m < length bound" and info: "map_of (ru_datatypes s) n = Some info"
    and matched: "sort_at (ru_heap s) (bp_type (bound ! m)) = SDatatype n" and fn: "callable s E (fd_name d) decl" and len: "length (fd_parameters d) = length bound"
  shows "calm.ensures s (capturing within (foldA (function_arm w d bound m p info) ([], []) (fd_arms d))) (\<lambda>b s'. arms_ok s' E decl (map bp_term bound) m n info b)"
proof (rule capturing_calm [OF s])
  fix s1 assume s1: "runtime_ok s1" "calm_le s s1"
  show "calm.ensures s1 (foldA (function_arm w d bound m p info) ([], []) (fd_arms d)) (\<lambda>b s'. arms_ok s' E decl (map bp_term bound) m n info b)"
  proof (rule calm.ensures_fold [OF _ s1(1)], goal_cases)
    case (1 b x s2)
    have c: "calm_le s s2" by (rule calm.le_trans [OF s1(2) 1(3)])
    note le = calm_leD(1) [OF c] and q = calm_leD(2) [OF c]
    show ?case
      by (rule function_arm_guarded [OF 1(2) params_ok_le [OF bound(1) le] bound(2,3) _ _ callable_quiet [OF fn q] len 1(4)])
        (use info q matched params_okD(1) [OF bound(1,3)] le in \<open>auto simp: quiet_def sort_at_le\<close>)
  qed (simp add: arms_ok_def)
qed (simp add: arms_ok_flags)

lemma function_body_guarded:
  assumes s: "runtime_ok s" "constructors_plain s" and bound: "params_ok (\<lambda>t. rt_kind t \<noteq> rk_table) nm s bound" "inj nm" "m < length bound"
    and t: "t = ru_heap s ! bp_type (bound ! m)" "rt_kind t = rk_datatype" and fn: "callable s E (fd_name d) decl" and len: "length (fd_parameters d) = length bound"
  shows "typed.ensures s (bindA (getA (\<lambda>s. the (map_of (ru_datatypes s) (the (rt_datatype t))))) (\<lambda>dt.
      bindA (capturing within (foldA (function_arm w d bound m p dt) ([], []) (fd_arms d))) (\<lambda>(seen, branches).
      thenA (check_that (length seen = length (di_cases dt)) (fd_span d) (message dt seen))
      (let body = match_body branches; formals = map bp_term bound in
       thenA (modifyA (\<lambda>s. s\<lparr>ru_recdefs := ru_recdefs s @ [(decl, formals, body)]\<rparr>))
       (record_function w d (ZApp decl formals) body (length branches))))))
    (\<lambda>_ s'. redefined s s' \<and> (\<exists>f. ru_recdefs s' = ru_recdefs s @ [f] \<and> fst f = decl \<and> guarded_definition s' E f))"
proof (rule typed.ensures_read [OF s(1)])
  let ?dt = "the (map_of (ru_datatypes s) (the (rt_datatype t)))" and ?n = "rt_display t"
  note q = params_okD(1) [OF bound(1,3)]
  have n: "map_of (ru_datatypes s) ?n = Some ?dt" "sort_at (ru_heap s) (bp_type (bound ! m)) = SDatatype ?n"
    using type_okD [OF s(1) q] runtime_okD(6) [OF s(1)] q t datatype_of_type [OF s(1) q] by (auto simp: type_ok_def informed_def)
  have "calm.ensures s (capturing within (foldA (function_arm w d bound m p ?dt) ([], []) (fd_arms d))) (\<lambda>b s'. arms_ok s' E decl (map bp_term bound) m ?n ?dt b)"
    by (rule arms_calm [OF s(1) bound n fn len])
  then have arms: "typed.ensures s (capturing within (foldA (function_arm w d bound m p ?dt) ([], []) (fd_arms d)))
      (\<lambda>b s'. calm_le s s' \<and> arms_ok s' E decl (map bp_term bound) m ?n ?dt b)"
    unfolding calm.ensures_def typed.ensures_def vcA_def by (auto simp: calm_le_def split: prod.splits sum.splits)
  show "typed.ensures s (bindA (capturing within (foldA (function_arm w d bound m p ?dt) ([], []) (fd_arms d))) (\<lambda>(seen, branches).
      thenA (check_that (length seen = length (di_cases ?dt)) (fd_span d) (message ?dt seen))
      (let body = match_body branches; formals = map bp_term bound in
       thenA (modifyA (\<lambda>s. s\<lparr>ru_recdefs := ru_recdefs s @ [(decl, formals, body)]\<rparr>))
       (record_function w d (ZApp decl formals) body (length branches)))))
    (\<lambda>_ s'. redefined s s' \<and> (\<exists>f. ru_recdefs s' = ru_recdefs s @ [f] \<and> fst f = decl \<and> guarded_definition s' E f))"
  proof (rule typed.ensures_bind [OF arms], clarify, unfold Let_def, rule check_that_vc, assumption, goal_cases)
    case (1 seen bs s1)
    let ?f = "(decl, map bp_term bound, match_body bs)"
    note le = calm_leD(1) [OF 1(3)] and q = calm_leD(2) [OF 1(3)]
    have dt: "map_of (ru_datatypes s1) ?n = Some ?dt" "constructors_plain s1" using n(1) s(2) q by (simp_all add: quiet_def constructors_plain_def)
    have g: "guarded_definition s1 E ?f"
      using arms_guarded [OF 1(1) dt(1) 1(4,5) refl params_ok_le [OF bound(1) le] bound(2,3) dt(2)] dt(1) bound(3) params_okD(3) [OF bound(1,3)] n(2)
      by (auto simp: guarded_definition_def mk_const_def)
    show ?case
    proof (rule typed.ensures_then [OF typed.ensures_modify [where Q = "\<lambda>_ s'. redefined s s' \<and> ru_recdefs s' = ru_recdefs s @ [?f] \<and> guarded_definition s' E ?f"]], goal_cases)
      case (4 u s2)
      have "typed.ensures s2 (record_function w d (ZApp decl (map bp_term bound)) (match_body bs) (length bs)) (\<lambda>_ s'. quiet s2 s' \<and> True)"
        by (rule typed.ensures_mono [OF ensures_quiet [OF record_function_keeps(2) typed.ensures_keeps [OF record_function_keeps(1) 4(1)]]]) simp
      then show ?case
      proof (rule typed.ensures_mono)
        fix x s3 assume "runtime_le s2 s3" "quiet s2 s3 \<and> True"
        with 4 guarded_definition_le [OF 4(1) \<open>runtime_le s2 s3\<close>]
        show "redefined s s3 \<and> (\<exists>f. ru_recdefs s3 = ru_recdefs s @ [f] \<and> fst f = decl \<and> guarded_definition s3 E f)"
          by (auto simp: redefined_def quiet_def)
      qed
    qed (use 1(1) q g guarded_definition_le [OF 1(1) _ g, of "s1\<lparr>ru_recdefs := ru_recdefs s @ [?f]\<rparr>"] in \<open>auto simp: runtime_le_refl redefined_def quiet_def\<close>)
  qed
qed

text \<open>What is kept: every definition is guarded with respect to those before it, and every function has its definition.\<close>

definition functions_modelled :: "runtime \<Rightarrow> bool" where
  "functions_modelled s \<longleftrightarrow> runtime_ok s \<and> ru_predicates s = [] \<and> constructors_plain s \<and> definitions_ok s (ru_recdefs s) \<and>
     (\<forall>f\<in>set (ru_recdefs s). zd_name (fst f) \<in> set (ru_value_names s)) \<and>
     (\<forall>n g. map_of (ru_functions s) n = Some g \<longrightarrow> n \<in> set (ru_value_names s) \<and> fi_declaration g \<in> fst ` set (ru_recdefs s))"

lemma functions_modelled_interpretation:
  assumes "functions_modelled s"
  shows "\<exists>F. interprets s F"
  using interpretation_exists [of s "projection s" "ru_recdefs s"] projection_projects [of s] assms
  by (auto simp: functions_modelled_def interprets_satisfies)

lemma reserve_vc:
  "runtime_ok s \<Longrightarrow> typed.ensures s (reserve_value_name name span) (\<lambda>_ s'. quiet s s' \<and> name \<in> set (ru_value_names s') \<and> name \<notin> set (ru_value_names s))"
  unfolding reserve_value_name_def
  by (intro typed.ensures_read check_that_vc typed.ensures_modify) (auto simp: runtime_le_refl quiet_def)

text \<open>The new function, its definition, and otherwise only reserved names.\<close>

definition declared :: "runtime \<Rightarrow> function_decl \<Rightarrow> runtime \<Rightarrow> bool" where
  "declared s d s' \<longleftrightarrow> quiet s (s'\<lparr>ru_recdefs := ru_recdefs s, ru_functions := ru_functions s\<rparr>) \<and>
     fd_name d \<in> set (ru_value_names s') \<and> fd_name d \<notin> set (ru_value_names s) \<and>
     (\<exists>f info. ru_recdefs s' = ru_recdefs s @ [f] \<and> ru_functions s' = emplace (fd_name d) info (ru_functions s) \<and> fi_declaration info = fst f \<and>
        zd_name (fst f) = fd_name d \<and> guarded_definition s' (fst ` set (ru_recdefs s)) f)"

lemma declare_function_guarded:
  assumes fm: "functions_modelled s"
  shows "typed.ensures s (declare_function w d) (\<lambda>_ s'. declared s d s')"
  unfolding declare_function_def
proof (rule typed.ensures_then [OF reserve_vc],
    use fm in \<open>simp add: functions_modelled_def\<close>,
    intro check_that_vc, assumption, assumption,
    rule typed.ensures_bind [OF ensures_quiet [OF quiet_bind_parameters bind_parameters_vc]], assumption,
    intro ensures_branch reject_vc type_at_vc check_that_vc, assumption, assumption, assumption,
    rule typed.ensures_bind [OF ensures_quiet [OF quiet_resolve_type resolve_type_range]], assumption,
    intro type_at_vc check_that_vc typed.ensures_read ensures_branch, assumption, assumption, assumption, goal_cases)
  case (1 u s1 bound s2 m p s3 decl info)
  let ?s = "s3\<lparr>ru_functions := emplace (fd_name d) info (ru_functions s3)\<rparr>" and ?E = "fst ` set (ru_recdefs s)"
  have q: "quiet s s3" using 1(3,8,13) quiet.le_trans by blast
  have nm: "fd_name d \<in> set (ru_value_names s3)" "fd_name d \<notin> set (ru_value_names s)" using 1(3,8,13) unfolding quiet_def by blast+
  from 1 have bound: "params_ok (\<lambda>t. rt_kind t \<noteq> rk_table) (argument_name ''Fine.function.'' (fd_name d)) s3 bound" "m < length bound"
    by (auto dest: params_ok_le position_of_Some)
  have t: "ru_heap s2 ! bp_type (bound ! m) = ru_heap s3 ! bp_type (bound ! m)"
    using heap_le [OF 1(12) params_okD(1) [OF 1(8) [THEN conjunct1, THEN conjunct1] bound(2)]] by simp
  have p: "native (ru_heap s3) p" using 1 by (simp add: native_def)
  have ok: "runtime_ok ?s" "runtime_le s3 ?s"
    using runtime_ok_function [OF 1(11) function_ok_of_parameters [OF bound(1) p]] 1 by simp_all
  have fresh: "map_of (ru_functions s3) (fd_name d) = None"
    using fm 1(3) q by (cases "map_of (ru_functions s) (fd_name d)") (auto simp: functions_modelled_def quiet_def)
  have plain: "constructors_plain ?s" using fm q by (simp add: functions_modelled_def constructors_plain_def quiet_def)
  have fn: "callable ?s ?E (fd_name d) decl"
    using fm q fresh 1(16) by (auto simp: callable_def functions_modelled_def quiet_def map_of_emplace)
  have b: "params_ok (\<lambda>t. rt_kind t \<noteq> rk_table) (argument_name ''Fine.function.'' (fd_name d)) ?s bound" by (rule params_ok_le [OF bound(1) ok(2)])
  have k: "rt_kind (ru_heap s3 ! bp_type (bound ! m)) = rk_datatype" using 1(10) t by simp
  have len: "length (fd_parameters d) = length bound" using 1(8) by simp
  have i: "fi_declaration info = decl" "zd_name decl = fd_name d" using 1(15,16) by simp_all
  have post: "declared s d s'" if "redefined ?s s' \<and> (\<exists>f. ru_recdefs s' = ru_recdefs ?s @ [f] \<and> fst f = decl \<and> guarded_definition s' ?E f)" for s'
    using that q nm i by (auto simp: declared_def redefined_def quiet_def)
  show ?case unfolding t
  proof (rule typed.ensures_then [OF typed.ensures_modify [where Q = "\<lambda>_ s'. s' = ?s"]], goal_cases)
    case (4 u s')
    then show ?case
      by (simp only:, intro typed.ensures_mono [OF function_body_guarded [OF ok(1) plain b argument_name_inj bound(2) _ _ fn len]]) (simp_all add: k post)
  qed (use ok in simp_all)
qed

section \<open>All declarations\<close>

text \<open>A type declaration adds constructors with different field names.\<close>

definition case_plain :: "enum_case \<Rightarrow> bool" where
  "case_plain c \<longleftrightarrow> distinct (map ef_name (ec_fields c))"

lemma check_fields_vc: "vcA (check_fields c) (\<lambda>_ _. case_plain c) (\<lambda>_ _. True) s"
  unfolding check_fields_def check_that_def case_plain_def
  by (rule vcA_then, rule vcA_fold_step [where I = "\<lambda>ys seen _. set seen = ef_name ` set ys \<and> distinct (map ef_name ys)"])
    (auto intro!: act_rule)

lemma reserve_cases_plain: "vcA (reserve_cases d) (\<lambda>_ s'. quiet s s' \<and> (\<forall>c\<in>set (ed_cases d). case_plain c)) (\<lambda>_ _. True) s"
proof -
  have q: "quiet.keeps (reserve_cases d)" unfolding reserve_cases_def check_fields_def by (intro quiet_rules quiet_simple)
  have "vcA (reserve_cases d) (\<lambda>_ _. \<forall>c\<in>set (ed_cases d). case_plain c) (\<lambda>_ _. True) s"
    unfolding reserve_cases_def check_that_def
    by (rule vcA_then, rule vcA_fold_step [where I = "\<lambda>ys seen _. \<forall>c\<in>set ys. case_plain c"])
      (auto intro!: act_rule quiet.keeps_use [OF quiet_reserve] vcA_mono [OF check_fields_vc])
  with quiet.keepsD [OF q, of s] show ?thesis unfolding vcA_def by (auto split: prod.splits sum.splits)
qed

lemma constructors_plain_emplace:
  assumes "constructors_plain s" "\<And>item. item \<in> set (di_cases info) \<Longrightarrow> distinct (dc_field_names item) \<and> \<not> pair_name (dc_name item)"
  shows "constructors_plain (s\<lparr>ru_constructors := c, ru_types := t, ru_datatypes := emplace n info (ru_datatypes s)\<rparr>)"
  using assms by (auto simp: constructors_plain_def map_of_emplace)

lemma enum_plain:
  assumes d: "list_all (\<lambda>c. plain_name (ec_name c)) (ed_cases d)" and s: "constructors_plain s"
  shows "vcA (declare_enum w d) (\<lambda>_ s'. constructors_plain s') (\<lambda>_ _. True) s"
proof -
  have q: "quiet.keeps (resolve_field w n f)" "quiet.keeps (mapA (\<lambda>c. mapA (resolve_field w n) (ec_fields c)) cs)" for n f cs
    unfolding resolve_field_def by (intro quiet_rules quiet_simple quiet_resolve_type)+
  have plain: "constructors_plain b = constructors_plain a" if "quiet a b" for a b using that by (simp add: constructors_plain_def quiet_def)
  have info: "distinct (dc_field_names item) \<and> \<not> pair_name (dc_name item)"
    if "item \<in> set (map (\<lambda>(c, ps). case_info heap (ed_name d) self c ps) (zip (ed_cases d) resolved))" "\<forall>c\<in>set (ed_cases d). case_plain c" for item heap self resolved
    using that d by (auto simp: case_info_def Let_def case_plain_def list_all_iff dest!: set_zip_leftD pair_not_plain)
  have fields: "vcA (declare_datatype w d) (\<lambda>_ s'. constructors_plain s') (\<lambda>_ _. True) t" if "constructors_plain t" "\<forall>c\<in>set (ed_cases d). case_plain c" for t
    unfolding declare_datatype_def Let_def
    by (intro act_rule quiet.keeps_use [OF q(2)] quiet.keeps_use [OF quiet_simple(6)] quiet.keeps_use [OF quiet_simple(5)] constructors_plain_emplace)
      (use that info in \<open>auto simp: plain\<close>)
  have nullary: "vcA (declare_enumeration w d) (\<lambda>_ s'. constructors_plain s') (\<lambda>_ _. True) t" if "constructors_plain t" for t
    unfolding declare_enumeration_def Let_def
    by (intro act_rule quiet.keeps_use [OF quiet_simple(6)] quiet.keeps_use [OF quiet_simple(5)])
      (use that in \<open>auto simp: plain, auto simp: plain [symmetric] constructors_plain_def quiet_def\<close>)
  show ?thesis unfolding declare_enum_def
    by (intro act_rule quiet.keeps_use [OF quiet_simple(7)] vcA_mono [OF reserve_cases_plain]) (use s in \<open>auto simp: plain intro!: fields nullary\<close>)
qed

lemma definitions_ok_le:
  assumes "runtime_ok s" "runtime_le s s'" "definitions_ok s fs"
  shows "definitions_ok s' fs"
proof -
  have "definition_ok s' f" if "definition_ok s f" for f
    using that sorted_le [OF _ assms(2)] by (auto simp: definition_ok_def split: prod.splits)
  with assms(3) guarded_definition_le [OF assms(1,2)] show ?thesis by (auto simp: definitions_ok_def)
qed

interpretation models: action_invariant functions_modelled "\<lambda>_. True" runtime_le
  by unfold_locales (auto intro: runtime_le_refl runtime_le_trans)

lemma functions_modelled_aside:
  "functions_modelled s \<Longrightarrow> runtime_ok s' \<Longrightarrow> runtime_le s s' \<Longrightarrow> ru_predicates s' = ru_predicates s \<Longrightarrow> ru_functions s' = ru_functions s \<Longrightarrow>
   ru_recdefs s' = ru_recdefs s \<Longrightarrow> set (ru_value_names s) \<subseteq> set (ru_value_names s') \<Longrightarrow> constructors_plain s' \<Longrightarrow> functions_modelled s'"
  using definitions_ok_le [of s s' "ru_recdefs s"] by (auto simp: functions_modelled_def)

lemma models_aside:
  assumes p: "typed.keeps p" "aside.keeps p" "\<And>s. constructors_plain s \<Longrightarrow> vcA p (\<lambda>_ s'. constructors_plain s') (\<lambda>_ _. True) s"
  shows "models.keeps p"
proof (rule models.keepsI)
  fix s assume s: "functions_modelled s"
  then have ok: "runtime_ok s" "constructors_plain s" by (simp_all add: functions_modelled_def)
  have "functions_modelled s'" if "runtime_ok s'" "runtime_le s s'" "aside s s'" "constructors_plain s'" for s'
    using functions_modelled_aside [OF s that(1,2)] that(3,4) by (simp add: apart_defs)
  then show "vcA p (\<lambda>_ s'. functions_modelled s' \<and> runtime_le s s') (\<lambda>_ s'. True \<and> runtime_le s s') s"
    using typed.keepsD [OF p(1) ok(1)] aside.keepsD [OF p(2), of s] p(3) [OF ok(2)] unfolding vcA_def by (auto split: prod.splits sum.splits)
qed

lemma models_apart: "typed.keeps p \<Longrightarrow> apart.keeps p \<Longrightarrow> models.keeps p"
  by (rule models_aside [OF _ aside_apart]) (auto simp: apart_defs constructors_plain_def intro!: apart.keeps_use [of p])

lemma models_function: "models.keeps (declare_function w d)"
proof (rule models.keeps_ensures)
  fix s assume s: "functions_modelled s"
  then have ok: "runtime_ok s" by (simp add: functions_modelled_def)
  have "functions_modelled s'" if t: "runtime_ok s'" "runtime_le s s'" and d: "declared s d s'" and f: "ru_recdefs s' = ru_recdefs s @ [f]" "definition_ok s' f" for s' f
  proof -
    from d f(1) obtain info where i: "ru_functions s' = emplace (fd_name d) info (ru_functions s)" "fi_declaration info = fst f" "zd_name (fst f) = fd_name d"
      "guarded_definition s' (fst ` set (ru_recdefs s)) f" "fd_name d \<in> set (ru_value_names s')" "fd_name d \<notin> set (ru_value_names s)" by (auto simp: declared_def)
    have q: "ru_predicates s' = []" "constructors_plain s'" "set (ru_value_names s) \<subseteq> set (ru_value_names s')"
      using s d by (auto simp: functions_modelled_def declared_def quiet_def constructors_plain_def)
    have new: "fst f \<notin> fst ` set (ru_recdefs s)" using s i(3,6) by (auto simp: functions_modelled_def)
    have "definitions_ok s' (ru_recdefs s')"
      unfolding f(1) definitions_ok_snoc using s i(4) f(2) new definitions_ok_le [OF ok t(2)] by (simp add: functions_modelled_def)
    with t(1) q i f(1) s show ?thesis unfolding functions_modelled_def by (auto simp: map_of_emplace split: if_splits)
  qed
  then show "models.ensures s (declare_function w d) (\<lambda>_ _. True)"
    using declare_function_guarded [OF s, of w d] declare_function_vc [OF ok, of w d]
    unfolding typed.ensures_def models.ensures_def vcA_def by (auto split: prod.splits sum.splits)
qed

lemma models_check: "models.keeps (execute_check w d)"
proof (rule models.keepsI)
  fix s assume s: "functions_modelled s"
  then have ok: "runtime_ok s" "ru_predicates s = []" "constructors_plain s" by (simp_all add: functions_modelled_def)
  have "functions_modelled s'" if "runtime_ok s'" "steady_le s s'" for s'
    using functions_modelled_aside [OF s that(1)] that(2) ok by (simp add: steady_le_def quiet_def constructors_plain_def)
  then show "vcA (execute_check w d) (\<lambda>_ s'. functions_modelled s' \<and> runtime_le s s') (\<lambda>_ s'. True \<and> runtime_le s s') s"
    using execute_plain_check_steady [OF ok(1), of w d] ok(2) unfolding execute_check_def steady.ensures_def vcA_def
    by (auto simp: bindA_def getA_def steady_le_def split: prod.splits sum.splits)
qed

lemma models_declaration: "plain_declaration d \<Longrightarrow> models.keeps (execute_declaration w p d)"
  by (cases d) (auto simp: plain_declaration_def check_that_def reject_def intro!: models.keeps_rules models_check models_function
      models_aside [OF typed_declare_enum aside_enum enum_plain] models_apart [OF typed_declare_let apart_table(1)]
      models_apart [OF typed_declare_model apart_table(2)] models_apart [OF typed_declare_view apart_view])

lemma models_declarations: "list_all plain_declaration ds \<Longrightarrow> models.keeps (execute_declarations w p ds)"
  by (induction ds arbitrary: p) (auto split: sum.split intro!: models.keeps_rules models_declaration)

lemma new_runtime_modelled: "functions_modelled (new_runtime rainfall random run snapshot)"
  by (simp add: functions_modelled_def new_runtime_ok) (simp add: new_runtime_def constructors_plain_def definitions_ok_def)

end
