(* ===== verification/Fine_Soundness_Properties.thy ===== *)
theory Fine_Soundness_Properties
  imports Fine_Sample_Proofs Fine_Function_Model
begin

text \<open>
  What a verdict of the runtime means: the terms that are given to the solver have the meaning of the source, constructor
  induction is sound, a verified check is true, and so is every proof that a run has admitted.
\<close>

section \<open>Checks\<close>



section \<open>Runs\<close>

text \<open>C2: only true proofs are admitted.  After the declarations of a document without predicates every
  admitted proof, the universal closure that later queries assume, is true in every interpretation of all the
  declarations, if what the solver calls unsatisfiable is false in them.  The document may declare types,
  functions and views between the proofs, and its proofs may use each other.\<close>

theorem admitted_proofs_true:
  assumes "execute_declarations w nothing_pending ds (new_runtime rainfall random run snapshot) = (Inr r, t)" "list_all plain_declaration ds"
    and "sound_solver w t" "interprets t F"
  shows "\<forall>(name, p)\<in>set (ru_admitted_proofs t). valid (values_of t) F p"
proof -
  have "proofs_true w F (new_runtime rainfall random run snapshot)"
    by (simp add: proofs_true_def new_runtime_ok) (simp add: new_runtime_def)
  from vcA_Inr [OF sound.keepsD [OF sound_declarations [OF assms(2)] this] assms(1)] have t: "proofs_true w F t" by blast
  then have "runtime_ok t" by (simp add: proofs_true_def)
  with t assms(3,4) runtime_le_refl [of t] show ?thesis unfolding proofs_true_def sound_solver_def by fastforce
qed

theorem admitted_proofs_true_witness:
  "\<exists>p t. execute_declarations sample_solver nothing_pending sample_declarations sample_runtime = (Inr (Inr nothing_pending), t) \<and>
     ru_admitted_proofs t = [(''itself'', p)] \<and> valid (values_of t) sample_meanings p"
proof -
  obtain t where r: "execute_declarations sample_solver nothing_pending sample_declarations sample_runtime = (Inr (Inr nothing_pending), t)"
      "map fst (ru_admitted_proofs t) = [''itself'']"
    and i: "ru_recdefs t = []" "map fst (ru_datatypes t) = [''Nat'']"
      "list_all (\<lambda>c. map zd_name (dc_accessors c) = (if dc_name c = ''Succ'' then [''pred''] else [])) (di_cases (snd (hd (ru_datatypes t))))"
    using sample_declarations_run by (auto split: prod.splits)
  have "list_all plain_declaration sample_declarations"
    by (simp add: sample_declarations_def plain_declaration_def sample_nat_def sample_case_def plain_name_def is_name_continue_def is_name_start_def)
  from admitted_proofs_true [OF r(1) [unfolded sample_runtime_def] this sample_solver_sound sample_interprets [OF i]] r
  show ?thesis by (cases "ru_admitted_proofs t") auto
qed

section \<open>Functions\<close>

text \<open>C3: the declared functions exist.  After the declarations of a document without predicates there is an
  interpretation in which all accessors project and every recursive function satisfies its definition: the
  runtime accepts a recursive call only with a direct field of the matched argument, so that the definitions
  are well founded, and the equations that Z3 is given are never contradictory.\<close>

theorem declared_functions_exist:
  assumes "execute_declarations w nothing_pending ds (new_runtime rainfall random run snapshot) = (Inr r, t)" "list_all plain_declaration ds"
  shows "\<exists>F. interprets t F"
  using vcA_Inr [OF models.keepsD [OF models_declarations [OF assms(2)] new_runtime_modelled] assms(1)]
  by (intro functions_modelled_interpretation) blast

theorem declared_functions_exist_witness:
  "\<exists>t F. execute_declarations sample_world nothing_pending sample_functions sample_runtime = (Inr (Inr nothing_pending), t) \<and>
     map (zd_name \<circ> fst) (ru_recdefs t) = [''copy''] \<and> interprets t F"
proof -
  obtain t where r: "execute_declarations sample_world nothing_pending sample_functions sample_runtime = (Inr (Inr nothing_pending), t)"
      "map (zd_name \<circ> fst) (ru_recdefs t) = [''copy'']"
    using sample_functions_run by (auto split: prod.splits)
  have "list_all plain_declaration sample_functions"
    by (simp add: sample_functions_def plain_declaration_def sample_nat_def sample_case_def plain_name_def is_name_continue_def is_name_start_def)
  from declared_functions_exist [OF r(1) [unfolded sample_runtime_def] this] obtain F where "interprets t F" ..
  with r show ?thesis by (intro exI [of _ t] exI [of _ F]) simp
qed

section \<open>Elaboration and induction\<close>

text \<open>C5: elaboration keeps the meaning.  The term for an accepted expression evaluates to the value that the
  expression has in the source, where names have the values of the terms of the environment, calls apply the
  declared functions or build constructor terms, and operators are those of the integers and Booleans.\<close>

theorem elaboration_keeps_meaning:
  assumes "runtime_ok s" "typed_environment s C env" "elaborate_expression w env e s = (Inr (p, t), s')"
  shows "eval D F K [] t = den (applied F K s) (env_values (eval D F K []) env) e"
  using vcA_Inr [OF elaborate_expression_meaning [OF assms(1,2), unfolded calm.ensures_def] assms(3)] by simp

theorem elaboration_keeps_meaning_witness:
  "\<exists>p t s'. elaborate_expression sample_world sample_env sample_expr sample_runtime = (Inr (p, t), s') \<and>
     eval (\<lambda>_. {}) sample_meanings (\<lambda>_. VInt 4) [] t = VCon ''Fine.Pair'' [VInt 5, VBool True]"
proof -
  have "case elaborate_expression sample_world sample_env sample_expr sample_runtime of (Inr _, _) \<Rightarrow> True | _ \<Rightarrow> False"
    by (simp add: sample_simps sample_expr_def surface_defs elaborate_expression.simps elaborate_name_def elaborate_binary_def elaborate_tuple_def sample_env_def)
  then obtain p t s' where r: "elaborate_expression sample_world sample_env sample_expr sample_runtime = (Inr (p, t), s')"
    by (auto split: prod.splits sum.splits)
  have e: "typed_environment sample_runtime {ZDecl ''x'' Uninterpreted [] SInt} sample_env"
    using sample_runtime_ok by (simp add: typed_environment_def sample_env_def typed_int sorted_const)
  have "den (applied sample_meanings (\<lambda>_. VInt 4) sample_runtime) (env_values (eval (\<lambda>_. {}) sample_meanings (\<lambda>_. VInt 4) []) sample_env) sample_expr
      = VCon ''Fine.Pair'' [VInt 5, VBool True]"
    by (simp add: sample_expr_def surface_defs env_values_def sample_env_def binary_value_def int_of_val_def numeral_value_def string_to_nat_def digit_value_def)
  with r elaboration_keeps_meaning [OF sample_runtime_ok e r, of "\<lambda>_. {}" sample_meanings "\<lambda>_. VInt 4"] show ?thesis by auto
qed

text \<open>C4: constructor induction is sound.  If the step that replaces the theorem of an inductive check, one branch
  for each constructor with a generalized hypothesis for each direct recursive field, is true for all values of
  the constants, then so is the theorem.\<close>

theorem constructor_induction_sound:
  assumes "runtime_ok s" "params_ok A (argument_name ''Fine.check.'' (cd_name d)) s bound" "cd_induction_parameter d = Some x"
    and "quantifier_free thm" "uninterpreted thm \<subseteq> constants bound" "induction_step w d thm bound s = (Inr (hypotheses, step), s')"
    and "native_sorts_inhabited (values_of s') bound" "valid (values_of s') F step"
  shows "valid (values_of s') F thm"
proof -
  from vcA_Inr [OF induction_step_meaning [OF assms(1,2), unfolded calm.ensures_def] assms(6)]
  have s': "runtime_ok s'" "runtime_le s s'" and m: "step_means s d thm bound step" by (auto simp: calm_le_def)
  note bound = params_ok_le [OF assms(2) s'(2)]
  from step_means_le [OF assms(1,2) s'(2) m] assms(3) obtain i n info where
    i: "i < length bound" "map_of (ru_datatypes s') n = Some info" "sort_at (ru_heap s') (bp_type (bound ! i)) = SDatatype n"
    and b: "\<And>K. eval (values_of s') F K [] step = VBool True \<longleftrightarrow> (\<forall>item\<in>set (di_cases info). branch_holds (values_of s') F (ru_heap s') d thm bound i K item)"
    by (auto simp: step_means_def inducting_def)
  show ?thesis unfolding valid_def
    using induction_sound [OF s'(1) bound i assms(7,4,5)] assms(8) b unfolding valid_def by blast
qed

theorem constructor_induction_sound_witness:
  "\<exists>h step s'. induction_step sample_solver sample_proof sample_theorem [sample_bound] sample_nat_runtime = (Inr (h, step), s') \<and>
     valid (values_of s') sample_meanings sample_theorem"
proof -
  obtain h step s' info item where r: "induction_step sample_solver sample_proof sample_theorem [sample_bound] sample_nat_runtime = (Inr (h, step), s')"
    and t: "tautology step" and i: "map_of (ru_datatypes s') ''Nat'' = Some info" "item \<in> set (di_cases info)" "dc_name item = ''Zero''"
      "zd_domain (dc_constructor item) = []"
    using sample_step_run by (auto split: prod.splits sum.splits)
  have "(''Zero'', []) \<in> signature_of s' ''Nat''" unfolding signature_of_def using i by force
  then have "VCon (con_name ''Zero'') [] \<in> values_of s' (SDatatype ''Nat'')" unfolding values_of_def mem_Collect_eq by (rule has_con) simp
  then have n: "native_sorts_inhabited (values_of s') [sample_bound]" by (auto simp: native_sorts_inhabited_def sample_bound_def mk_const_def)
  have x: "cd_induction_parameter sample_proof = Some ''n''" by (simp add: sample_proof_def)
  have v: "valid (values_of s') sample_meanings step" by (simp add: valid_def tautology_true [OF t])
  from constructor_induction_sound [OF sample_nat_runtime_ok sample_bound_ok x sample_theorem_ok r n v] r show ?thesis by blast
qed

end
