(* ===== verification/Spec2Isabelle.thy ===== *)
theory Spec2Isabelle
  imports Fine_Document_Props Fine_Printer Fine_Source_Props Rainfall_Properties Fine_Enumerator_Props Fine_Runtime_Properties Fine_Soundness_Properties
begin

text \<open>
  Verification of Fine, the front end to Z3 in \<^verbatim>\<open>src/src/fine\<close>.

  \<^bold>\<open>The program.\<close>  Fine reads a document of declarations, elaborates each into Z3 sorts, recursive functions and
  terms, and runs the one executable declaration: a \<^verbatim>\<open>check\<close> (or reusable \<^verbatim>\<open>proof\<close>), a \<^verbatim>\<open>synth\<close>, or a
  \<^verbatim>\<open>solve bisimulation\<close>.  What Z3 returns is lifted back to Fine source, which is printed, parsed and elaborated
  again before it is shown.  With \<^verbatim>\<open>fine rain\<close> a recorder writes a trace of everything that passes between Fine
  and Z3, in which every term is printed as generated Fine text that can be read back.

  \<^bold>\<open>The model.\<close>  One theory or two for each source file.  A struct is a record, an enumeration or variant a
  datatype, a method that changes its object an action on the record of that object.

  \<^item> \<open>Fine_Prelude\<close>, \<open>Fine_Effects\<close>: results, decimal text, and actions, which return a value or an exception
    together with the next state; the calculus \<open>vcA\<close> and the locale \<open>action_invariant\<close> for actions that keep an
    invariant and grow a state along an order, interpreted for the recorder (\<open>rec\<close>), the runtime's recorder (\<open>rains\<close>),
    its types (\<open>typed\<close>), its tables (\<open>quiet\<close>, \<open>calm\<close>, \<open>steady\<close>, \<open>lone\<close>, \<open>aside\<close>, \<open>apart\<close>), its proofs (\<open>sound\<close>) and its
    functions (\<open>models\<close>).
  \<^item> \<open>Fine_Syntax\<close> (\<^verbatim>\<open>parser.h\<close>), \<open>Fine_Lexer\<close>, \<open>Fine_Parser\<close>, \<open>Fine_Decl_Parser\<close> (\<^verbatim>\<open>parser.cpp\<close>), \<open>Fine_Print\<close>
    (the expression printer of \<^verbatim>\<open>runtime.cpp\<close>).
  \<^item> \<open>Rainfall_Lift\<close>, \<open>Rainfall_Reify\<close> (\<^verbatim>\<open>rainfall_lift.cpp\<close>): generated text for Z3 terms, and its parser.
  \<^item> \<open>Fine_Source\<close> (\<^verbatim>\<open>source.cpp\<close>): SHA-256 and snapshots.  \<open>Rainfall_Recorder\<close> (\<^verbatim>\<open>rainfall.cpp\<close>): the trace.
    \<open>Rainfall_Observers\<close>: the four observers that write what Z3 reports while it works.
  \<^item> \<open>Fine_Z3\<close>: Z3 as the code sees it.  Terms are a datatype, identity of terms is equality, and what Z3 computes
    (answers, models, cores, callbacks, simplification) is the record \<open>z3_world\<close>, an argument of every operation.
  \<^item> \<open>Fine_Synthesis\<close> (\<^verbatim>\<open>synthesis.cpp\<close>): the candidate enumerator and the refutation loop.
  \<^item> \<open>Fine_Runtime\<close>, \<open>Fine_Elaboration\<close>, \<open>Fine_Declarations\<close>, \<open>Fine_Values\<close>, \<open>Fine_Check\<close> (\<^verbatim>\<open>runtime.cpp\<close> and
    \<^verbatim>\<open>runtime_internal.h\<close>): the state of \<^verbatim>\<open>Runtime\<close>, types, expressions, declarations, lifting, and checks with
    constructor induction.  \<open>Fine_Match_Synthesis\<close> (\<^verbatim>\<open>synthesis_runtime.cpp\<close>), \<open>Fine_Bisimulation\<close>
    (\<^verbatim>\<open>bisimulation_runtime.cpp\<close>), \<open>Fine_Predicates\<close>, \<open>Fine_Predicate_Checks\<close>, \<open>Fine_Predicate_Induction\<close>
    (\<^verbatim>\<open>predicate_runtime.cpp\<close>).  \<open>Fine_Execute\<close>: the dispatch of a document and \<^verbatim>\<open>main.cpp\<close>.

  \<^bold>\<open>What is shown.\<close>

  \<^item> Parsing (\<open>Fine_Lexer_Props\<close>, \<open>Fine_Parser_Props\<close>, \<open>Fine_Decl_Props\<close>, \<open>Fine_Document_Props\<close>, \<open>Fine_Printer\<close>): the
    parser is total, its documents are well formed with distinct node identities, its errors are located in the
    text, and a printed expression parses to itself.
  \<^item> Generated text (\<open>Rainfall_Lift_Props\<close>, \<open>Rainfall_Round_Trip\<close>): every closed term reads back as itself.
  \<^item> The trace (\<open>Rainfall_Recorder_Props\<close>, \<open>Rainfall_Observers_Props\<close>, \<open>Rainfall_Properties\<close>): references are
    identities, events are numbered without gaps, validation succeeds, an accepted instance justifies one clause,
    and all this whatever the solver reports.
  \<^item> The digest (\<open>Fine_Source_Props\<close>): the rounds of the standard, the padding and the shape of the result.
  \<^item> The enumerator (\<open>Fine_Enumerator_Props\<close>): exactly the grammar terms, in order of size, each reached.
  \<^item> The runtime's types (\<open>Fine_Typing\<close>, \<open>Fine_Declaration_Props\<close>, \<open>Fine_Predicate_Props\<close>, \<open>Fine_Runtime_Properties\<close>): the
    tables of a runtime agree with each other and with what Z3 was given, every declaration keeps that, also when
    it throws, and elaboration builds only well-sorted terms of the type it reports.
  \<^item> The meaning of a verdict (\<open>Fine_Semantics\<close>, \<open>Fine_Meaning\<close>, \<open>Fine_Induction_Sound\<close>, \<open>Fine_Check_Sound\<close>,
    \<open>Fine_Run_Sound\<close>, \<open>Fine_Function_Model\<close>, \<open>Fine_Soundness_Properties\<close>): a semantics of the source and one of the terms, which elaboration
    relates; constructor induction is sound; a verified check is true and only true proofs are admitted, if what
    the solver calls unsatisfiable is false in all interpretations (\<open>sound_solver\<close>).  Such interpretations exist, since
    the definitions of a document are structurally recursive.

  \<open>Fine_Sample_World\<close>, \<open>Fine_Sample_Runtime\<close> and \<open>Fine_Sample_Proofs\<close> hold the concrete worlds, runtimes and
  declarations on which the properties are applied.

  \<^bold>\<open>Fuel and bounds.\<close>  The loops of the two parsers take fuel.  The entry points pass one more than the length of
  the text, and \<open>parse_total\<close> and \<open>lifted_term_round_trip\<close> show that it is enough.  The search of a synthesis need not
  end; its fuel is an argument, and \<open>OutOfTime\<close> marks a run that used it up.  Enumeration without fuel is covered by
  \<open>enumerator_complete\<close>.  Words of SHA-256 have 32 bits and wrap; the tuple counter of the runtime wraps at 32 bits;
  offsets and node identities count things in memory and are natural numbers.

  \<^bold>\<open>Not modelled.\<close>  Z3 itself, which is a parameter.  Reading files, the clock and the random device, which are the
  record \<open>machine\<close>.  The embedded demo text, which the build generates.  The editor's language host and the build
  scripts, which are not part of the program.  C++ leaves the order of the two calls in the argument list of a tuple
  constructor open; the model runs them from left to right.
\<close>

section \<open>Printing and parsing\<close>

text \<open>C13: an expression that was parsed prints to a text that parses to the same expression, up to the
  spans and identities of its nodes.\<close>

theorem parsed_expression_round_trip:
  assumes "parse_expression src = Inr e"
  shows "\<exists>e'. parse_expression (print_expression e) = Inr e' \<and> strip e' = strip e"
  using parse_expression_post [of src] assms by (intro parse_print_expression wf_expr_printable) auto

theorem parsed_expression_round_trip_witness:
  "\<exists>e e'. parse_expression ''f(1, x) >= 0 && y'' = Inr e \<and> print_expression e = ''((f(1, x) >= 0) && y)'' \<and>
     parse_expression (print_expression e) = Inr e' \<and> strip e' = strip e"
proof -
  have "case parse_expression ''f(1, x) >= 0 && y'' of Inr e \<Rightarrow> print_expression e = ''((f(1, x) >= 0) && y)'' | Inl _ \<Rightarrow> False"
    by code_simp
  then obtain e where e: "parse_expression ''f(1, x) >= 0 && y'' = Inr e" "print_expression e = ''((f(1, x) >= 0) && y)''"
    by (auto split: sum.splits)
  from e parsed_expression_round_trip [OF e(1)] show ?thesis by blast
qed

end
